(* ===== verification/GLB_Prelude.thy ===== *)
theory GLB_Prelude
  imports Main "HOL-Library.Word"
begin

text \<open>
  Shared vocabulary of the development: the machine integers of the C code, byte strings and their
  little-endian reading, host and network byte order on the little-endian targets the programs run
  on, reads and writes at an offset of a buffer, and the interface through which the packet parser
  reads packet bytes. The component theories build on these facts and on the collections
  \<open>byte_eval\<close> (evaluation of byte codecs on concrete data), \<open>wire\<close> (layout of headers),
  \<open>stats_simps\<close> and \<open>config_simps\<close> declared here.
\<close>

unbundle bit_operations_syntax

named_theorems byte_eval "evaluation of byte codecs on concrete data"
named_theorems wire "layout and round trips of wire headers"

type_synonym u8 = "8 word"
type_synonym u16 = "16 word"
type_synonym u32 = "32 word"
type_synonym u64 = "64 word"
type_synonym mac_addr = "48 word"
type_synonym ipv6_addr = "128 word"
type_synonym bytes = "8 word list"

subsection \<open>Little-endian byte strings\<close>

text \<open>
  A C object of an integer type, stored in memory on a little-endian machine, is the string of its
  bytes, least significant first. Byte arrays of a fixed size (a MAC address, an IPv6 address) are
  kept as the word with these bytes.
\<close>

fun le_bytes :: "nat \<Rightarrow> 'a::len word \<Rightarrow> bytes" where
  "le_bytes 0 w = []"
| "le_bytes (Suc n) w = ucast w # le_bytes n (drop_bit 8 w)"

fun le_word :: "bytes \<Rightarrow> 'a::len word" where
  "le_word [] = 0"
| "le_word (b # bs) = ucast b OR push_bit 8 (le_word bs)"

definition get_field :: "nat \<Rightarrow> nat \<Rightarrow> bytes \<Rightarrow> 'a::len word" where
  "get_field off n bs = le_word (take n (drop off bs))"

definition ntohs :: "u16 \<Rightarrow> u16" where
  "ntohs w = le_word (rev (le_bytes 2 w))"

definition htons :: "u16 \<Rightarrow> u16" where
  "htons w = le_word (rev (le_bytes 2 w))"

definition htonl :: "u32 \<Rightarrow> u32" where
  "htonl w = le_word (rev (le_bytes 4 w))"

definition bswap_64 :: "u64 \<Rightarrow> u64" where
  "bswap_64 w = le_word (rev (le_bytes 8 w))"

text \<open>Reading \<open>len\<close> bytes at an offset of a buffer, and writing bytes over a buffer.\<close>

definition read_bytes :: "bytes \<Rightarrow> nat \<Rightarrow> nat \<Rightarrow> bytes option" where
  "read_bytes bs off len = (if length bs < off + len then None else Some (take len (drop off bs)))"

definition write_bytes :: "bytes \<Rightarrow> nat \<Rightarrow> bytes \<Rightarrow> bytes" where
  "write_bytes bs off xs = take off bs @ xs @ drop (off + length xs) bs"

subsection \<open>Facts on byte strings\<close>

lemma length_le_bytes [simp]: "length (le_bytes n w) = n"
  by (induction n arbitrary: w) auto

lemma le_bytes_eq_Nil [simp]: "le_bytes n w = [] \<longleftrightarrow> n = 0"
  by (cases n) auto

lemma le_bytes_numeral [byte_eval]:
  "le_bytes (numeral k) w = ucast w # le_bytes (pred_numeral k) (drop_bit 8 w)"
  by (simp add: numeral_eq_Suc)

lemma nth_le_bytes: "i < n \<Longrightarrow> le_bytes n w ! i = ucast (drop_bit (8 * i) w)"
proof (induction n arbitrary: w i)
  case 0
  then show ?case by simp
next
  case (Suc n)
  then show ?case
    by (cases i) (auto simp: algebra_simps)
qed

lemma bit_le_word:
  "bit (le_word bs :: 'a::len word) n \<longleftrightarrow>
     n < LENGTH('a) \<and> n div 8 < length bs \<and> bit (bs ! (n div 8)) (n mod 8)"
proof (induction bs arbitrary: n)
  case Nil
  then show ?case by simp
next
  case (Cons b bs)
  show ?case
  proof (cases "n < 8")
    case True
    then show ?thesis
      by (auto simp: bit_simps)
  next
    case False
    then obtain m where m: "n = m + 8"
      by (metis add.commute le_add_diff_inverse linorder_not_less)
    have "bit b n = False"
      using False bit_imp_le_length [of b n] by auto
    moreover have "n div 8 = Suc (m div 8)" "n mod 8 = m mod 8"
      using m by simp_all
    ultimately show ?thesis
      using Cons.IH [of m] m by (auto simp: bit_simps dest: bit_imp_le_length)
  qed
qed

lemma le_word_le_bytes: "le_word (le_bytes n w) = (take_bit (8 * n) w :: 'a::len word)"
proof (rule bit_word_eqI)
  fix k assume "k < LENGTH('a)"
  then show "bit (le_word (le_bytes n w) :: 'a word) k = bit (take_bit (8 * n) w) k"
    by (auto simp: bit_le_word nth_le_bytes bit_simps)
qed

lemma le_word_le_bytes_full:
  "LENGTH('a) \<le> 8 * n \<Longrightarrow> le_word (le_bytes n w) = (w :: 'a::len word)"
  by (simp add: le_word_le_bytes take_bit_word_eq_self)

lemma le_bytes_le_word:
  assumes "length bs = n" "8 * n \<le> LENGTH('a)"
  shows "le_bytes n (le_word bs :: 'a::len word) = bs"
proof (rule nth_equalityI)
  show "length (le_bytes n (le_word bs :: 'a word)) = length bs"
    using assms by simp
next
  fix i assume "i < length (le_bytes n (le_word bs :: 'a word))"
  then have i: "i < n" by simp
  show "le_bytes n (le_word bs :: 'a word) ! i = bs ! i"
  proof (rule bit_word_eqI)
    fix k assume "k < LENGTH(8)"
    then show "bit (le_bytes n (le_word bs :: 'a word) ! i) k = bit (bs ! i) k"
      using i assms by (auto simp: nth_le_bytes bit_le_word bit_simps)
  qed
qed

lemma le_word_append_zeros: "le_word (xs @ replicate n 0) = (le_word xs :: 'a::len word)"
  by (rule bit_word_eqI) (auto simp: bit_le_word nth_append)

lemma le_word_take_append_zeros:
  "le_word (take k (drop d (xs @ replicate n 0))) = (le_word (take k (drop d xs)) :: 'a::len word)"
  by (simp add: le_word_append_zeros min_def)

lemma le_word_byte [simp]: "le_word [b] = (b :: u8)"
  by simp

lemma le_bytes_byte [simp]: "le_bytes (Suc 0) (b :: u8) = [b]"
  by simp

lemma le_bytes_inject:
  fixes v w :: "'a::len word"
  assumes "le_bytes n v = le_bytes n w" "LENGTH('a) \<le> 8 * n"
  shows "v = w"
  using assms by (metis le_word_le_bytes_full)

lemma ntohs_htons [simp]: "ntohs (htons w) = w"
  by (simp add: ntohs_def htons_def le_bytes_le_word le_word_le_bytes_full)

lemma htons_ntohs [simp]: "htons (ntohs w) = w"
  by (simp add: ntohs_def htons_def le_bytes_le_word le_word_le_bytes_full)

lemma htonl_htonl [simp]: "htonl (htonl w) = w"
  by (simp add: htonl_def le_bytes_le_word le_word_le_bytes_full)

lemma htons_eq_iff [simp]: "htons v = htons w \<longleftrightarrow> v = w"
  by (metis ntohs_htons)

lemma ntohs_eq_iff [simp]: "ntohs v = ntohs w \<longleftrightarrow> v = w"
  by (metis htons_ntohs)

lemma le_bytes_htons: "le_bytes 2 (htons w) = rev (le_bytes 2 w)"
  by (simp add: htons_def le_bytes_le_word)

lemma read_bytes_length: "read_bytes bs off len = Some xs \<Longrightarrow> length xs = len"
  by (auto simp: read_bytes_def split: if_splits)

lemma length_write_bytes [simp]:
  "off + length xs \<le> length bs \<Longrightarrow> length (write_bytes bs off xs) = length bs"
  by (simp add: write_bytes_def)

lemma nth_write_bytes:
  assumes "off + length xs \<le> length bs" "i < length bs"
  shows "write_bytes bs off xs ! i =
    (if off \<le> i \<and> i < off + length xs then xs ! (i - off) else bs ! i)"
  using assms by (auto simp: write_bytes_def nth_append)

lemma unat_ucast_up:
  "LENGTH('a) \<le> LENGTH('b) \<Longrightarrow> unat (ucast (w :: 'a::len word) :: 'b::len word) = unat w"
  by (metis take_bit_nat_eq_self unsigned_less order_less_le_trans power_increasing_iff
      one_less_numeral_iff semiring_norm(76) unsigned_ucast_eq)

lemma of_nat_word_inject:
  assumes "a < 2 ^ LENGTH('a)" "b < 2 ^ LENGTH('a)"
  shows "(of_nat a :: 'a::len word) = of_nat b \<longleftrightarrow> a = b"
  using assms by (metis of_nat_inverse)

subsection \<open>Reading fields of laid out headers\<close>

lemma get_field_append [wire]:
  "length xs \<le> off \<Longrightarrow> get_field off n (xs @ ys) = get_field (off - length xs) n ys"
  "off + n \<le> length xs \<Longrightarrow> get_field off n (xs @ ys) = get_field off n xs"
  by (simp_all add: get_field_def)

lemma get_field_head [wire]:
  "get_field 0 n (le_bytes n w @ ys) = (take_bit (8 * n) w :: 'a::len word)"
  by (simp add: get_field_def le_word_le_bytes)

lemma get_field_all [wire]:
  "get_field 0 n (le_bytes n w) = (take_bit (8 * n) w :: 'a::len word)"
  by (simp add: get_field_def le_word_le_bytes)

lemma get_field_Cons [wire]:
  "0 < off \<Longrightarrow> get_field off n (b # ys) = get_field (off - 1) n ys"
  "get_field 0 (Suc 0) (b # ys) = (b :: u8)"
  by (simp_all add: get_field_def drop_Cons')

lemma take_bit_full [wire]: "LENGTH('a) \<le> n \<Longrightarrow> take_bit n w = (w :: 'a::len word)"
  by (simp add: take_bit_word_eq_self)

lemma get_field_drop [wire]: "get_field i n (drop k bs) = get_field (k + i) n bs"
  by (simp add: get_field_def add.commute)

end
