(* ===== verification/Fwd_Config.thy ===== *)
theory Fwd_Config
  imports GLB_Prelude "HOL-Library.Monad_Syntax"
begin

text \<open>
  The compiled forwarding table of \<open>src/glb-director/glb_fwd_config.h\<close> and its loader and validator
  in \<open>glb_fwd_config.c\<close>. The raw configuration is the byte string of the file; the struct members
  are read at their offsets in it, so an index out of the range of an array reads the bytes that
  follow the array, as the C code does. Contexts live in a heap, for their reference counts.
\<close>

subsection \<open>Format\<close>

abbreviation GLB_FMT_MAGIC_WORD :: u32 where "GLB_FMT_MAGIC_WORD \<equiv> 0x44424c47"
abbreviation GLB_FMT_VERSION :: u32 where "GLB_FMT_VERSION \<equiv> 2"
abbreviation GLB_FMT_TABLE_ENTRIES :: nat where "GLB_FMT_TABLE_ENTRIES \<equiv> 0x10000"
abbreviation GLB_FMT_TABLE_HASHMASK :: u64 where "GLB_FMT_TABLE_HASHMASK \<equiv> 0xffff"
abbreviation GLB_FMT_MAX_NUM_BACKENDS :: nat where "GLB_FMT_MAX_NUM_BACKENDS \<equiv> 0x100"
abbreviation GLB_FMT_MAX_NUM_BINDS :: nat where "GLB_FMT_MAX_NUM_BINDS \<equiv> 0x100"
abbreviation GLB_FMT_SECURE_KEY_BYTES :: nat where "GLB_FMT_SECURE_KEY_BYTES \<equiv> 16"
abbreviation FAMILY_IPV4 :: u32 where "FAMILY_IPV4 \<equiv> 1"
abbreviation FAMILY_IPV6 :: u32 where "FAMILY_IPV6 \<equiv> 2"
abbreviation SUPPORTED_PROTOS_ICMP :: u8 where "SUPPORTED_PROTOS_ICMP \<equiv> 1"
abbreviation SUPPORTED_PROTOS_TCP :: u8 where "SUPPORTED_PROTOS_TCP \<equiv> 6"
abbreviation SUPPORTED_PROTOS_UDP :: u8 where "SUPPORTED_PROTOS_UDP \<equiv> 17"

record glb_fwd_config_content_table_backend =
  be_family :: u32
  be_addr :: ipv6_addr
  be_state :: u16
  be_healthy :: u16

record glb_fwd_config_content_table_bind =
  bd_family :: u32
  bd_addr :: ipv6_addr
  bd_ip_bits :: u16
  bd_port_start :: u16
  bd_port_end :: u16
  bd_proto :: u8
  bd_reserved :: u8

record glb_fwd_config_content_table_entry =
  te_primary :: u32
  te_secondary :: u32

definition sizeof_backend :: nat where "sizeof_backend = 24"
definition sizeof_bind :: nat where "sizeof_bind = 28"
definition sizeof_entry :: nat where "sizeof_entry = 8"
definition sizeof_content :: nat where "sizeof_content = 24"

text \<open>Offsets of the members of \<open>struct glb_fwd_config_content_table\<close>, and its size.\<close>

definition off_backends :: nat where "off_backends = 4"
definition off_num_binds :: nat where
  "off_num_binds = off_backends + sizeof_backend * GLB_FMT_MAX_NUM_BACKENDS"
definition off_binds :: nat where "off_binds = off_num_binds + 4"
definition off_secure_key :: nat where
  "off_secure_key = off_binds + sizeof_bind * GLB_FMT_MAX_NUM_BINDS"
definition off_entries :: nat where "off_entries = off_secure_key + GLB_FMT_SECURE_KEY_BYTES"
definition sizeof_table :: nat where
  "sizeof_table = off_entries + sizeof_entry * GLB_FMT_TABLE_ENTRIES"

definition glb_fwd_config_content_table_backend_of :: "bytes \<Rightarrow> glb_fwd_config_content_table_backend" where
  "glb_fwd_config_content_table_backend_of bs =
     \<lparr>be_family = get_field 0 4 bs, be_addr = get_field 4 16 bs,
      be_state = get_field 20 2 bs, be_healthy = get_field 22 2 bs\<rparr>"

definition glb_fwd_config_content_table_bind_of :: "bytes \<Rightarrow> glb_fwd_config_content_table_bind" where
  "glb_fwd_config_content_table_bind_of bs =
     \<lparr>bd_family = get_field 0 4 bs, bd_addr = get_field 4 16 bs, bd_ip_bits = get_field 20 2 bs,
      bd_port_start = get_field 22 2 bs, bd_port_end = get_field 24 2 bs,
      bd_proto = get_field 26 1 bs, bd_reserved = get_field 27 1 bs\<rparr>"

definition glb_fwd_config_content_table_entry_of :: "bytes \<Rightarrow> glb_fwd_config_content_table_entry" where
  "glb_fwd_config_content_table_entry_of bs =
     \<lparr>te_primary = get_field 0 4 bs, te_secondary = get_field 4 4 bs\<rparr>"

text \<open>Members of a table, given the memory from the table's address on.\<close>

definition table_num_backends :: "bytes \<Rightarrow> u32" where
  "table_num_backends t = get_field 0 4 t"

definition table_backend :: "bytes \<Rightarrow> nat \<Rightarrow> glb_fwd_config_content_table_backend" where
  "table_backend t i =
     glb_fwd_config_content_table_backend_of (drop (off_backends + sizeof_backend * i) t)"

definition table_num_binds :: "bytes \<Rightarrow> u32" where
  "table_num_binds t = get_field off_num_binds 4 t"

definition table_bind :: "bytes \<Rightarrow> nat \<Rightarrow> glb_fwd_config_content_table_bind" where
  "table_bind t i = glb_fwd_config_content_table_bind_of (drop (off_binds + sizeof_bind * i) t)"

definition table_secure_key :: "bytes \<Rightarrow> bytes" where
  "table_secure_key t = take GLB_FMT_SECURE_KEY_BYTES (drop off_secure_key t)"

definition table_entry_at :: "bytes \<Rightarrow> nat \<Rightarrow> glb_fwd_config_content_table_entry" where
  "table_entry_at t i = glb_fwd_config_content_table_entry_of (drop (off_entries + sizeof_entry * i) t)"

text \<open>Members of \<open>struct glb_fwd_config_content\<close>.\<close>

definition content_magic_word :: "bytes \<Rightarrow> u32" where "content_magic_word c = get_field 0 4 c"
definition content_version :: "bytes \<Rightarrow> u32" where "content_version c = get_field 4 4 c"
definition content_num_tables :: "bytes \<Rightarrow> u32" where "content_num_tables c = get_field 8 4 c"
definition content_table_entries :: "bytes \<Rightarrow> u32" where "content_table_entries c = get_field 12 4 c"
definition content_max_num_backends :: "bytes \<Rightarrow> u32" where
  "content_max_num_backends c = get_field 16 4 c"
definition content_max_num_binds :: "bytes \<Rightarrow> u32" where "content_max_num_binds c = get_field 20 4 c"

definition content_table :: "bytes \<Rightarrow> nat \<Rightarrow> bytes" where
  "content_table c i = drop (sizeof_content + sizeof_table * i) c"

subsection \<open>Validation\<close>

record glb_fwd_config_ctx =
  raw_config :: bytes
  raw_config_size :: u64
  ref_count :: u32

datatype config_error =
    InvalidMagic | InvalidVersion | InvalidTableEntries | InvalidMaxBackends | WrongSize | NoTables
  | NoBackends nat | NoBinds nat | TooManyBinds u32 | TooManyBackends u32
  | BindFamily u32 | UnsupportedProto u8 | BackendFamily u32

text \<open>The first error a loop body returns, in the order of the loop.\<close>

fun first_error :: "('a \<Rightarrow> 'e option) \<Rightarrow> 'a list \<Rightarrow> 'e option" where
  "first_error f [] = None"
| "first_error f (x # xs) = (case f x of None \<Rightarrow> first_error f xs | Some e \<Rightarrow> Some e)"

definition supported_proto :: "u8 \<Rightarrow> nat" where
  "supported_proto proto_num =
     (if proto_num = SUPPORTED_PROTOS_ICMP then 0
      else if proto_num = SUPPORTED_PROTOS_TCP then 0
      else if proto_num = SUPPORTED_PROTOS_UDP then 0
      else 1)"

definition check_backend :: "bytes \<Rightarrow> nat \<Rightarrow> config_error option" where
  "check_backend table y =
     (let backend = table_backend table y in
      if be_family backend \<noteq> FAMILY_IPV4 \<and> be_family backend \<noteq> FAMILY_IPV6
      then Some (BackendFamily (be_family backend)) else None)"

definition check_bind :: "bytes \<Rightarrow> nat \<Rightarrow> config_error option" where
  "check_bind table x =
     (let bind = table_bind table x in
      if bd_family bind \<noteq> FAMILY_IPV4 \<and> bd_family bind \<noteq> FAMILY_IPV6
      then Some (BindFamily (bd_family bind))
      else if supported_proto (bd_proto bind) \<noteq> 0 then Some (UnsupportedProto (bd_proto bind))
      else first_error (check_backend table) [0..<unat (table_num_backends table)])"

definition check_table :: "bytes \<Rightarrow> nat \<Rightarrow> config_error option" where
  "check_table raw i =
     (let table = content_table raw i in
      if table_num_backends table = 0 then Some (NoBackends i)
      else if table_num_binds table = 0 then Some (NoBinds i)
      else if table_num_binds table > of_nat GLB_FMT_MAX_NUM_BINDS
      then Some (TooManyBinds (table_num_binds table))
      else if table_num_backends table > of_nat GLB_FMT_MAX_NUM_BACKENDS
      then Some (TooManyBackends (table_num_backends table))
      else first_error (check_bind table) [0..<unat (table_num_binds table)])"

definition check_config :: "glb_fwd_config_ctx \<Rightarrow> config_error option" where
  "check_config ctx =
     (let raw = raw_config ctx in
      if content_magic_word raw \<noteq> GLB_FMT_MAGIC_WORD then Some InvalidMagic
      else if content_version raw \<noteq> GLB_FMT_VERSION then Some InvalidVersion
      else if content_table_entries raw \<noteq> of_nat GLB_FMT_TABLE_ENTRIES then Some InvalidTableEntries
      else if content_max_num_backends raw \<noteq> of_nat GLB_FMT_MAX_NUM_BACKENDS then Some InvalidMaxBackends
      else if of_nat sizeof_content + of_nat sizeof_table * ucast (content_num_tables raw)
                \<noteq> raw_config_size ctx then Some WrongSize
      else if content_num_tables raw = 0 then Some NoTables
      else first_error (check_table raw) [0..<unat (content_num_tables raw)])"

subsection \<open>Reference counts\<close>

text \<open>
  Contexts are heap objects. The outer \<open>None\<close> is an access to an object that is not allocated (it
  was freed before). The counter is a 32-bit integer that wraps; \<open>decref\<close> frees at zero.
\<close>

type_synonym ctx_heap = "nat \<rightharpoonup> glb_fwd_config_ctx"

definition glb_fwd_config_ctx_incref :: "ctx_heap \<Rightarrow> nat option \<Rightarrow> (ctx_heap \<times> nat option) option" where
  "glb_fwd_config_ctx_incref h ctx =
     (case ctx of
        None \<Rightarrow> Some (h, None)
      | Some p \<Rightarrow> do {
          c \<leftarrow> h p;
          Some (h(p \<mapsto> c\<lparr>ref_count := ref_count c + 1\<rparr>), Some p)
        })"

definition glb_fwd_config_ctx_decref :: "ctx_heap \<Rightarrow> nat option \<Rightarrow> ctx_heap option" where
  "glb_fwd_config_ctx_decref h ctx =
     (case ctx of
        None \<Rightarrow> Some h
      | Some p \<Rightarrow> do {
          c \<leftarrow> h p;
          let c = c\<lparr>ref_count := ref_count c - 1\<rparr>;
          Some (if ref_count c = 0 then h(p := None) else h(p \<mapsto> c))
        })"

text \<open>
  Loading. The outcomes of the system calls and allocations are inputs: \<open>file\<close> is the content that
  \<open>open\<close>, \<open>fstat\<close> and \<open>mmap\<close> give access to (\<open>None\<close> if one of them fails), \<open>ctx_at\<close> and \<open>copy_ok\<close>
  the results of the two \<open>malloc\<close>s, \<open>create_bind_classifier\<close> the classifier builder's return value.
  \<open>None\<close> is \<open>exit(1)\<close>.
\<close>

definition create_glb_fwd_config ::
    "(bytes \<Rightarrow> int) \<Rightarrow> bytes option \<Rightarrow> nat option \<Rightarrow> bool \<Rightarrow> ctx_heap \<Rightarrow> (ctx_heap \<times> nat option) option" where
  "create_glb_fwd_config create_bind_classifier file ctx_at copy_ok h = do {
     source_data \<leftarrow> file;
     p \<leftarrow> ctx_at;
     if \<not> copy_ok then None else do {
       let ctx = \<lparr>raw_config = source_data, raw_config_size = of_nat (length source_data), ref_count = 0\<rparr>;
       (case check_config ctx of
          Some e \<Rightarrow> None
        | None \<Rightarrow>
            if create_bind_classifier source_data \<noteq> 0 then None
            else glb_fwd_config_ctx_incref (h(p \<mapsto> ctx)) (Some p))
     }
   }"

subsection \<open>Dump\<close>

datatype dump_line =
    DumpVersion u32
  | DumpBind u32 ipv6_addr u16 u16 u8
  | DumpBackend u32 ipv6_addr u16 u16

definition dump_backend :: "bytes \<Rightarrow> nat \<Rightarrow> dump_line list" where
  "dump_backend table y =
     (let backend = table_backend table y in
      if be_family backend = FAMILY_IPV4 \<or> be_family backend = FAMILY_IPV6
      then [DumpBackend (be_family backend) (be_addr backend) (be_state backend) (be_healthy backend)]
      else [])"

definition dump_bind :: "bytes \<Rightarrow> nat \<Rightarrow> dump_line list" where
  "dump_bind table x =
     (let bind = table_bind table x in
      (if bd_family bind = FAMILY_IPV4 \<or> bd_family bind = FAMILY_IPV6
       then [DumpBind (bd_family bind) (bd_addr bind) (bd_port_start bind) (bd_port_end bind) (bd_proto bind)]
       else []) @
      concat (map (dump_backend table) [0..<unat (table_num_backends table)]))"

definition glb_fwd_config_dump :: "glb_fwd_config_ctx \<Rightarrow> dump_line list" where
  "glb_fwd_config_dump ctx =
     (let raw = raw_config ctx in
      DumpVersion (content_version raw) #
      concat (map (\<lambda>i. let table = content_table raw i
                        in concat (map (dump_bind table) [0..<unat (table_num_binds table)]))
               [0..<unat (content_num_tables raw)]))"

subsection \<open>What the validator establishes\<close>

lemma first_error_None: "first_error f xs = None \<longleftrightarrow> (\<forall>x \<in> set xs. f x = None)"
  by (induction xs) (auto split: option.splits)

lemma supported_proto_iff: "supported_proto p = 0 \<longleftrightarrow> p \<in> {1, 6, 17}"
  by (simp add: supported_proto_def)

lemmas table_layout = sizeof_backend_def sizeof_bind_def sizeof_entry_def sizeof_content_def
  off_backends_def off_num_binds_def off_binds_def off_secure_key_def off_entries_def sizeof_table_def

lemma sizeof_table_eq: "sizeof_table = 537624" "off_entries = 13336"
  by (simp_all add: table_layout)

definition valid_family :: "u32 \<Rightarrow> bool" where
  "valid_family f \<longleftrightarrow> f = FAMILY_IPV4 \<or> f = FAMILY_IPV6"

definition valid_table :: "bytes \<Rightarrow> bool" where
  "valid_table t \<longleftrightarrow>
     0 < unat (table_num_backends t) \<and> unat (table_num_backends t) \<le> GLB_FMT_MAX_NUM_BACKENDS \<and>
     0 < unat (table_num_binds t) \<and> unat (table_num_binds t) \<le> GLB_FMT_MAX_NUM_BINDS \<and>
     (\<forall>x < unat (table_num_binds t). valid_family (bd_family (table_bind t x)) \<and>
        bd_proto (table_bind t x) \<in> {SUPPORTED_PROTOS_ICMP, SUPPORTED_PROTOS_TCP, SUPPORTED_PROTOS_UDP}) \<and>
     (\<forall>y < unat (table_num_backends t). valid_family (be_family (table_backend t y)))"

definition valid_fwd_config :: "bytes \<Rightarrow> bool" where
  "valid_fwd_config raw \<longleftrightarrow>
     content_magic_word raw = GLB_FMT_MAGIC_WORD \<and> content_version raw = GLB_FMT_VERSION \<and>
     unat (content_table_entries raw) = GLB_FMT_TABLE_ENTRIES \<and>
     unat (content_max_num_backends raw) = GLB_FMT_MAX_NUM_BACKENDS \<and>
     length raw = sizeof_content + sizeof_table * unat (content_num_tables raw) \<and>
     0 < unat (content_num_tables raw) \<and>
     (\<forall>i < unat (content_num_tables raw). valid_table (content_table raw i))"

lemma unat_u32_eq_numeral: "w = (numeral n :: u32) \<longleftrightarrow> unat w = unat (numeral n :: u32)"
  by (simp add: word_unat_eq_iff)

lemma check_backend_None: "check_backend t y = None \<longleftrightarrow> valid_family (be_family (table_backend t y))"
  by (auto simp: check_backend_def valid_family_def Let_def)

lemma check_bind_None:
  "check_bind t x = None \<longleftrightarrow>
     valid_family (bd_family (table_bind t x)) \<and>
     bd_proto (table_bind t x) \<in> {SUPPORTED_PROTOS_ICMP, SUPPORTED_PROTOS_TCP, SUPPORTED_PROTOS_UDP} \<and>
     (\<forall>y < unat (table_num_backends t). valid_family (be_family (table_backend t y)))"
proof -
  have "first_error (check_backend t) [0..<unat (table_num_backends t)] = None \<longleftrightarrow>
      (\<forall>y < unat (table_num_backends t). valid_family (be_family (table_backend t y)))"
    by (auto simp: first_error_None check_backend_None)
  then show ?thesis
    by (simp add: check_bind_def valid_family_def supported_proto_iff Let_def)
qed

lemma check_table_None:
  "check_table raw i = None \<longleftrightarrow> valid_table (content_table raw i)"
proof -
  let ?t = "content_table raw i"
  have 1: "(table_num_backends ?t = 0) \<longleftrightarrow> unat (table_num_backends ?t) = 0"
    "(table_num_binds ?t = 0) \<longleftrightarrow> unat (table_num_binds ?t) = 0"
    by (simp_all add: unat_eq_0)
  have 2: "(w > (256 :: u32)) \<longleftrightarrow> unat w > 256" for w
    by (simp add: word_less_nat_alt)
  have 3: "first_error (check_bind ?t) [0..<n] = None \<longleftrightarrow> (\<forall>x<n. check_bind ?t x = None)" for n
    by (auto simp: first_error_None)
  show ?thesis
    unfolding check_table_def valid_table_def Let_def of_nat_numeral 1 2
    using 3 by (auto simp: check_bind_None simp del: insert_iff)
qed

lemma expected_size_iff:
  assumes "length raw < 2 ^ 64"
  shows "of_nat sizeof_content + of_nat sizeof_table * ucast (n :: u32) = (of_nat (length raw) :: u64)
    \<longleftrightarrow> length raw = sizeof_content + sizeof_table * unat n"
proof -
  have n: "unat n < 2 ^ 32" using unsigned_less [of n] by simp
  have eq: "of_nat sizeof_content + of_nat sizeof_table * ucast n =
      (of_nat (sizeof_content + sizeof_table * unat n) :: u64)"
    by simp
  have "sizeof_content + sizeof_table * unat n < 2 ^ 64"
    using n by (simp add: sizeof_table_eq sizeof_content_def)
  then have "(of_nat (sizeof_content + sizeof_table * unat n) = (of_nat (length raw) :: u64)) \<longleftrightarrow>
      sizeof_content + sizeof_table * unat n = length raw"
    using assms by (intro of_nat_word_inject) simp_all
  then show ?thesis
    unfolding eq by auto
qed

lemma check_config_None:
  assumes "raw_config_size ctx = of_nat (length (raw_config ctx))"
    and "length (raw_config ctx) < 2 ^ 64"
  shows "check_config ctx = None \<longleftrightarrow> valid_fwd_config (raw_config ctx)"
proof -
  have 0: "(w = (0 :: u32)) \<longleftrightarrow> \<not> 0 < unat w" for w
    by (simp add: unat_eq_0)
  show ?thesis
    unfolding check_config_def valid_fwd_config_def Let_def assms(1) expected_size_iff [OF assms(2)]
    by (auto simp: unat_u32_eq_numeral 0 first_error_None check_table_None split: if_splits)
qed

subsection \<open>Loading\<close>

lemma content_table_in_bounds:
  assumes "valid_fwd_config raw" "i < unat (content_num_tables raw)"
  shows "sizeof_table \<le> length (content_table raw i)"
proof -
  have "sizeof_table * Suc i \<le> sizeof_table * unat (content_num_tables raw)"
    using assms(2) by (intro mult_le_mono2) simp
  then show ?thesis
    using assms(1) by (simp add: content_table_def valid_fwd_config_def)
qed

lemma create_glb_fwd_config_loaded:
  assumes "create_glb_fwd_config cbc file ctx_at copy_ok h = Some (h', r)"
    and "\<And>data. file = Some data \<Longrightarrow> length data < 2 ^ 64"
  obtains p data where "file = Some data" "ctx_at = Some p" "r = Some p" "valid_fwd_config data"
    "cbc data = 0"
    "h' = h(p \<mapsto> \<lparr>raw_config = data, raw_config_size = of_nat (length data), ref_count = 1\<rparr>)"
proof -
  from assms(1) obtain p data where f: "file = Some data" "ctx_at = Some p"
    by (auto simp: create_glb_fwd_config_def split: bind_splits)
  have l: "length data < 2 ^ 64" using assms(2) f by blast
  have "check_config \<lparr>raw_config = data, raw_config_size = of_nat (length data), ref_count = 0\<rparr> = None"
    using assms(1) f by (auto simp: create_glb_fwd_config_def Let_def split: if_splits option.splits)
  then have "valid_fwd_config data"
    using check_config_None [of "\<lparr>raw_config = data, raw_config_size = of_nat (length data), ref_count = 0\<rparr>"] l
    by simp
  with f show ?thesis
    using assms(1) that
    by (auto simp: create_glb_fwd_config_def glb_fwd_config_ctx_incref_def Let_def split: if_splits option.splits)
qed

subsection \<open>A small table, for examples\<close>

definition sample_table_to :: "u16 \<Rightarrow> bytes \<Rightarrow> bytes \<Rightarrow> bytes" where
  "sample_table_to p key es =
     [2, 0, 0, 0] @
     [1, 0, 0, 0, 10, 0, 0, 1, 0, 0, 0, 0, 0, 0, 0, 0, 0, 0, 0, 0, 1, 0, 1, 0] @
     [1, 0, 0, 0, 10, 0, 0, 2, 0, 0, 0, 0, 0, 0, 0, 0, 0, 0, 0, 0, 1, 0, 1, 0] @
     replicate (254 * 24) 0 @
     [1, 0, 0, 0] @
     [1, 0, 0, 0, 1, 1, 1, 1, 0, 0, 0, 0, 0, 0, 0, 0, 0, 0, 0, 0, 32, 0, 80, 0] @ le_bytes 2 p @ [6, 0] @
     replicate (255 * 28) 0 @ key @ es"

definition sample_config_to :: "u16 \<Rightarrow> bytes \<Rightarrow> bytes \<Rightarrow> bytes" where
  "sample_config_to p key es =
     le_bytes 4 GLB_FMT_MAGIC_WORD @ le_bytes 4 GLB_FMT_VERSION @ le_bytes 4 (1 :: u32) @
     le_bytes 4 (0x10000 :: u32) @ le_bytes 4 (0x100 :: u32) @ le_bytes 4 (0x100 :: u32) @
     sample_table_to p key es"

abbreviation sample_table :: "bytes \<Rightarrow> bytes \<Rightarrow> bytes" where
  "sample_table \<equiv> sample_table_to 80"

abbreviation sample_config :: "bytes \<Rightarrow> bytes \<Rightarrow> bytes" where
  "sample_config \<equiv> sample_config_to 80"

lemma length_sample_table:
  "length key = 16 \<Longrightarrow> length es = 8 * 0x10000 \<Longrightarrow> length (sample_table_to p key es) = sizeof_table"
  by (simp add: sample_table_to_def table_layout)

lemma sample_table_members:
  "table_num_backends (sample_table_to p key es) = 2"
  "table_num_binds (sample_table_to p key es) = 1"
  "table_backend (sample_table_to p key es) 0 =
     \<lparr>be_family = FAMILY_IPV4, be_addr = 0x0100000a, be_state = 1, be_healthy = 1\<rparr>"
  "table_backend (sample_table_to p key es) 1 =
     \<lparr>be_family = FAMILY_IPV4, be_addr = 0x0200000a, be_state = 1, be_healthy = 1\<rparr>"
  "table_bind (sample_table_to p key es) 0 =
     \<lparr>bd_family = FAMILY_IPV4, bd_addr = 0x01010101, bd_ip_bits = 32, bd_port_start = 80,
      bd_port_end = p, bd_proto = 6, bd_reserved = 0\<rparr>"
  by (simp_all add: sample_table_to_def table_num_backends_def table_num_binds_def table_backend_def
      table_bind_def glb_fwd_config_content_table_backend_of_def
      glb_fwd_config_content_table_bind_of_def get_field_def table_layout
      le_word_le_bytes_full)

lemma sample_table_entry:
  "length key = 16 \<Longrightarrow> table_entry_at (sample_table_to p key es) i =
     glb_fwd_config_content_table_entry_of (drop (8 * i) es)"
proof -
  assume "length key = 16"
  then obtain pre where pre: "sample_table_to p key es = pre @ es" "length pre = off_entries"
    unfolding sample_table_to_def append_assoc [symmetric] by (simp add: table_layout)
  then show ?thesis
    by (simp add: table_entry_at_def sizeof_entry_def)
qed

lemma sample_table_key:
  "length key = 16 \<Longrightarrow> table_secure_key (sample_table_to p key es) = key"
  by (simp add: sample_table_to_def table_secure_key_def table_layout)

lemma valid_sample_table: "valid_table (sample_table_to p key es)"
  by (auto simp: valid_table_def sample_table_members sample_table_members(4) [unfolded One_nat_def]
      valid_family_def less_2_cases_iff)

lemma content_sample_config [simp]:
  "content_table (sample_config_to p key es) 0 = sample_table_to p key es"
  "content_num_tables (sample_config_to p key es) = 1"
  by (simp_all add: sample_config_to_def content_table_def content_num_tables_def sizeof_content_def wire)

lemma valid_sample_config:
  assumes "length key = 16" "length es = 8 * 0x10000"
  shows "valid_fwd_config (sample_config_to p key es)"
proof -
  have "length (sample_config_to p key es) = sizeof_content + sizeof_table"
    using length_sample_table [OF assms] by (simp add: sample_config_to_def sizeof_content_def)
  then show ?thesis
    by (simp add: valid_fwd_config_def valid_sample_table content_magic_word_def content_version_def
        content_table_entries_def content_max_num_backends_def)
       (simp add: sample_config_to_def wire)
qed

subsection \<open>Properties\<close>

text \<open>
  C23: on a context whose size member is the size of its buffer, \<open>check_config\<close> succeeds exactly on
  the well-formed configurations: magic, version and limits as expected, a file of exactly the size
  its table count asks for, at least one table, and in every table between one and the maximal number
  of backends and binds, each of a known family and each bind of a supported protocol.
\<close>

theorem check_config_iff_valid:
  assumes "raw_config_size ctx = of_nat (length (raw_config ctx))"
    and "length (raw_config ctx) < 2 ^ 64"
  shows "check_config ctx = None \<longleftrightarrow> valid_fwd_config (raw_config ctx)"
  using assms by (rule check_config_None)

theorem check_config_iff_valid_witness:
  "check_config \<lparr>raw_config = sample_config (replicate 16 0) (replicate 524288 0),
     raw_config_size = of_nat (length (sample_config (replicate 16 0) (replicate 524288 0))),
     ref_count = 0\<rparr> = None"
proof -
  let ?raw = "sample_config (replicate 16 0) (replicate 524288 0)"
  have v: "valid_fwd_config ?raw" by (rule valid_sample_config) simp_all
  then have "length ?raw = sizeof_content + sizeof_table"
    by (simp add: valid_fwd_config_def)
  then show ?thesis
    using v check_config_iff_valid [of "\<lparr>raw_config = ?raw,
      raw_config_size = of_nat (length ?raw), ref_count = 0\<rparr>"]
    by (simp add: sizeof_table_eq sizeof_content_def)
qed

text \<open>
  C24: a configuration that the loader returns holds one reference, and every table it announces
  lies completely inside the copied file, whatever the table number.
\<close>

theorem loaded_config_tables_in_bounds:
  assumes "create_glb_fwd_config create_bind_classifier file ctx_at copy_ok h = Some (h', r)"
    and "\<And>data. file = Some data \<Longrightarrow> length data < 2 ^ 64"
  shows "\<exists>p c. r = Some p \<and> h' p = Some c \<and> ref_count c = 1 \<and> file = Some (raw_config c) \<and>
    (\<forall>i. i < unat (content_num_tables (raw_config c)) \<longrightarrow>
       sizeof_content + sizeof_table * i + sizeof_table \<le> length (raw_config c))"
proof -
  obtain p data where d: "file = Some data" "r = Some p" "valid_fwd_config data"
    "h' = h(p \<mapsto> \<lparr>raw_config = data, raw_config_size = of_nat (length data), ref_count = 1\<rparr>)"
    using assms by (rule create_glb_fwd_config_loaded)
  have "sizeof_content + sizeof_table * i + sizeof_table \<le> length data"
    if "i < unat (content_num_tables data)" for i
    using content_table_in_bounds [OF d(3) that] sizeof_table_eq by (simp add: content_table_def)
  with d show ?thesis by simp
qed

theorem loaded_config_tables_in_bounds_witness:
  "\<exists>p c. create_glb_fwd_config (\<lambda>_. 0) (Some (sample_config (replicate 16 0) (replicate 524288 0)))
       (Some 7) True Map.empty = Some ([p \<mapsto> c], Some p) \<and>
     sizeof_content + sizeof_table \<le> length (raw_config c)"
proof -
  let ?raw = "sample_config (replicate 16 0) (replicate 524288 0)"
  let ?ctx = "\<lparr>raw_config = ?raw, raw_config_size = of_nat (length ?raw), ref_count = 0\<rparr>"
  have v: "valid_fwd_config ?raw" by (rule valid_sample_config) simp_all
  then have l: "length ?raw = sizeof_content + sizeof_table"
    by (simp add: valid_fwd_config_def)
  then have "check_config ?ctx = None"
    using v by (subst check_config_None) (simp_all add: sizeof_table_eq sizeof_content_def)
  then have eq: "create_glb_fwd_config (\<lambda>_. 0) (Some ?raw) (Some 7) True Map.empty =
      Some ([7 \<mapsto> ?ctx\<lparr>ref_count := 1\<rparr>], Some 7)"
    by (simp add: create_glb_fwd_config_def glb_fwd_config_ctx_incref_def)
  then show ?thesis
    using loaded_config_tables_in_bounds [OF eq] l
    by (auto simp: sizeof_table_eq sizeof_content_def)
qed

text \<open>
  C31: the validator does not look at the rendezvous rows: it accepts configurations whose rows
  name backends outside the backend array.
\<close>

theorem check_config_accepts_stray_rows:
  "\<exists>ctx. check_config ctx = None \<and> raw_config_size ctx = of_nat (length (raw_config ctx)) \<and>
     GLB_FMT_MAX_NUM_BACKENDS \<le> unat (te_primary (table_entry_at (content_table (raw_config ctx) 0) 0))"
proof -
  let ?raw = "sample_config (replicate 16 0) (replicate 524288 1)"
  let ?ctx = "\<lparr>raw_config = ?raw, raw_config_size = of_nat (length ?raw), ref_count = 0\<rparr>"
  have v: "valid_fwd_config ?raw" by (rule valid_sample_config) simp_all
  then have l: "length ?raw = sizeof_content + sizeof_table"
    by (simp add: valid_fwd_config_def)
  have "check_config ?ctx = None"
    using v l by (subst check_config_None) (simp_all add: sizeof_table_eq sizeof_content_def)
  moreover have "replicate 4 (1 :: u8) = [1, 1, 1, 1]"
    by (simp add: numeral_eq_Suc)
  then have "te_primary (table_entry_at (content_table ?raw 0) 0) = 0x01010101"
    by (simp add: sample_table_entry glb_fwd_config_content_table_entry_of_def get_field_def)
  ultimately show ?thesis
    by (intro exI [of _ ?ctx]) simp
qed

end
