(* ===== verification/Pdnet.thy ===== *)
theory Pdnet
  imports GLB_Prelude
begin

text \<open>
  The protocol headers of \<open>src/glb-hashing/pdnet.h\<close> and \<open>src/glb-hashing/glb_gue.h\<close>. A packed C
  struct is a record with the struct's members; \<open>*_of\<close> reads the record a pointer to the bytes
  denotes, \<open>*_bytes\<close> is the memory a record occupies. Members hold the value the processor loads,
  so a 16-bit member of a received header is in network order until \<open>ntohs\<close> is applied, as in the
  code. Bit-fields are laid out from the least significant bit, as the compilers do on the
  little-endian branch of the header file.
\<close>

record pdnet_ethernet_hdr =
  eth_dst_addr :: mac_addr
  eth_src_addr :: mac_addr
  eth_ether_type :: u16

record pdnet_ipv4_hdr =
  ip4_ihl :: "4 word"
  ip4_version :: "4 word"
  ip4_ecn :: "2 word"
  ip4_dscp :: "6 word"
  ip4_total_length :: u16
  ip4_identification :: u16
  ip4_fragment_offset :: u16
  ip4_time_to_live :: u8
  ip4_next_proto :: u8
  ip4_checksum :: u16
  ip4_src_addr :: u32
  ip4_dst_addr :: u32

record pdnet_ipv6_hdr =
  ip6_tc_hi :: "4 word"
  ip6_version :: "4 word"
  ip6_flow_hi :: "4 word"
  ip6_tc_lo :: "4 word"
  ip6_flow_lo :: u16
  ip6_payload_len :: u16
  ip6_next_proto :: u8
  ip6_hop_limit :: u8
  ip6_src_addr :: ipv6_addr
  ip6_dst_addr :: ipv6_addr

record pdnet_l4_ports_hdr =
  l4_src_port :: u16
  l4_dst_port :: u16

record pdnet_udp_hdr =
  udp_src_port :: u16
  udp_dst_port :: u16
  udp_length :: u16
  udp_checksum :: u16

record pdnet_tcp_hdr =
  tcp_src_port :: u16
  tcp_dst_port :: u16
  tcp_seq_num :: u32
  tcp_ack_num :: u32
  tcp_ns :: bool
  tcp_reserved :: "3 word"
  tcp_data_offset :: "4 word"
  tcp_cwr :: bool
  tcp_ece :: bool
  tcp_urg :: bool
  tcp_ack :: bool
  tcp_psh :: bool
  tcp_rst :: bool
  tcp_syn :: bool
  tcp_fin :: bool
  tcp_window_size :: u16
  tcp_checksum :: u16
  tcp_urgent_pointer :: u16

record pdnet_icmpv4_hdr =
  icmp4_type :: u8
  icmp4_code :: u8
  icmp4_checksum :: u16
  icmp4_type_specific :: u32

record pdnet_icmpv6_hdr =
  icmp6_type :: u8
  icmp6_code :: u8
  icmp6_checksum :: u16

record glb_gue_hdr =
  gue_version_control_hlen :: u8
  gue_protocol :: u8
  gue_flags :: u16
  gue_private_type :: u16
  gue_next_hop :: u8
  gue_hop_count :: u8

subsection \<open>Sizes and protocol numbers\<close>

abbreviation sizeof_eth :: nat where "sizeof_eth \<equiv> 14"
abbreviation sizeof_ipv4 :: nat where "sizeof_ipv4 \<equiv> 20"
abbreviation sizeof_ipv6 :: nat where "sizeof_ipv6 \<equiv> 40"
abbreviation sizeof_l4_ports :: nat where "sizeof_l4_ports \<equiv> 4"
abbreviation sizeof_udp :: nat where "sizeof_udp \<equiv> 8"
abbreviation sizeof_tcp :: nat where "sizeof_tcp \<equiv> 20"
abbreviation sizeof_icmpv4 :: nat where "sizeof_icmpv4 \<equiv> 8"
abbreviation sizeof_icmpv6 :: nat where "sizeof_icmpv6 \<equiv> 4"
abbreviation sizeof_icmpv6_too_big :: nat where "sizeof_icmpv6_too_big \<equiv> 4"
abbreviation sizeof_gue :: nat where "sizeof_gue \<equiv> 8"

abbreviation PDNET_ETHER_TYPE_IPV4 :: u16 where "PDNET_ETHER_TYPE_IPV4 \<equiv> 0x0800"
abbreviation PDNET_ETHER_TYPE_IPV6 :: u16 where "PDNET_ETHER_TYPE_IPV6 \<equiv> 0x86DD"
abbreviation PDNET_IP_PROTO_ICMPV4 :: u8 where "PDNET_IP_PROTO_ICMPV4 \<equiv> 0x01"
abbreviation PDNET_IP_PROTO_IPIPV4 :: u8 where "PDNET_IP_PROTO_IPIPV4 \<equiv> 0x04"
abbreviation PDNET_IP_PROTO_IPIPV6 :: u8 where "PDNET_IP_PROTO_IPIPV6 \<equiv> 0x29"
abbreviation PDNET_IP_PROTO_TCP :: u8 where "PDNET_IP_PROTO_TCP \<equiv> 0x06"
abbreviation PDNET_IP_PROTO_UDP :: u8 where "PDNET_IP_PROTO_UDP \<equiv> 0x11"
abbreviation PDNET_IP_PROTO_ICMPV6 :: u8 where "PDNET_IP_PROTO_ICMPV6 \<equiv> 0x3A"
abbreviation PDNET_ICMPV4_TYPE_DESTINATION_UNREACHABLE :: u8 where
  "PDNET_ICMPV4_TYPE_DESTINATION_UNREACHABLE \<equiv> 3"
abbreviation PDNET_ICMPV6_TYPE_PACKET_TOO_BIG :: u8 where "PDNET_ICMPV6_TYPE_PACKET_TOO_BIG \<equiv> 2"
abbreviation PDNET_IPV4_DEFAULT_TTL :: u8 where "PDNET_IPV4_DEFAULT_TTL \<equiv> 64"
abbreviation PDNET_IPV4_VERSION :: "4 word" where "PDNET_IPV4_VERSION \<equiv> 4"
abbreviation PDNET_IPV4_HEADER_LEN :: "4 word" where "PDNET_IPV4_HEADER_LEN \<equiv> 5"
abbreviation PDNET_IPV4_FLAG_DF :: u16 where "PDNET_IPV4_FLAG_DF \<equiv> 0x4000"
abbreviation GLB_GUE_PORT :: u16 where "GLB_GUE_PORT \<equiv> 19523"

subsection \<open>Bit-fields\<close>

definition pack_nibbles :: "4 word \<Rightarrow> 4 word \<Rightarrow> u8" where
  "pack_nibbles lo hi = ucast lo OR push_bit 4 (ucast hi)"

definition pack_2_6 :: "2 word \<Rightarrow> 6 word \<Rightarrow> u8" where
  "pack_2_6 lo hi = ucast lo OR push_bit 2 (ucast hi)"

subsection \<open>Reading headers\<close>

definition pdnet_ethernet_hdr_of :: "bytes \<Rightarrow> pdnet_ethernet_hdr" where
  "pdnet_ethernet_hdr_of bs =
     \<lparr>eth_dst_addr = get_field 0 6 bs, eth_src_addr = get_field 6 6 bs,
      eth_ether_type = get_field 12 2 bs\<rparr>"

definition pdnet_ipv4_hdr_of :: "bytes \<Rightarrow> pdnet_ipv4_hdr" where
  "pdnet_ipv4_hdr_of bs =
     \<lparr>ip4_ihl = ucast (get_field 0 1 bs :: u8),
      ip4_version = ucast (drop_bit 4 (get_field 0 1 bs :: u8)),
      ip4_ecn = ucast (get_field 1 1 bs :: u8),
      ip4_dscp = ucast (drop_bit 2 (get_field 1 1 bs :: u8)),
      ip4_total_length = get_field 2 2 bs, ip4_identification = get_field 4 2 bs,
      ip4_fragment_offset = get_field 6 2 bs, ip4_time_to_live = get_field 8 1 bs,
      ip4_next_proto = get_field 9 1 bs, ip4_checksum = get_field 10 2 bs,
      ip4_src_addr = get_field 12 4 bs, ip4_dst_addr = get_field 16 4 bs\<rparr>"

definition pdnet_ipv6_hdr_of :: "bytes \<Rightarrow> pdnet_ipv6_hdr" where
  "pdnet_ipv6_hdr_of bs =
     \<lparr>ip6_tc_hi = ucast (get_field 0 1 bs :: u8),
      ip6_version = ucast (drop_bit 4 (get_field 0 1 bs :: u8)),
      ip6_flow_hi = ucast (get_field 1 1 bs :: u8),
      ip6_tc_lo = ucast (drop_bit 4 (get_field 1 1 bs :: u8)),
      ip6_flow_lo = get_field 2 2 bs, ip6_payload_len = get_field 4 2 bs,
      ip6_next_proto = get_field 6 1 bs, ip6_hop_limit = get_field 7 1 bs,
      ip6_src_addr = get_field 8 16 bs, ip6_dst_addr = get_field 24 16 bs\<rparr>"

definition pdnet_ipv6_hdr_get_flow :: "pdnet_ipv6_hdr \<Rightarrow> u32" where
  "pdnet_ipv6_hdr_get_flow hdr = push_bit 16 (ucast (ip6_flow_hi hdr)) OR ucast (ip6_flow_lo hdr)"

definition pdnet_l4_ports_hdr_of :: "bytes \<Rightarrow> pdnet_l4_ports_hdr" where
  "pdnet_l4_ports_hdr_of bs = \<lparr>l4_src_port = get_field 0 2 bs, l4_dst_port = get_field 2 2 bs\<rparr>"

definition pdnet_udp_hdr_of :: "bytes \<Rightarrow> pdnet_udp_hdr" where
  "pdnet_udp_hdr_of bs =
     \<lparr>udp_src_port = get_field 0 2 bs, udp_dst_port = get_field 2 2 bs,
      udp_length = get_field 4 2 bs, udp_checksum = get_field 6 2 bs\<rparr>"

definition pdnet_tcp_hdr_of :: "bytes \<Rightarrow> pdnet_tcp_hdr" where
  "pdnet_tcp_hdr_of bs =
     (let fl = (get_field 13 1 bs :: u8) in
     \<lparr>tcp_src_port = get_field 0 2 bs, tcp_dst_port = get_field 2 2 bs,
      tcp_seq_num = get_field 4 4 bs, tcp_ack_num = get_field 8 4 bs,
      tcp_ns = bit (get_field 12 1 bs :: u8) 0,
      tcp_reserved = ucast (drop_bit 1 (get_field 12 1 bs :: u8)),
      tcp_data_offset = ucast (drop_bit 4 (get_field 12 1 bs :: u8)),
      tcp_cwr = bit fl 0, tcp_ece = bit fl 1, tcp_urg = bit fl 2, tcp_ack = bit fl 3,
      tcp_psh = bit fl 4, tcp_rst = bit fl 5, tcp_syn = bit fl 6, tcp_fin = bit fl 7,
      tcp_window_size = get_field 14 2 bs, tcp_checksum = get_field 16 2 bs,
      tcp_urgent_pointer = get_field 18 2 bs\<rparr>)"

definition pdnet_icmpv4_hdr_of :: "bytes \<Rightarrow> pdnet_icmpv4_hdr" where
  "pdnet_icmpv4_hdr_of bs =
     \<lparr>icmp4_type = get_field 0 1 bs, icmp4_code = get_field 1 1 bs,
      icmp4_checksum = get_field 2 2 bs, icmp4_type_specific = get_field 4 4 bs\<rparr>"

definition pdnet_icmpv6_hdr_of :: "bytes \<Rightarrow> pdnet_icmpv6_hdr" where
  "pdnet_icmpv6_hdr_of bs =
     \<lparr>icmp6_type = get_field 0 1 bs, icmp6_code = get_field 1 1 bs,
      icmp6_checksum = get_field 2 2 bs\<rparr>"

definition glb_gue_hdr_of :: "bytes \<Rightarrow> glb_gue_hdr" where
  "glb_gue_hdr_of bs =
     \<lparr>gue_version_control_hlen = get_field 0 1 bs, gue_protocol = get_field 1 1 bs,
      gue_flags = get_field 2 2 bs, gue_private_type = get_field 4 2 bs,
      gue_next_hop = get_field 6 1 bs, gue_hop_count = get_field 7 1 bs\<rparr>"

subsection \<open>Writing headers\<close>

definition pdnet_ethernet_hdr_bytes :: "pdnet_ethernet_hdr \<Rightarrow> bytes" where
  "pdnet_ethernet_hdr_bytes h =
     le_bytes 6 (eth_dst_addr h) @ le_bytes 6 (eth_src_addr h) @ le_bytes 2 (eth_ether_type h)"

definition pdnet_ipv4_hdr_bytes :: "pdnet_ipv4_hdr \<Rightarrow> bytes" where
  "pdnet_ipv4_hdr_bytes h =
     [pack_nibbles (ip4_ihl h) (ip4_version h), pack_2_6 (ip4_ecn h) (ip4_dscp h)] @
     le_bytes 2 (ip4_total_length h) @ le_bytes 2 (ip4_identification h) @
     le_bytes 2 (ip4_fragment_offset h) @ [ip4_time_to_live h, ip4_next_proto h] @
     le_bytes 2 (ip4_checksum h) @ le_bytes 4 (ip4_src_addr h) @ le_bytes 4 (ip4_dst_addr h)"

definition pdnet_ipv6_hdr_bytes :: "pdnet_ipv6_hdr \<Rightarrow> bytes" where
  "pdnet_ipv6_hdr_bytes h =
     [pack_nibbles (ip6_tc_hi h) (ip6_version h), pack_nibbles (ip6_flow_hi h) (ip6_tc_lo h)] @
     le_bytes 2 (ip6_flow_lo h) @ le_bytes 2 (ip6_payload_len h) @
     [ip6_next_proto h, ip6_hop_limit h] @
     le_bytes 16 (ip6_src_addr h) @ le_bytes 16 (ip6_dst_addr h)"

definition pdnet_l4_ports_hdr_bytes :: "pdnet_l4_ports_hdr \<Rightarrow> bytes" where
  "pdnet_l4_ports_hdr_bytes h = le_bytes 2 (l4_src_port h) @ le_bytes 2 (l4_dst_port h)"

definition pdnet_udp_hdr_bytes :: "pdnet_udp_hdr \<Rightarrow> bytes" where
  "pdnet_udp_hdr_bytes h =
     le_bytes 2 (udp_src_port h) @ le_bytes 2 (udp_dst_port h) @
     le_bytes 2 (udp_length h) @ le_bytes 2 (udp_checksum h)"

definition pdnet_icmpv4_hdr_bytes :: "pdnet_icmpv4_hdr \<Rightarrow> bytes" where
  "pdnet_icmpv4_hdr_bytes h =
     [icmp4_type h, icmp4_code h] @ le_bytes 2 (icmp4_checksum h) @
     le_bytes 4 (icmp4_type_specific h)"

definition pdnet_icmpv6_hdr_bytes :: "pdnet_icmpv6_hdr \<Rightarrow> bytes" where
  "pdnet_icmpv6_hdr_bytes h = [icmp6_type h, icmp6_code h] @ le_bytes 2 (icmp6_checksum h)"

definition glb_gue_hdr_bytes :: "glb_gue_hdr \<Rightarrow> bytes" where
  "glb_gue_hdr_bytes h =
     [gue_version_control_hlen h, gue_protocol h] @ le_bytes 2 (gue_flags h) @
     le_bytes 2 (gue_private_type h) @ [gue_next_hop h, gue_hop_count h]"

subsection \<open>Sizes\<close>

lemma length_pdnet_bytes [simp]:
  "length (pdnet_ethernet_hdr_bytes e) = sizeof_eth"
  "length (pdnet_ipv4_hdr_bytes i4) = sizeof_ipv4"
  "length (pdnet_ipv6_hdr_bytes i6) = sizeof_ipv6"
  "length (pdnet_l4_ports_hdr_bytes l4) = sizeof_l4_ports"
  "length (pdnet_udp_hdr_bytes u) = sizeof_udp"
  "length (pdnet_icmpv4_hdr_bytes c4) = sizeof_icmpv4"
  "length (pdnet_icmpv6_hdr_bytes c6) = sizeof_icmpv6"
  "length (glb_gue_hdr_bytes g) = sizeof_gue"
  by (simp_all add: pdnet_ethernet_hdr_bytes_def pdnet_ipv4_hdr_bytes_def pdnet_ipv6_hdr_bytes_def
      pdnet_l4_ports_hdr_bytes_def pdnet_udp_hdr_bytes_def pdnet_icmpv4_hdr_bytes_def
      pdnet_icmpv6_hdr_bytes_def glb_gue_hdr_bytes_def)

subsection \<open>Round trips\<close>

lemma pack_nibbles_lo [simp]: "(ucast (pack_nibbles lo hi) :: 4 word) = lo"
  by (rule bit_word_eqI) (auto simp: pack_nibbles_def bit_simps)

lemma pack_nibbles_hi [simp]: "(ucast (drop_bit 4 (pack_nibbles lo hi)) :: 4 word) = hi"
  by (rule bit_word_eqI) (auto simp: pack_nibbles_def bit_simps dest: bit_imp_le_length)

lemma pack_2_6_lo [simp]: "(ucast (pack_2_6 lo hi) :: 2 word) = lo"
  by (rule bit_word_eqI) (auto simp: pack_2_6_def bit_simps)

lemma pack_2_6_hi [simp]: "(ucast (drop_bit 2 (pack_2_6 lo hi)) :: 6 word) = hi"
  by (rule bit_word_eqI) (auto simp: pack_2_6_def bit_simps dest: bit_imp_le_length)

lemma pdnet_ethernet_hdr_roundtrip [simp]:
  "pdnet_ethernet_hdr_of (pdnet_ethernet_hdr_bytes h @ rest) = h"
  by (simp add: pdnet_ethernet_hdr_of_def pdnet_ethernet_hdr_bytes_def wire)

lemma pdnet_ipv4_hdr_roundtrip [simp]:
  "pdnet_ipv4_hdr_of (pdnet_ipv4_hdr_bytes h @ rest) = h"
  by (simp add: pdnet_ipv4_hdr_of_def pdnet_ipv4_hdr_bytes_def wire)

lemma pdnet_ipv6_hdr_roundtrip [simp]:
  "pdnet_ipv6_hdr_of (pdnet_ipv6_hdr_bytes h @ rest) = h"
  by (simp add: pdnet_ipv6_hdr_of_def pdnet_ipv6_hdr_bytes_def wire)

lemma pdnet_l4_ports_hdr_roundtrip [simp]:
  "pdnet_l4_ports_hdr_of (pdnet_l4_ports_hdr_bytes h @ rest) = h"
  by (simp add: pdnet_l4_ports_hdr_of_def pdnet_l4_ports_hdr_bytes_def wire)

lemma pdnet_udp_hdr_roundtrip [simp]:
  "pdnet_udp_hdr_of (pdnet_udp_hdr_bytes h @ rest) = h"
  by (simp add: pdnet_udp_hdr_of_def pdnet_udp_hdr_bytes_def wire)

lemma pdnet_icmpv4_hdr_roundtrip [simp]:
  "pdnet_icmpv4_hdr_of (pdnet_icmpv4_hdr_bytes h @ rest) = h"
  by (simp add: pdnet_icmpv4_hdr_of_def pdnet_icmpv4_hdr_bytes_def wire)

lemma pdnet_icmpv6_hdr_roundtrip [simp]:
  "pdnet_icmpv6_hdr_of (pdnet_icmpv6_hdr_bytes h @ rest) = h"
  by (simp add: pdnet_icmpv6_hdr_of_def pdnet_icmpv6_hdr_bytes_def wire)

lemma glb_gue_hdr_roundtrip [simp]:
  "glb_gue_hdr_of (glb_gue_hdr_bytes h @ rest) = h"
  by (simp add: glb_gue_hdr_of_def glb_gue_hdr_bytes_def wire)

end
