(* ===== verification/Siphash.thy ===== *)
theory Siphash
  imports GLB_Prelude
begin

text \<open>
  SipHash-2-4, twice: the reference routine of \<open>src/glb-director/siphash24.c\<close>, which the table
  builder uses, and the manually unrolled routine of \<open>src/glb-hashing/glb_siphash24.h\<close>, which both
  directors use on the packet path. They are shown to agree on every input the packet path can form.
  The compile-time variant \<open>DOUBLE\<close> is never selected by a build file and is left out, as are the
  \<open>TRACE\<close> prints.
\<close>

type_synonym sip_state = "u64 \<times> u64 \<times> u64 \<times> u64"

definition ROTL :: "u64 \<Rightarrow> nat \<Rightarrow> u64" where
  "ROTL x b = push_bit b x OR drop_bit (64 - b) x"

definition SIPROUND :: "sip_state \<Rightarrow> sip_state" where
  "SIPROUND s =
     (let (v0, v1, v2, v3) = s;
          v0 = v0 + v1;
          v1 = ROTL v1 13;
          v1 = v1 XOR v0;
          v0 = ROTL v0 32;
          v2 = v2 + v3;
          v3 = ROTL v3 16;
          v3 = v3 XOR v2;
          v0 = v0 + v3;
          v3 = ROTL v3 21;
          v3 = v3 XOR v0;
          v2 = v2 + v1;
          v1 = ROTL v1 17;
          v1 = v1 XOR v2;
          v2 = ROTL v2 32
      in (v0, v1, v2, v3))"

definition U8TO64_LE :: "bytes \<Rightarrow> u64" where
  "U8TO64_LE p = le_word (take 8 p)"

text \<open>The state after the four keyed initial assignments.\<close>

definition sip_init :: "bytes \<Rightarrow> sip_state" where
  "sip_init k =
     (let k0 = U8TO64_LE k; k1 = U8TO64_LE (drop 8 k)
      in (0x736f6d6570736575 XOR k0, 0x646f72616e646f6d XOR k1,
          0x6c7967656e657261 XOR k0, 0x7465646279746573 XOR k1))"

text \<open>One message word: \<open>v3 ^= m\<close>, two rounds, \<open>v0 ^= m\<close>.\<close>

definition sip_compress :: "sip_state \<Rightarrow> u64 \<Rightarrow> sip_state" where
  "sip_compress s m =
     (let (v0, v1, v2, v3) = s;
          (v0, v1, v2, v3) = SIPROUND (SIPROUND (v0, v1, v2, v3 XOR m))
      in (v0 XOR m, v1, v2, v3))"

text \<open>Finalisation: \<open>v2 ^= 0xff\<close>, four rounds, and the XOR of the state words.\<close>

definition sip_finish :: "sip_state \<Rightarrow> u64" where
  "sip_finish s =
     (let (v0, v1, v2, v3) = s;
          (v0, v1, v2, v3) = SIPROUND (SIPROUND (SIPROUND (SIPROUND (v0, v1, v2 XOR 0xff, v3))))
      in v0 XOR v1 XOR v2 XOR v3)"

text \<open>The block loop \<open>for (; in != end; in += 8)\<close>: the state and the unread tail.\<close>

function siphash_blocks :: "sip_state \<Rightarrow> bytes \<Rightarrow> sip_state \<times> bytes" where
  "siphash_blocks s inp =
     (if length inp < 8 then (s, inp)
      else siphash_blocks (sip_compress s (U8TO64_LE inp)) (drop 8 inp))"
  by pat_completeness auto
termination
  by (relation "measure (\<lambda>(s, inp). length inp)") auto

declare siphash_blocks.simps [simp del]

text \<open>The fall-through \<open>switch (left)\<close> that packs the tail and the length into the last word.\<close>

definition siphash_tail :: "nat \<Rightarrow> bytes \<Rightarrow> u64" where
  "siphash_tail inlen inp =
     (let left = inlen mod 8;
          b = push_bit 56 (of_nat inlen);
          b = (if 7 \<le> left then b OR push_bit 48 (ucast (inp ! 6)) else b);
          b = (if 6 \<le> left then b OR push_bit 40 (ucast (inp ! 5)) else b);
          b = (if 5 \<le> left then b OR push_bit 32 (ucast (inp ! 4)) else b);
          b = (if 4 \<le> left then b OR push_bit 24 (ucast (inp ! 3)) else b);
          b = (if 3 \<le> left then b OR push_bit 16 (ucast (inp ! 2)) else b);
          b = (if 2 \<le> left then b OR push_bit 8 (ucast (inp ! 1)) else b)
      in (if 1 \<le> left then b OR ucast (inp ! 0) else b))"

definition siphash :: "bytes \<Rightarrow> bytes \<Rightarrow> bytes" where
  "siphash inp k =
     (let (s, rest) = siphash_blocks (sip_init k) inp;
          b = siphash_tail (length inp) rest
      in le_bytes 8 (sip_finish (sip_compress s b)))"

text \<open>
  The unrolled routine: \<open>None\<close> is the return value 1, for which nothing is written to \<open>out\<close>.
\<close>

definition GLB_SIPHASH_REQUIRED_IN_SIZE :: nat where
  "GLB_SIPHASH_REQUIRED_IN_SIZE = 5 * 8"

definition glb_siphash :: "bytes \<Rightarrow> nat \<Rightarrow> bytes \<Rightarrow> bytes option" where
  "glb_siphash inp inlen k =
     (let s = sip_init k;
          num_rounds = inlen div 8 + 1
      in if GLB_SIPHASH_REQUIRED_IN_SIZE \<le> inlen then None
         else
           let round_data = map (\<lambda>i. le_word (take 8 (drop (8 * i) inp))) [0..<5];
               round_data = round_data[num_rounds - 1 :=
                              round_data ! (num_rounds - 1) OR push_bit 56 (of_nat inlen)];
               s = sip_compress s (round_data ! 0);
               s = (if num_rounds > 1 then sip_compress s (round_data ! 1) else s);
               s = (if num_rounds > 2 then sip_compress s (round_data ! 2) else s);
               s = (if num_rounds > 3 then sip_compress s (round_data ! 3) else s);
               s = (if num_rounds > 4 then sip_compress s (round_data ! 4) else s)
           in Some (le_bytes 8 (sip_finish s)))"

subsection \<open>The reference routine as a fold over message words\<close>

abbreviation sip_word :: "bytes \<Rightarrow> nat \<Rightarrow> u64" where
  "sip_word inp i \<equiv> le_word (take 8 (drop (8 * i) inp))"

lemma siphash_blocks_done: "length inp < 8 \<Longrightarrow> siphash_blocks s inp = (s, inp)"
  by (simp add: siphash_blocks.simps)

lemma siphash_blocks_step:
  "8 \<le> length inp \<Longrightarrow>
     siphash_blocks s inp = siphash_blocks (sip_compress s (le_word (take 8 inp))) (drop 8 inp)"
  by (subst siphash_blocks.simps) (simp add: U8TO64_LE_def)

lemma length_le7_cases:
  assumes "length xs < 8"
  obtains "xs = []" | a where "xs = [a]" | a b where "xs = [a, b]" | a b c where "xs = [a, b, c]"
    | a b c d where "xs = [a, b, c, d]" | a b c d e where "xs = [a, b, c, d, e]"
    | a b c d e f where "xs = [a, b, c, d, e, f]"
    | a b c d e f g where "xs = [a, b, c, d, e, f, g]"
proof -
  have "length xs = 0 \<or> length xs = 1 \<or> length xs = 2 \<or> length xs = 3 \<or>
      length xs = 4 \<or> length xs = 5 \<or> length xs = 6 \<or> length xs = 7"
    using assms by arith
  then show ?thesis
    by (auto simp: length_Suc_conv eval_nat_numeral intro: that)
qed

lemma siphash_tail_eq:
  assumes "length rest = inlen mod 8"
  shows "siphash_tail inlen rest = le_word rest OR push_bit 56 (of_nat inlen)"
proof -
  have *: "inlen mod 8 = length rest" using assms by simp
  have "length rest < 8" using assms by simp
  then show ?thesis
    by (cases rule: length_le7_cases)
       (simp_all add: siphash_tail_def * push_bit_or or.assoc or.commute or.left_commute)
qed

lemma siphash_blocks_foldl:
  "siphash_blocks s inp =
     (foldl sip_compress s (map (sip_word inp) [0..<length inp div 8]),
      drop (8 * (length inp div 8)) inp)"
proof (induction s inp rule: siphash_blocks.induct)
  case (1 s inp)
  show ?case
  proof (cases "length inp < 8")
    case True
    then show ?thesis by (simp add: siphash_blocks_done)
  next
    case False
    define q where "q = (length inp - 8) div 8"
    have q: "length inp div 8 = Suc q"
      using False by (simp add: q_def le_div_geq)
    have "map (sip_word inp) [0..<Suc q] = sip_word inp 0 # map (sip_word (drop 8 inp)) [0..<q]"
      by (simp add: map_upt_Suc algebra_simps del: upt_Suc)
    then show ?thesis
      using False "1.IH" q
      by (simp add: siphash_blocks_step q_def [symmetric] U8TO64_LE_def algebra_simps del: upt_Suc)
  qed
qed

lemma siphash_eq_foldl:
  "siphash inp k =
     le_bytes 8 (sip_finish (sip_compress
       (foldl sip_compress (sip_init k) (map (sip_word inp) [0..<length inp div 8]))
       (sip_word inp (length inp div 8) OR push_bit 56 (of_nat (length inp)))))"
  by (simp add: siphash_def siphash_blocks_foldl siphash_tail_eq minus_mult_div_eq_mod)

lemma length_siphash [simp]: "length (siphash inp k) = 8"
  by (simp add: siphash_eq_foldl)

lemma glb_siphash_padded:
  assumes "length inp < GLB_SIPHASH_REQUIRED_IN_SIZE"
  shows "glb_siphash (inp @ replicate (GLB_SIPHASH_REQUIRED_IN_SIZE - length inp) 0) (length inp) k
           = Some (siphash inp k)"
proof -
  let ?q = "length inp div 8"
  have n: "length inp < 40" using assms by (simp add: GLB_SIPHASH_REQUIRED_IN_SIZE_def)
  have upt: "[0..<5] = [0, 1, 2, 3, 4::nat]" by (simp add: upt_rec)
  have rd: "map (\<lambda>i. le_word (take 8 (drop (8 * i) (inp @ replicate z 0)))) [0..<5] =
     [sip_word inp 0, sip_word inp 1, sip_word inp 2, sip_word inp 3, sip_word inp 4]" for z
    by (simp only: le_word_take_append_zeros upt list.map)
  consider "?q = 0" | "?q = 1" | "?q = 2" | "?q = 3" | "?q = 4"
    using n by arith
  then show ?thesis
    using n
    by cases (simp_all add: siphash_eq_foldl glb_siphash_def rd GLB_SIPHASH_REQUIRED_IN_SIZE_def
        Let_def upt_rec le_word_append_zeros)
qed

end
