(* ===== verification/Packet_Parsing.thy ===== *)
theory Packet_Parsing
  imports Pdnet Siphash "HOL-Library.Monad_Syntax"
begin

text \<open>
  The header-only parser and flow hash of \<open>src/glb-hashing/packet_parsing.h\<close>, shared by the DPDK
  director, the XDP director and the pcap and lab tools. The code is compiled in two ways, selected
  by the macro \<open>SAFELY_GET_HEADER_OR_RETURN\<close>: the lineariser mode reads through a hook
  \<open>encap_packet_data_read\<close> that each program supplies, the raw mode checks bounds against
  \<open>packet_end\<close>. Here the macro is the argument \<open>get\<close> of the extraction functions, instantiated by
  \<open>safely_get_header_lineariser\<close> and \<open>safely_get_header_raw\<close>; \<open>None\<close> is the return value \<open>-1\<close>.
  The interface of the hook is the locale \<open>packet_reader\<close>.
\<close>

definition GLB_MAX_HOPS :: nat where
  "GLB_MAX_HOPS = 4"

definition MAX_PARSED_HEADER_SIZE :: nat where
  "MAX_PARSED_HEADER_SIZE =
     sizeof_eth + sizeof_ipv6 + sizeof_icmpv6 + sizeof_icmpv6_too_big + sizeof_ipv6 + sizeof_l4_ports"

definition MAX_HASH_DATA_SIZE :: nat where
  "MAX_HASH_DATA_SIZE = 16 + 16 + 2 + 2"

text \<open>
  The route context. The unions \<open>src_addr\<close> and \<open>dst_addr\<close> are the 128-bit word of their 16 bytes;
  the member \<open>ipv4\<close> is its low 32 bits. \<open>packet_data\<close> is what the reader hook is given (lineariser
  mode) or the bytes between \<open>packet_start\<close> and \<open>packet_end\<close> (raw mode).
\<close>

record 'p glb_route_context =
  linearisation_space_offset :: u32
  packet_data :: 'p
  ether_type :: u16
  orig_dst_mac :: mac_addr
  ip_total_length :: u16
  src_addr :: ipv6_addr
  dst_addr :: ipv6_addr
  src_port :: u16
  dst_port :: u16
  flow_hash_hint :: u16
  gue_ipproto :: u8
  original_ipproto :: u8
  hop_count :: u8
  ipv4_hops :: "u32 list"
  pkt_hash :: u64

definition set_union_ipv4 :: "u32 \<Rightarrow> ipv6_addr \<Rightarrow> ipv6_addr" where
  "set_union_ipv4 a u = push_bit 32 (drop_bit 32 u) OR ucast a"

definition get_union_ipv4 :: "ipv6_addr \<Rightarrow> u32" where
  "get_union_ipv4 u = ucast u"

definition ROUTE_CONTEXT_ENCAP_SIZE :: "'p glb_route_context \<Rightarrow> nat" where
  "ROUTE_CONTEXT_ENCAP_SIZE rc =
     sizeof_eth + sizeof_ipv4 + sizeof_udp + sizeof_gue + 4 * (unat (hop_count rc) - 1)"

subsection \<open>Reading headers\<close>

text \<open>A header read: the context (whose linearisation offset may move) and the bytes read.\<close>

type_synonym 'p header_get =
  "'p glb_route_context \<Rightarrow> nat \<Rightarrow> nat \<Rightarrow> ('p glb_route_context \<times> bytes) option"

definition safely_get_header_lineariser ::
    "('p \<Rightarrow> nat \<Rightarrow> nat \<Rightarrow> bytes option) \<Rightarrow> 'p header_get" where
  "safely_get_header_lineariser encap_packet_data_read rc offset len =
     (let rc = rc\<lparr>linearisation_space_offset := linearisation_space_offset rc + of_nat len\<rparr>
      in if linearisation_space_offset rc > of_nat MAX_PARSED_HEADER_SIZE then None
         else map_option (\<lambda>hdr. (rc, hdr)) (encap_packet_data_read (packet_data rc) offset len))"

definition safely_get_header_raw :: "bytes header_get" where
  "safely_get_header_raw rc offset len =
     (if offset + len > length (packet_data rc) then None
      else Some (rc, take len (drop offset (packet_data rc))))"

subsection \<open>Field extraction\<close>

definition extract_packet_fields_ipv4 ::
    "'p header_get \<Rightarrow> 'p glb_route_context \<Rightarrow> 'p glb_route_context option" where
  "extract_packet_fields_ipv4 get rc = do {
     (rc, h) \<leftarrow> get rc sizeof_eth sizeof_ipv4;
     let ipv4_hdr = pdnet_ipv4_hdr_of h;
     let rc = rc\<lparr>ip_total_length := ntohs (ip4_total_length ipv4_hdr),
                original_ipproto := ip4_next_proto ipv4_hdr\<rparr>;
     rc \<leftarrow>
       (if ip4_next_proto ipv4_hdr = PDNET_IP_PROTO_ICMPV4 then do {
          (rc, h) \<leftarrow> get rc (sizeof_eth + sizeof_ipv4) sizeof_icmpv4;
          let icmp_hdr = pdnet_icmpv4_hdr_of h;
          if icmp4_type icmp_hdr = PDNET_ICMPV4_TYPE_DESTINATION_UNREACHABLE then do {
            (rc, h) \<leftarrow> get rc (sizeof_eth + sizeof_ipv4 + sizeof_icmpv4) sizeof_ipv4;
            let orig_ipv4_hdr = pdnet_ipv4_hdr_of h;
            (rc, h) \<leftarrow> get rc (sizeof_eth + sizeof_ipv4 + sizeof_icmpv4 + sizeof_ipv4) sizeof_l4_ports;
            let orig_l4_hdr = pdnet_l4_ports_hdr_of h;
            Some (rc\<lparr>src_addr := set_union_ipv4 (ip4_dst_addr orig_ipv4_hdr) (src_addr rc),
                     dst_addr := set_union_ipv4 (ip4_src_addr orig_ipv4_hdr) (dst_addr rc),
                     src_port := l4_dst_port orig_l4_hdr,
                     dst_port := l4_src_port orig_l4_hdr,
                     flow_hash_hint := ntohs (l4_dst_port orig_l4_hdr),
                     original_ipproto := ip4_next_proto orig_ipv4_hdr\<rparr>)
          } else
            Some (rc\<lparr>src_addr := set_union_ipv4 (ip4_src_addr ipv4_hdr) (src_addr rc),
                     dst_addr := set_union_ipv4 (ip4_dst_addr ipv4_hdr) (dst_addr rc),
                     src_port := 0,
                     dst_port := 0,
                     flow_hash_hint := ntohs (ip4_identification ipv4_hdr)\<rparr>)
        } else do {
          (rc, h) \<leftarrow> get rc (sizeof_eth + sizeof_ipv4) sizeof_l4_ports;
          let orig_l4_hdr = pdnet_l4_ports_hdr_of h;
          Some (rc\<lparr>src_addr := set_union_ipv4 (ip4_src_addr ipv4_hdr) (src_addr rc),
                   dst_addr := set_union_ipv4 (ip4_dst_addr ipv4_hdr) (dst_addr rc),
                   src_port := l4_src_port orig_l4_hdr,
                   dst_port := l4_dst_port orig_l4_hdr,
                   flow_hash_hint := ntohs (l4_src_port orig_l4_hdr)\<rparr>)
        });
     Some (rc\<lparr>gue_ipproto := PDNET_IP_PROTO_IPIPV4\<rparr>)
   }"

text \<open>
  The inner IPv6 and port headers of a packet-too-big message are read as one 44-byte struct. The
  repeated bounds tests under \<open>EBPF_VERIFIER_GUARD\<close> are the tests of the raw \<open>get\<close> once more.
\<close>

definition extract_packet_fields_ipv6 ::
    "'p header_get \<Rightarrow> 'p glb_route_context \<Rightarrow> 'p glb_route_context option" where
  "extract_packet_fields_ipv6 get rc = do {
     (rc, h) \<leftarrow> get rc sizeof_eth sizeof_ipv6;
     let ipv6_hdr = pdnet_ipv6_hdr_of h;
     let rc = rc\<lparr>ip_total_length := of_nat sizeof_ipv6 + ntohs (ip6_payload_len ipv6_hdr),
                original_ipproto := ip6_next_proto ipv6_hdr\<rparr>;
     rc \<leftarrow>
       (if ip6_next_proto ipv6_hdr = PDNET_IP_PROTO_ICMPV6 then do {
          (rc, h) \<leftarrow> get rc (sizeof_eth + sizeof_ipv6) sizeof_icmpv6;
          let icmp_hdr = pdnet_icmpv6_hdr_of h;
          if icmp6_type icmp_hdr = PDNET_ICMPV6_TYPE_PACKET_TOO_BIG then do {
            (rc, h) \<leftarrow> get rc (sizeof_eth + sizeof_ipv6 + sizeof_icmpv6 + sizeof_icmpv6_too_big)
                        (sizeof_ipv6 + sizeof_l4_ports);
            let orig_ipv6_hdr = pdnet_ipv6_hdr_of h;
            let orig_l4_hdr = pdnet_l4_ports_hdr_of (drop sizeof_ipv6 h);
            Some (rc\<lparr>src_addr := ip6_dst_addr orig_ipv6_hdr,
                     dst_addr := ip6_src_addr orig_ipv6_hdr,
                     src_port := l4_dst_port orig_l4_hdr,
                     dst_port := l4_src_port orig_l4_hdr,
                     flow_hash_hint := ntohs (l4_dst_port orig_l4_hdr),
                     original_ipproto := ip6_next_proto orig_ipv6_hdr\<rparr>)
          } else
            Some (rc\<lparr>src_addr := ip6_src_addr ipv6_hdr,
                     dst_addr := ip6_dst_addr ipv6_hdr,
                     src_port := 0,
                     dst_port := 0,
                     flow_hash_hint := ntohs (ucast (pdnet_ipv6_hdr_get_flow ipv6_hdr AND 0xffff))\<rparr>)
        } else do {
          (rc, h) \<leftarrow> get rc (sizeof_eth + sizeof_ipv6) sizeof_l4_ports;
          let orig_l4_hdr = pdnet_l4_ports_hdr_of h;
          Some (rc\<lparr>src_addr := ip6_src_addr ipv6_hdr,
                   dst_addr := ip6_dst_addr ipv6_hdr,
                   src_port := l4_src_port orig_l4_hdr,
                   dst_port := l4_dst_port orig_l4_hdr,
                   flow_hash_hint := ntohs (l4_src_port orig_l4_hdr)\<rparr>)
        });
     Some (rc\<lparr>gue_ipproto := PDNET_IP_PROTO_IPIPV6\<rparr>)
   }"

definition glb_extract_packet_fields ::
    "'p header_get \<Rightarrow> 'p glb_route_context \<Rightarrow> 'p glb_route_context option" where
  "glb_extract_packet_fields get rc = do {
     let rc = rc\<lparr>ip_total_length := 0,
                src_addr := set_union_ipv4 0 (src_addr rc),
                dst_addr := set_union_ipv4 0 (dst_addr rc),
                src_port := 0, dst_port := 0, flow_hash_hint := 0, gue_ipproto := 0,
                original_ipproto := 0, hop_count := 0, pkt_hash := 0\<rparr>;
     (rc, h) \<leftarrow> get rc 0 sizeof_eth;
     let eth_hdr = pdnet_ethernet_hdr_of h;
     let rc = rc\<lparr>ether_type := ntohs (eth_ether_type eth_hdr), orig_dst_mac := eth_dst_addr eth_hdr\<rparr>;
     if ether_type rc = PDNET_ETHER_TYPE_IPV4 then extract_packet_fields_ipv4 get rc
     else if ether_type rc = PDNET_ETHER_TYPE_IPV6 then extract_packet_fields_ipv6 get rc
     else None
   }"

subsection \<open>The flow hash\<close>

record glb_director_hash_fields =
  hf_src_addr :: bool
  hf_dst_addr :: bool
  hf_src_port :: bool
  hf_dst_port :: bool

text \<open>The push helpers write at the cursor of the hash buffer and advance it.\<close>

definition glb_hash_push_uint16 :: "bytes \<times> nat \<Rightarrow> u16 \<Rightarrow> bytes \<times> nat" where
  "glb_hash_push_uint16 hb val =
     (let (hash_buf, hash_curr) = hb in (write_bytes hash_buf hash_curr (le_bytes 2 val), hash_curr + 2))"

definition glb_hash_push_uint32 :: "bytes \<times> nat \<Rightarrow> u32 \<Rightarrow> bytes \<times> nat" where
  "glb_hash_push_uint32 hb val =
     (let (hash_buf, hash_curr) = hb in (write_bytes hash_buf hash_curr (le_bytes 4 val), hash_curr + 4))"

definition glb_hash_push_ipv6 :: "bytes \<times> nat \<Rightarrow> ipv6_addr \<Rightarrow> bytes \<times> nat" where
  "glb_hash_push_ipv6 hb val =
     (let (hash_buf, hash_curr) = hb in (write_bytes hash_buf hash_curr (le_bytes 16 val), hash_curr + 16))"

text \<open>
  \<open>ebpf\<close> is the compile-time switch \<open>EBPF_VERIFIER_GUARD\<close>; a result of \<open>-1\<close> converted to
  \<open>uint64_t\<close> is the all-ones word. The cursor and \<open>hash_len\<close> advance together.
\<close>

definition glb_compute_hash ::
    "bool \<Rightarrow> 'p glb_route_context \<Rightarrow> bytes \<Rightarrow> glb_director_hash_fields \<Rightarrow> u64" where
  "glb_compute_hash ebpf rc secret cfg =
     (let hb = (replicate GLB_SIPHASH_REQUIRED_IN_SIZE 0, 0)
      in case
        (if ether_type rc = PDNET_ETHER_TYPE_IPV4 then
           let hb = (if hf_src_addr cfg then glb_hash_push_uint32 hb (get_union_ipv4 (src_addr rc)) else hb);
               hb = (if hf_dst_addr cfg then glb_hash_push_uint32 hb (get_union_ipv4 (dst_addr rc)) else hb)
           in Some hb
         else if ether_type rc = PDNET_ETHER_TYPE_IPV6 then do {
           hb \<leftarrow> (if hf_src_addr cfg then
                     if ebpf \<and> snd hb + 16 > MAX_HASH_DATA_SIZE then None
                     else Some (glb_hash_push_ipv6 hb (src_addr rc))
                   else Some hb);
           (if hf_dst_addr cfg then
              if ebpf \<and> snd hb + 16 > MAX_HASH_DATA_SIZE then None
              else Some (glb_hash_push_ipv6 hb (dst_addr rc))
            else Some hb)
         } else None)
      of None \<Rightarrow> - 1
       | Some hb \<Rightarrow>
           let hb = (if hf_src_port cfg then glb_hash_push_uint16 hb (src_port rc) else hb);
               hb = (if hf_dst_port cfg then glb_hash_push_uint16 hb (dst_port rc) else hb);
               hash_len = snd hb
           in if ebpf \<and> \<not> (0 < hash_len \<and> hash_len \<le> MAX_HASH_DATA_SIZE) then - 1
              else case glb_siphash (fst hb) hash_len secret of
                     Some out \<Rightarrow> le_word out
                   | None \<Rightarrow> 0)"

subsection \<open>The interface of the reader hook\<close>

text \<open>
  What the parser relies on: \<open>encap_packet_data_read\<close> returns the requested bytes of the packet, and
  \<open>NULL\<close> exactly when the packet is too short. \<open>contents\<close> is the packet a hook argument stands for,
  \<open>wf_packet\<close> what the program that supplies the hook keeps true of the argument.
\<close>

locale packet_reader =
  fixes encap_packet_data_read :: "'p \<Rightarrow> nat \<Rightarrow> nat \<Rightarrow> bytes option"
    and contents :: "'p \<Rightarrow> bytes"
    and wf_packet :: "'p \<Rightarrow> bool"
  assumes read_law:
    "wf_packet p \<Longrightarrow> encap_packet_data_read p off len = read_bytes (contents p) off len"
begin

lemma lineariser_get_eq:
  "wf_packet (packet_data rc) \<Longrightarrow>
   safely_get_header_lineariser encap_packet_data_read rc offset len =
     (if linearisation_space_offset rc + of_nat len > of_nat MAX_PARSED_HEADER_SIZE then None
      else if offset + len > length (contents (packet_data rc)) then None
      else Some (rc\<lparr>linearisation_space_offset := linearisation_space_offset rc + of_nat len\<rparr>,
                 take len (drop offset (contents (packet_data rc)))))"
  by (simp add: safely_get_header_lineariser_def read_law read_bytes_def)

end

subsection \<open>The flow hash is SipHash of the configured fields\<close>

text \<open>The bytes a hash configuration selects of a parsed packet, in order.\<close>

definition hash_input :: "glb_director_hash_fields \<Rightarrow> 'p glb_route_context \<Rightarrow> bytes" where
  "hash_input cfg rc =
     (let addr = (\<lambda>a. if ether_type rc = PDNET_ETHER_TYPE_IPV4 then le_bytes 4 (get_union_ipv4 a)
                      else le_bytes 16 a)
      in (if hf_src_addr cfg then addr (src_addr rc) else []) @
         (if hf_dst_addr cfg then addr (dst_addr rc) else []) @
         (if hf_src_port cfg then le_bytes 2 (src_port rc) else []) @
         (if hf_dst_port cfg then le_bytes 2 (dst_port rc) else []))"

definition hash_fields_nonempty :: "glb_director_hash_fields \<Rightarrow> bool" where
  "hash_fields_nonempty cfg \<longleftrightarrow>
     hf_src_addr cfg \<or> hf_dst_addr cfg \<or> hf_src_port cfg \<or> hf_dst_port cfg"

definition is_ip_ether_type :: "u16 \<Rightarrow> bool" where
  "is_ip_ether_type t \<longleftrightarrow> t = PDNET_ETHER_TYPE_IPV4 \<or> t = PDNET_ETHER_TYPE_IPV6"

definition hash_buffer :: "bytes \<Rightarrow> bytes \<times> nat" where
  "hash_buffer xs = (xs @ replicate (GLB_SIPHASH_REQUIRED_IN_SIZE - length xs) 0, length xs)"

lemma write_bytes_hash_buffer:
  "length xs + length ys \<le> m \<Longrightarrow>
   write_bytes (xs @ replicate (m - length xs) 0) (length xs) ys =
     (xs @ ys) @ replicate (m - length (xs @ ys)) 0"
  by (simp add: write_bytes_def diff_diff_add)

lemma glb_hash_push_buffer:
  "length xs + 2 \<le> 40 \<Longrightarrow>
     glb_hash_push_uint16 (hash_buffer xs) v2 = hash_buffer (xs @ le_bytes 2 v2)"
  "length xs + 4 \<le> 40 \<Longrightarrow>
     glb_hash_push_uint32 (hash_buffer xs) v4 = hash_buffer (xs @ le_bytes 4 v4)"
  "length xs + 16 \<le> 40 \<Longrightarrow>
     glb_hash_push_ipv6 (hash_buffer xs) v6 = hash_buffer (xs @ le_bytes 16 v6)"
  unfolding glb_hash_push_uint16_def glb_hash_push_uint32_def glb_hash_push_ipv6_def hash_buffer_def
  by (simp_all add: write_bytes_hash_buffer GLB_SIPHASH_REQUIRED_IN_SIZE_def del: append_assoc)

lemma hash_buffer_Nil: "(replicate 40 0, 0) = hash_buffer []"
  by (simp add: hash_buffer_def GLB_SIPHASH_REQUIRED_IN_SIZE_def)

lemma snd_hash_buffer: "snd (hash_buffer xs) = length xs"
  by (simp add: hash_buffer_def)

lemma length_hash_input: "length (hash_input cfg rc) \<le> MAX_HASH_DATA_SIZE"
  by (simp add: hash_input_def MAX_HASH_DATA_SIZE_def Let_def)

lemma hash_input_nonempty:
  "hash_fields_nonempty cfg \<Longrightarrow> 0 < length (hash_input cfg rc)"
  by (auto simp: hash_input_def Let_def hash_fields_nonempty_def)

lemma glb_compute_hash_buffer:
  assumes "is_ip_ether_type (ether_type rc)" "\<not> ebpf \<or> hash_fields_nonempty cfg"
  shows "glb_compute_hash ebpf rc secret cfg = 
     (case glb_siphash (fst (hash_buffer (hash_input cfg rc))) (length (hash_input cfg rc)) secret of
        Some out \<Rightarrow> le_word out | None \<Rightarrow> 0)"
proof -
  have et: "ether_type rc = PDNET_ETHER_TYPE_IPV4 \<or> ether_type rc = PDNET_ETHER_TYPE_IPV6"
    using assms by (simp add: is_ip_ether_type_def)
  have n: "hf_src_addr cfg \<or> hf_dst_addr cfg \<or> hf_src_port cfg \<or> hf_dst_port cfg \<or> \<not> ebpf"
    using assms by (auto simp: hash_fields_nonempty_def)
  show ?thesis
    using et n 
    by (elim disjE) (simp_all add: glb_compute_hash_def hash_buffer_Nil hash_input_def MAX_HASH_DATA_SIZE_def
         Let_def glb_hash_push_buffer GLB_SIPHASH_REQUIRED_IN_SIZE_def snd_hash_buffer
        del: add_2_eq_Suc add_2_eq_Suc')
qed

lemma glb_compute_hash_siphash:
  assumes "is_ip_ether_type (ether_type rc)" "\<not> ebpf \<or> hash_fields_nonempty cfg"
  shows "glb_compute_hash ebpf rc secret cfg = le_word (siphash (hash_input cfg rc) secret)"
proof -
  have "length (hash_input cfg rc) < GLB_SIPHASH_REQUIRED_IN_SIZE"
    using length_hash_input [of cfg rc] by (simp add: MAX_HASH_DATA_SIZE_def GLB_SIPHASH_REQUIRED_IN_SIZE_def)
  then show ?thesis
    using assms by (simp add: glb_compute_hash_buffer hash_buffer_def glb_siphash_padded)
qed

subsection \<open>Both modes of the parser agree\<close>

definition parsed_fields where
  "parsed_fields rc =
     (ether_type rc, orig_dst_mac rc, ip_total_length rc, (src_addr rc, dst_addr rc),
      (src_port rc, dst_port rc, flow_hash_hint rc), gue_ipproto rc, original_ipproto rc,
      hop_count rc, ipv4_hops rc, pkt_hash rc)"

definition raw_context :: "bytes \<Rightarrow> 'p glb_route_context \<Rightarrow> bytes glb_route_context" where
  "raw_context bs rc =
     \<lparr>linearisation_space_offset = 0, packet_data = bs,
      ether_type = ether_type rc, orig_dst_mac = orig_dst_mac rc,
      ip_total_length = ip_total_length rc, src_addr = src_addr rc, dst_addr = dst_addr rc,
      src_port = src_port rc, dst_port = dst_port rc, flow_hash_hint = flow_hash_hint rc,
      gue_ipproto = gue_ipproto rc, original_ipproto = original_ipproto rc,
      hop_count = hop_count rc, ipv4_hops = ipv4_hops rc, pkt_hash = pkt_hash rc\<rparr>"

context packet_reader
begin

lemma extract_ipv4_raw:
  assumes "linearisation_space_offset rc = 14" "wf_packet (packet_data rc)"
  shows "map_option parsed_fields
      (extract_packet_fields_ipv4 (safely_get_header_lineariser encap_packet_data_read) rc) =
    map_option parsed_fields
      (extract_packet_fields_ipv4 safely_get_header_raw (raw_context (contents (packet_data rc)) rc))"
  using assms
  by (simp add: extract_packet_fields_ipv4_def lineariser_get_eq safely_get_header_raw_def
      raw_context_def parsed_fields_def MAX_PARSED_HEADER_SIZE_def Let_def)

lemma extract_ipv6_raw:
  assumes "linearisation_space_offset rc = 14" "wf_packet (packet_data rc)"
  shows "map_option parsed_fields
      (extract_packet_fields_ipv6 (safely_get_header_lineariser encap_packet_data_read) rc) =
    map_option parsed_fields
      (extract_packet_fields_ipv6 safely_get_header_raw (raw_context (contents (packet_data rc)) rc))"
  using assms
  by (simp add: extract_packet_fields_ipv6_def lineariser_get_eq safely_get_header_raw_def
      raw_context_def parsed_fields_def MAX_PARSED_HEADER_SIZE_def Let_def)

lemma glb_extract_packet_fields_raw:
  assumes "linearisation_space_offset rc = 0" "wf_packet (packet_data rc)"
  shows "map_option parsed_fields
      (glb_extract_packet_fields (safely_get_header_lineariser encap_packet_data_read) rc) =
    map_option parsed_fields
      (glb_extract_packet_fields safely_get_header_raw (raw_context (contents (packet_data rc)) rc))"
proof -
  let ?eth = "pdnet_ethernet_hdr_of (take 14 (contents (packet_data rc)))"
  let ?rc = "rc\<lparr>ip_total_length := 0, src_addr := set_union_ipv4 0 (src_addr rc),
     dst_addr := set_union_ipv4 0 (dst_addr rc), src_port := 0, dst_port := 0, flow_hash_hint := 0,
     gue_ipproto := 0, original_ipproto := 0, hop_count := 0, pkt_hash := 0,
     linearisation_space_offset := 14, ether_type := ntohs (eth_ether_type ?eth),
     orig_dst_mac := eth_dst_addr ?eth\<rparr>"
  have "linearisation_space_offset ?rc = 14" "wf_packet (packet_data ?rc)"
    using assms(2) by simp_all
  note rw = extract_ipv4_raw [OF this] extract_ipv6_raw [OF this]
  consider "ntohs (eth_ether_type ?eth) = PDNET_ETHER_TYPE_IPV4"
    | "ntohs (eth_ether_type ?eth) = PDNET_ETHER_TYPE_IPV6"
    | "\<not> is_ip_ether_type (ntohs (eth_ether_type ?eth))"
    by (auto simp: is_ip_ether_type_def)
  then show ?thesis
    using assms rw
    by cases (simp_all add: glb_extract_packet_fields_def lineariser_get_eq [of _ 0]
        safely_get_header_raw_def [of _ 0] raw_context_def MAX_PARSED_HEADER_SIZE_def Let_def
        is_ip_ether_type_def)
qed

end

subsection \<open>What is parsed of a packet\<close>

lemma raw_get_segment:
  "packet_data rc = xs @ h @ ys \<Longrightarrow> off = length xs \<Longrightarrow> len = length h \<Longrightarrow>
     safely_get_header_raw rc off len = Some (rc, h)"
  by (simp add: safely_get_header_raw_def)

lemma get_set_union_ipv4 [simp]: "get_union_ipv4 (set_union_ipv4 a u) = a"
  by (rule bit_word_eqI) (auto simp: get_union_ipv4_def set_union_ipv4_def bit_simps)

lemma extract_ipv4_ports_raw:
  assumes "packet_data rc = pdnet_ethernet_hdr_bytes eth @ pdnet_ipv4_hdr_bytes ip @
             pdnet_l4_ports_hdr_bytes l4 @ rest"
    and "ip4_next_proto ip \<noteq> PDNET_IP_PROTO_ICMPV4"
  shows "extract_packet_fields_ipv4 safely_get_header_raw rc =
    Some (rc\<lparr>ip_total_length := ntohs (ip4_total_length ip),
             original_ipproto := ip4_next_proto ip,
             src_addr := set_union_ipv4 (ip4_src_addr ip) (src_addr rc),
             dst_addr := set_union_ipv4 (ip4_dst_addr ip) (dst_addr rc),
             src_port := l4_src_port l4, dst_port := l4_dst_port l4,
             flow_hash_hint := ntohs (l4_src_port l4),
             gue_ipproto := PDNET_IP_PROTO_IPIPV4\<rparr>)"
  using assms pdnet_ipv4_hdr_roundtrip [of ip "[]"] pdnet_l4_ports_hdr_roundtrip [of l4 "[]"]
  by (simp add: extract_packet_fields_ipv4_def safely_get_header_raw_def Let_def)

lemma extract_ipv4_unreachable_raw:
  assumes "packet_data rc = pdnet_ethernet_hdr_bytes eth @ pdnet_ipv4_hdr_bytes ip @
             pdnet_icmpv4_hdr_bytes icmp @ pdnet_ipv4_hdr_bytes orig @
             pdnet_l4_ports_hdr_bytes l4 @ rest"
    and "ip4_next_proto ip = PDNET_IP_PROTO_ICMPV4"
    and "icmp4_type icmp = PDNET_ICMPV4_TYPE_DESTINATION_UNREACHABLE"
  shows "extract_packet_fields_ipv4 safely_get_header_raw rc =
    Some (rc\<lparr>ip_total_length := ntohs (ip4_total_length ip),
             original_ipproto := ip4_next_proto orig,
             src_addr := set_union_ipv4 (ip4_dst_addr orig) (src_addr rc),
             dst_addr := set_union_ipv4 (ip4_src_addr orig) (dst_addr rc),
             src_port := l4_dst_port l4, dst_port := l4_src_port l4,
             flow_hash_hint := ntohs (l4_dst_port l4),
             gue_ipproto := PDNET_IP_PROTO_IPIPV4\<rparr>)"
  using assms pdnet_ipv4_hdr_roundtrip [of ip "[]"] pdnet_l4_ports_hdr_roundtrip [of l4 "[]"]
    pdnet_icmpv4_hdr_roundtrip [of icmp "[]"] pdnet_ipv4_hdr_roundtrip [of orig "[]"]
  by (simp add: extract_packet_fields_ipv4_def safely_get_header_raw_def Let_def)

lemma extract_ipv6_ports_raw:
  assumes "packet_data rc = pdnet_ethernet_hdr_bytes eth @ pdnet_ipv6_hdr_bytes ip @
             pdnet_l4_ports_hdr_bytes l4 @ rest"
    and "ip6_next_proto ip \<noteq> PDNET_IP_PROTO_ICMPV6"
  shows "extract_packet_fields_ipv6 safely_get_header_raw rc =
    Some (rc\<lparr>ip_total_length := 40 + ntohs (ip6_payload_len ip),
             original_ipproto := ip6_next_proto ip,
             src_addr := ip6_src_addr ip, dst_addr := ip6_dst_addr ip,
             src_port := l4_src_port l4, dst_port := l4_dst_port l4,
             flow_hash_hint := ntohs (l4_src_port l4),
             gue_ipproto := PDNET_IP_PROTO_IPIPV6\<rparr>)"
  using assms pdnet_ipv6_hdr_roundtrip [of ip "[]"] pdnet_l4_ports_hdr_roundtrip [of l4 "[]"]
  by (simp add: extract_packet_fields_ipv6_def safely_get_header_raw_def Let_def)

lemma extract_ipv6_too_big_raw:
  assumes "packet_data rc = pdnet_ethernet_hdr_bytes eth @ pdnet_ipv6_hdr_bytes ip @
             pdnet_icmpv6_hdr_bytes icmp @ le_bytes 4 (mtu :: u32) @ pdnet_ipv6_hdr_bytes orig @
             pdnet_l4_ports_hdr_bytes l4 @ rest"
    and "ip6_next_proto ip = PDNET_IP_PROTO_ICMPV6"
    and "icmp6_type icmp = PDNET_ICMPV6_TYPE_PACKET_TOO_BIG"
  shows "extract_packet_fields_ipv6 safely_get_header_raw rc =
    Some (rc\<lparr>ip_total_length := 40 + ntohs (ip6_payload_len ip),
             original_ipproto := ip6_next_proto orig,
             src_addr := ip6_dst_addr orig, dst_addr := ip6_src_addr orig,
             src_port := l4_dst_port l4, dst_port := l4_src_port l4,
             flow_hash_hint := ntohs (l4_dst_port l4),
             gue_ipproto := PDNET_IP_PROTO_IPIPV6\<rparr>)"
  using assms pdnet_ipv6_hdr_roundtrip [of ip "[]"] pdnet_l4_ports_hdr_roundtrip [of l4 "[]"]
    pdnet_icmpv6_hdr_roundtrip [of icmp "[]"] pdnet_ipv6_hdr_roundtrip [of orig]
  by (simp add: extract_packet_fields_ipv6_def safely_get_header_raw_def Let_def)

subsection \<open>The flow a packet belongs to\<close>

text \<open>What the flow hash can depend on: address family, addresses, ports.\<close>

definition flow_key :: "'p glb_route_context \<Rightarrow> u16 \<times> (ipv6_addr \<times> ipv6_addr) \<times> u16 \<times> u16" where
  "flow_key rc =
     (let addr = (\<lambda>a. if ether_type rc = PDNET_ETHER_TYPE_IPV4 then ucast (get_union_ipv4 a) else a)
      in (ether_type rc, (addr (src_addr rc), addr (dst_addr rc)), src_port rc, dst_port rc))"

lemma ucast_u32_ipv6_inject [simp]: "(ucast (a :: u32) :: ipv6_addr) = ucast b \<longleftrightarrow> a = b"
proof
  assume h: "(ucast a :: ipv6_addr) = ucast b"
  have "bit c n = bit (ucast c :: ipv6_addr) n" if "n < 32" for c :: u32 and n
    using that by (simp add: bit_simps)
  then show "a = b"
    using h by (intro bit_word_eqI) simp
qed simp

lemma glb_compute_hash_flow_key:
  assumes "flow_key a = flow_key b"
  shows "glb_compute_hash ebpf a secret cfg = glb_compute_hash ebpf b secret cfg"
proof -
  have eq: "ether_type a = ether_type b" "src_port a = src_port b" "dst_port a = dst_port b"
    using assms by (auto simp: flow_key_def Let_def)
  show ?thesis
  proof (cases "ether_type b = PDNET_ETHER_TYPE_IPV4")
    case True
    then have u: "get_union_ipv4 (src_addr a) = get_union_ipv4 (src_addr b)"
      "get_union_ipv4 (dst_addr a) = get_union_ipv4 (dst_addr b)"
      using assms eq by (simp_all add: flow_key_def)
    then show ?thesis
      unfolding glb_compute_hash_def eq True u by simp
  next
    case False
    then have u: "src_addr a = src_addr b" "dst_addr a = dst_addr b"
      using assms eq by (simp_all add: flow_key_def)
    then show ?thesis
      unfolding glb_compute_hash_def eq u by simp
  qed
qed

lemma glb_extract_raw_ipv4:
  assumes "packet_data rc = pdnet_ethernet_hdr_bytes eth @ rest"
    and "ntohs (eth_ether_type eth) = PDNET_ETHER_TYPE_IPV4"
  shows "glb_extract_packet_fields safely_get_header_raw rc =
    extract_packet_fields_ipv4 safely_get_header_raw
      (rc\<lparr>ip_total_length := 0, src_addr := set_union_ipv4 0 (src_addr rc),
          dst_addr := set_union_ipv4 0 (dst_addr rc), src_port := 0, dst_port := 0,
          flow_hash_hint := 0, gue_ipproto := 0, original_ipproto := 0, hop_count := 0,
          pkt_hash := 0, ether_type := PDNET_ETHER_TYPE_IPV4, orig_dst_mac := eth_dst_addr eth\<rparr>)"
  using assms pdnet_ethernet_hdr_roundtrip [of eth "[]"]
  by (simp add: glb_extract_packet_fields_def safely_get_header_raw_def [of _ 0] Let_def)

lemma glb_extract_raw_ipv6:
  assumes "packet_data rc = pdnet_ethernet_hdr_bytes eth @ rest"
    and "ntohs (eth_ether_type eth) = PDNET_ETHER_TYPE_IPV6"
  shows "glb_extract_packet_fields safely_get_header_raw rc =
    extract_packet_fields_ipv6 safely_get_header_raw
      (rc\<lparr>ip_total_length := 0, src_addr := set_union_ipv4 0 (src_addr rc),
          dst_addr := set_union_ipv4 0 (dst_addr rc), src_port := 0, dst_port := 0,
          flow_hash_hint := 0, gue_ipproto := 0, original_ipproto := 0, hop_count := 0,
          pkt_hash := 0, ether_type := PDNET_ETHER_TYPE_IPV6, orig_dst_mac := eth_dst_addr eth\<rparr>)"
  using assms pdnet_ethernet_hdr_roundtrip [of eth "[]"]
  by (simp add: glb_extract_packet_fields_def safely_get_header_raw_def [of _ 0] Let_def)

definition same_flow :: "'p glb_route_context option \<Rightarrow> 'q glb_route_context option \<Rightarrow> bool" where
  "same_flow x y = (case (x, y) of
     (Some a, Some b) \<Rightarrow> flow_key a = flow_key b \<and> flow_hash_hint a = flow_hash_hint b \<and>
                          original_ipproto a = original_ipproto b \<and> gue_ipproto a = gue_ipproto b
   | _ \<Rightarrow> False)"

lemma same_flowE:
  assumes "same_flow x y"
  obtains a b where "x = Some a" "y = Some b" "flow_hash_hint a = flow_hash_hint b"
    "\<And>ebpf secret cfg. glb_compute_hash ebpf a secret cfg = glb_compute_hash ebpf b secret cfg"
  using assms by (auto simp: same_flow_def intro: glb_compute_hash_flow_key split: option.splits)

text \<open>The header of the reply to a header, and the ports of the reply.\<close>

definition ipv4_reply_of :: "pdnet_ipv4_hdr \<Rightarrow> pdnet_ipv4_hdr \<Rightarrow> bool" where
  "ipv4_reply_of ip ret \<longleftrightarrow> ip4_src_addr ret = ip4_dst_addr ip \<and>
     ip4_dst_addr ret = ip4_src_addr ip \<and> ip4_next_proto ret = ip4_next_proto ip"

definition ipv6_reply_of :: "pdnet_ipv6_hdr \<Rightarrow> pdnet_ipv6_hdr \<Rightarrow> bool" where
  "ipv6_reply_of ip ret \<longleftrightarrow> ip6_src_addr ret = ip6_dst_addr ip \<and>
     ip6_dst_addr ret = ip6_src_addr ip \<and> ip6_next_proto ret = ip6_next_proto ip"

definition ports_reply_of :: "pdnet_l4_ports_hdr \<Rightarrow> pdnet_l4_ports_hdr \<Rightarrow> bool" where
  "ports_reply_of l4 ret \<longleftrightarrow> l4_src_port ret = l4_dst_port l4 \<and> l4_dst_port ret = l4_src_port l4"

lemma icmp_unreachable_same_flow:
  assumes "ntohs (eth_ether_type eth) = PDNET_ETHER_TYPE_IPV4"
    and "ntohs (eth_ether_type eth') = PDNET_ETHER_TYPE_IPV4"
    and "ip4_next_proto ip \<noteq> PDNET_IP_PROTO_ICMPV4"
    and "ip4_next_proto ip' = PDNET_IP_PROTO_ICMPV4"
    and "icmp4_type icmp = PDNET_ICMPV4_TYPE_DESTINATION_UNREACHABLE"
    and "ipv4_reply_of ip ret" and "ports_reply_of l4 retl4"
  shows "same_flow
     (glb_extract_packet_fields safely_get_header_raw (rc\<lparr>packet_data :=
        pdnet_ethernet_hdr_bytes eth @ pdnet_ipv4_hdr_bytes ip @ pdnet_l4_ports_hdr_bytes l4 @ rest\<rparr>))
     (glb_extract_packet_fields safely_get_header_raw (rc'\<lparr>packet_data :=
        pdnet_ethernet_hdr_bytes eth' @ pdnet_ipv4_hdr_bytes ip' @ pdnet_icmpv4_hdr_bytes icmp @
        pdnet_ipv4_hdr_bytes ret @ pdnet_l4_ports_hdr_bytes retl4 @ rest'\<rparr>))"
  using assms
  by (simp add: glb_extract_raw_ipv4 extract_ipv4_ports_raw extract_ipv4_unreachable_raw
      same_flow_def flow_key_def ipv4_reply_of_def ports_reply_of_def)

lemma icmpv6_too_big_same_flow:
  assumes "ntohs (eth_ether_type eth) = PDNET_ETHER_TYPE_IPV6"
    and "ntohs (eth_ether_type eth') = PDNET_ETHER_TYPE_IPV6"
    and "ip6_next_proto ip \<noteq> PDNET_IP_PROTO_ICMPV6"
    and "ip6_next_proto ip' = PDNET_IP_PROTO_ICMPV6"
    and "icmp6_type icmp = PDNET_ICMPV6_TYPE_PACKET_TOO_BIG"
    and "ipv6_reply_of ip ret" and "ports_reply_of l4 retl4"
  shows "same_flow
     (glb_extract_packet_fields safely_get_header_raw (rc\<lparr>packet_data :=
        pdnet_ethernet_hdr_bytes eth @ pdnet_ipv6_hdr_bytes ip @ pdnet_l4_ports_hdr_bytes l4 @ rest\<rparr>))
     (glb_extract_packet_fields safely_get_header_raw (rc'\<lparr>packet_data :=
        pdnet_ethernet_hdr_bytes eth' @ pdnet_ipv6_hdr_bytes ip' @ pdnet_icmpv6_hdr_bytes icmp @
        le_bytes 4 (mtu :: u32) @ pdnet_ipv6_hdr_bytes ret @ pdnet_l4_ports_hdr_bytes retl4 @ rest'\<rparr>))"
  using assms
  by (simp add: glb_extract_raw_ipv6 extract_ipv6_ports_raw extract_ipv6_too_big_raw
      same_flow_def flow_key_def ipv6_reply_of_def ports_reply_of_def)

end
