(* ===== verification/Etheraddr.thy ===== *)
theory Etheraddr
  imports GLB_Prelude
begin

text \<open>
  The MAC address parser of \<open>src/glb-director/cmdline_parse_etheraddr.c\<close>, with the character
  classes of \<open>cmdline_parse.c\<close> it uses and the part of the C library's \<open>strtoul\<close> it relies on.
  A C string is the list of its characters without the terminating NUL; the empty rest of a list is
  the position of the NUL.
\<close>

definition isblank2 :: "char \<Rightarrow> bool" where
  "isblank2 c \<longleftrightarrow> c = CHR '' '' \<or> c = CHR 0x09"

definition isendofline :: "char \<Rightarrow> bool" where
  "isendofline c \<longleftrightarrow> c = CHR 0x0A \<or> c = CHR 0x0D"

definition iscomment :: "char \<Rightarrow> bool" where
  "iscomment c \<longleftrightarrow> c = CHR ''#''"

text \<open>The end of the string, \<open>None\<close>, is the NUL character.\<close>

definition cmdline_isendoftoken :: "char option \<Rightarrow> bool" where
  "cmdline_isendoftoken c =
     (case c of None \<Rightarrow> True | Some c \<Rightarrow> iscomment c \<or> isblank2 c \<or> isendofline c)"

definition cmdline_isendofcommand :: "char option \<Rightarrow> bool" where
  "cmdline_isendofcommand c =
     (case c of None \<Rightarrow> True | Some c \<Rightarrow> iscomment c \<or> isendofline c)"

fun nb_common_chars :: "string \<Rightarrow> string \<Rightarrow> nat" where
  "nb_common_chars (a # s1) (b # s2) = (if a = b then Suc (nb_common_chars s1 s2) else 0)"
| "nb_common_chars _ _ = 0"

subsection \<open>The C library's \<open>strtoul\<close> in base 16\<close>

definition hex_digit :: "char \<Rightarrow> nat option" where
  "hex_digit c =
     (let n = of_char c :: nat in
      if 48 \<le> n \<and> n \<le> 57 then Some (n - 48)
      else if 65 \<le> n \<and> n \<le> 70 then Some (n - 55)
      else if 97 \<le> n \<and> n \<le> 102 then Some (n - 87)
      else None)"

definition isspace :: "char \<Rightarrow> bool" where
  "isspace c \<longleftrightarrow> c \<in> {CHR '' '', CHR 0x09, CHR 0x0A, CHR 0x0B, CHR 0x0C, CHR 0x0D}"

text \<open>The value of the leading hexadecimal digits and the rest of the string.\<close>

fun hex_digits :: "nat \<Rightarrow> string \<Rightarrow> nat \<times> string" where
  "hex_digits acc [] = (acc, [])"
| "hex_digits acc (c # cs) =
     (case hex_digit c of None \<Rightarrow> (acc, c # cs) | Some d \<Rightarrow> hex_digits (16 * acc + d) cs)"

text \<open>
  White space, an optional sign, an optional \<open>0x\<close> before a digit, then digits; \<open>None\<close> when there is
  no digit (\<open>end == a\<close>) or the value is out of range (\<open>errno = ERANGE\<close>).
\<close>

definition strtoul16 :: "string \<Rightarrow> (nat \<times> string) option" where
  "strtoul16 a =
     (let s = dropWhile isspace a;
          neg = (s \<noteq> [] \<and> hd s = CHR ''-'');
          s = (if s \<noteq> [] \<and> hd s \<in> {CHR ''-'', CHR ''+''} then tl s else s);
          s = (case s of
                 z # x # d # r \<Rightarrow>
                   if z = CHR ''0'' \<and> x \<in> {CHR ''x'', CHR ''X''} \<and> hex_digit d \<noteq> None then d # r else s
               | _ \<Rightarrow> s)
      in case s of
           [] \<Rightarrow> None
         | d # _ \<Rightarrow>
             if hex_digit d = None then None
             else let (v, rest) = hex_digits 0 s
                  in if 2 ^ 64 \<le> v then None
                     else Some (if neg then (2 ^ 64 - v) mod 2 ^ 64 else v, rest))"

subsection \<open>Parsing an address\<close>

text \<open>
  The \<open>do\<close> loop: at most \<open>n\<close> more groups, each ended by a colon or the end of the string; the result
  is the groups read and the rest \<open>end\<close> points to.
\<close>

fun ether_groups :: "nat \<Rightarrow> string \<Rightarrow> (nat list \<times> string) option" where
  "ether_groups 0 a = None"
| "ether_groups (Suc n) a =
     (case strtoul16 a of
        None \<Rightarrow> None
      | Some (v, end) \<Rightarrow>
          (case end of
             [] \<Rightarrow> Some ([v], [])
           | c # rest \<Rightarrow>
               if c \<noteq> CHR '':'' then None
               else if n = 0 then Some ([v], end)
               else map_option (\<lambda>(vs, e). (v # vs, e)) (ether_groups n rest)))"

definition my_ether_aton :: "string \<Rightarrow> bytes option" where
  "my_ether_aton a =
     (case ether_groups 6 a of
        None \<Rightarrow> None
      | Some (os, end) \<Rightarrow>
          if end \<noteq> [] then None
          else if length os = 6 then
            (if \<exists>v \<in> set os. v > 255 then None else Some (map of_nat os))
          else if length os = 3 then
            (if \<exists>v \<in> set os. v > 65535 then None
             else Some (concat (map (\<lambda>v. [of_nat (v div 256), of_nat (v mod 256)]) os)))
          else None)"

text \<open>
  The token parser: \<open>None\<close> is \<open>-1\<close>; otherwise the address and the token length. The destination
  is present and large enough at every call.
\<close>

definition cmdline_parse_etheraddr :: "string \<Rightarrow> (bytes \<times> nat) option" where
  "cmdline_parse_etheraddr buf =
     (if buf = [] then None
      else
        let token_len = length (takeWhile (\<lambda>c. \<not> cmdline_isendoftoken (Some c)) buf) in
        if token_len \<noteq> 17 \<and> token_len \<noteq> 14 then None
        else map_option (\<lambda>m. (m, token_len)) (my_ether_aton (take token_len buf)))"

subsection \<open>Printing and parsing\<close>

definition hex_char :: "nat \<Rightarrow> char" where
  "hex_char d = char_of (if d < 10 then 48 + d else 87 + d)"

definition octet_string :: "u8 \<Rightarrow> string" where
  "octet_string b = [hex_char (unat b div 16), hex_char (unat b mod 16)]"

text \<open>The usual notation of an address: six two-digit groups.\<close>

fun ether_string :: "bytes \<Rightarrow> string" where
  "ether_string [] = []"
| "ether_string [b] = octet_string b"
| "ether_string (b # bs) = octet_string b @ CHR '':'' # ether_string bs"

lemma unat_u8_le: "unat (b :: u8) \<le> 255"
  using unsigned_less [of b, where 'a = nat] by simp

lemma of_char_hex_char:
  "d < 16 \<Longrightarrow> (of_char (hex_char d) :: nat) = (if d < 10 then 48 + d else 87 + d)"
  by (simp add: hex_char_def)

lemma hex_digit_hex_char: "d < 16 \<Longrightarrow> hex_digit (hex_char d) = Some d"
  by (simp add: hex_digit_def of_char_hex_char)

lemma hex_digit_colon: "hex_digit CHR '':'' = None"
  by (simp add: hex_digit_def)

lemma hex_char_neq:
  assumes "d < 16" and c: "of_char c < (48 :: nat) \<or> of_char c = (58 :: nat) \<or> of_char c > (102 :: nat) \<or> of_char c = (88 :: nat)"
  shows "hex_char d \<noteq> c"
proof
  assume "hex_char d = c"
  then have "of_char c = (if d < 10 then 48 + d else 87 + d)"
    using of_char_hex_char [OF assms(1)] by metis
  then show False using c assms(1) by (auto split: if_splits)
qed

lemma not_isspace_hex_char: "d < 16 \<Longrightarrow> \<not> isspace (hex_char d)"
  by (auto simp: isspace_def hex_char_neq)

lemma strtoul16_octet:
  assumes "rest = [] \<or> hd rest = CHR '':''"
  shows "strtoul16 (octet_string b @ rest) = Some (unat b, rest)"
proof -
  have b: "unat b < 256" using unat_u8_le [of b] by simp
  define h where "h = unat b div 16"
  define l where "l = unat b mod 16"
  have d: "h < 16" "l < 16" "16 * h + l = unat b"
    using b by (auto simp: h_def l_def)
  have n: "hex_char h \<noteq> CHR ''-''" "hex_char h \<noteq> CHR ''+''" "hex_char l \<noteq> CHR ''x''" "hex_char l \<noteq> CHR ''X''"
    using d by (simp_all add: hex_char_neq)
  have "hex_digits 0 (hex_char h # hex_char l # rest) = (unat b, rest)"
    using assms d by (cases rest) (auto simp: hex_digit_hex_char hex_digit_colon)
  then show ?thesis
    using d n b
    by (cases rest) (auto simp: strtoul16_def octet_string_def h_def [symmetric] l_def [symmetric]
        not_isspace_hex_char hex_digit_hex_char Let_def)
qed

lemma ether_groups_ether_string:
  "bs \<noteq> [] \<Longrightarrow> length bs \<le> n \<Longrightarrow> ether_groups n (ether_string bs) = Some (map unat bs, [])"
proof (induction n arbitrary: bs)
  case 0
  then show ?case by simp
next
  case (Suc n)
  then obtain b bs' where bs: "bs = b # bs'" by (cases bs) auto
  show ?case
  proof (cases bs')
    case Nil
    then show ?thesis using bs strtoul16_octet [of "[]" b] by simp
  next
    case (Cons c cs)
    then have "ether_groups n (ether_string bs') = Some (map unat bs', [])"
      using Suc bs by simp
    then show ?thesis
      using Suc.prems bs Cons strtoul16_octet [of "CHR '':'' # ether_string bs'" b] by auto
  qed
qed

lemma length_ether_string: "bs \<noteq> [] \<Longrightarrow> length (ether_string bs) = 3 * length bs - 1"
  by (induction bs rule: ether_string.induct) (auto simp: octet_string_def)

lemma my_ether_aton_ether_string:
  assumes "length bs = 6"
  shows "my_ether_aton (ether_string bs) = Some bs"
proof -
  have "\<not> (\<exists>v \<in> set (map unat bs). v > 255)" by (auto simp: not_less unat_u8_le)
  moreover have "ether_groups 6 (ether_string bs) = Some (map unat bs, [])"
    using assms by (intro ether_groups_ether_string) auto
  ultimately show ?thesis
    using assms by (simp add: my_ether_aton_def map_idI o_def)
qed

lemma octet_string_no_separator:
  assumes "c \<in> set (octet_string b)"
  shows "\<not> cmdline_isendoftoken (Some c)"
proof -
  obtain d where "c = hex_char d" "d < 16"
    using assms unat_u8_le [of b] by (auto simp: octet_string_def)
  then show ?thesis
    by (auto simp: cmdline_isendoftoken_def iscomment_def isblank2_def isendofline_def hex_char_neq)
qed

lemma ether_string_no_separator:
  "c \<in> set (ether_string bs) \<Longrightarrow> \<not> cmdline_isendoftoken (Some c)"
proof (induction bs rule: ether_string.induct)
  case (3 b b' bs)
  have "\<not> cmdline_isendoftoken (Some CHR '':'')"
    by (simp add: cmdline_isendoftoken_def iscomment_def isblank2_def isendofline_def)
  then show ?case
    using 3 octet_string_no_separator by auto
qed (auto dest: octet_string_no_separator)

lemma cmdline_parse_ether_string:
  assumes "length bs = 6"
  shows "cmdline_parse_etheraddr (ether_string bs) = Some (bs, 17)"
proof -
  have "takeWhile (\<lambda>c. \<not> cmdline_isendoftoken (Some c)) (ether_string bs) = ether_string bs"
    by (simp add: takeWhile_eq_all_conv ether_string_no_separator)
  moreover have "length (ether_string bs) = 17"
    using assms by (subst length_ether_string) auto
  moreover from this have "ether_string bs \<noteq> []" by auto
  ultimately show ?thesis
    using my_ether_aton_ether_string [OF assms] by (simp only: cmdline_parse_etheraddr_def Let_def) simp
qed

text \<open>
  C28: the MAC address parser inverts the usual notation: six two-digit hexadecimal groups with
  colons are parsed to their six octets, consuming all 17 characters, for every address.
\<close>

theorem etheraddr_print_parse:
  assumes "length mac = 6"
  shows "cmdline_parse_etheraddr (ether_string mac) = Some (mac, 17)"
  using assms by (rule cmdline_parse_ether_string)

theorem etheraddr_print_parse_witness:
  "ether_string [0x00, 0x0c, 0x29, 0xab, 0xcd, 0xef] = ''00:0c:29:ab:cd:ef'' \<and>
   cmdline_parse_etheraddr ''00:0c:29:ab:cd:ef'' = Some ([0x00, 0x0c, 0x29, 0xab, 0xcd, 0xef], 17)"
proof -
  have "ether_string [0x00, 0x0c, 0x29, 0xab, 0xcd, 0xef] = ''00:0c:29:ab:cd:ef''"
    by code_simp
  then show ?thesis
    using etheraddr_print_parse [of "[0x00, 0x0c, 0x29, 0xab, 0xcd, 0xef]"] by simp
qed

end
