(* ===== verification/Director_Config.thy ===== *)
theory Director_Config
  imports Packet_Parsing Etheraddr
begin

text \<open>
  The director's settings (\<open>src/glb-director/glb_director_config.h\<close>) and their loader
  (\<open>glb_director_config.c\<close>). JSON is read with the jansson library, which is not part of the
  repository: its functions are the record \<open>jansson\<close>, an argument of everything that uses them, and
  \<open>None\<close> is a \<open>NULL\<close> pointer. The C library's \<open>inet_pton\<close> for \<open>AF_INET\<close> is the argument
  \<open>inet_pton4\<close>. A C \<open>int\<close> is a 32-bit word; conversions from jansson's 64-bit integers truncate.
\<close>

record 'j jansson =
  json_object_get :: "'j option \<Rightarrow> string \<Rightarrow> 'j option"
  json_is_string :: "'j option \<Rightarrow> bool"
  json_is_integer :: "'j option \<Rightarrow> bool"
  json_is_number :: "'j option \<Rightarrow> bool"
  json_is_array :: "'j option \<Rightarrow> bool"
  json_is_true :: "'j option \<Rightarrow> bool"
  json_is_false :: "'j option \<Rightarrow> bool"
  json_string_value :: "'j option \<Rightarrow> string option"
  json_integer_value :: "'j option \<Rightarrow> int"
  json_boolean_value :: "'j option \<Rightarrow> int"
  json_array_size :: "'j option \<Rightarrow> nat"
  json_array_get :: "'j option \<Rightarrow> nat \<Rightarrow> 'j option"

subsection \<open>Settings\<close>

definition MAX_FLOW_PATHS :: nat where "MAX_FLOW_PATHS = 32"
definition PER_CORE_MAX_FLOW_PATHS :: nat where "PER_CORE_MAX_FLOW_PATHS = MAX_FLOW_PATHS"

abbreviation CORE_WORKLOAD_NONE :: u32 where "CORE_WORKLOAD_NONE \<equiv> 0"
abbreviation CORE_WORKLOAD_RX :: u32 where "CORE_WORKLOAD_RX \<equiv> 1"
abbreviation CORE_WORKLOAD_TX :: u32 where "CORE_WORKLOAD_TX \<equiv> 2"
abbreviation CORE_WORKLOAD_DIST :: u32 where "CORE_WORKLOAD_DIST \<equiv> 4"
abbreviation CORE_WORKLOAD_WORK :: u32 where "CORE_WORKLOAD_WORK \<equiv> 8"
abbreviation CORE_WORKLOAD_KNI :: u32 where "CORE_WORKLOAD_KNI \<equiv> 16"
abbreviation STATSD_PORT_DEFAULT :: u16 where "STATSD_PORT_DEFAULT \<equiv> 28125"

record glb_director_flow_path =
  rx_port_id :: u32
  rx_queue_id :: u32
  tx_port_id :: u32
  tx_queue_id :: u32

record glb_director_lcore_config =
  workloads :: u32
  lc_flow_paths :: "glb_director_flow_path list"
  num_dist_workers :: u32
  source_dist_core :: u32

record glb_director_config =
  local_ether_addr :: mac_addr
  gateway_ether_addr :: mac_addr
  local_ip_addr :: u32
  kni_enabled :: bool
  kni_ip :: u32
  nb_queues :: u8
  forwarding_table_path :: string
  flow_paths :: "glb_director_flow_path list"
  lcore_configs :: "glb_director_lcore_config list"
  forward_icmp_ping_responses :: bool
  rx_drop_en :: bool
  hash_fields :: glb_director_hash_fields
  use_alt_hash_fields :: bool
  alt_hash_fields :: glb_director_hash_fields
  statsd_port :: u16

subsection \<open>Results of the loader\<close>

text \<open>
  \<open>ReturnNull\<close> and \<open>ExitProcess\<close> are the two ways the loader reports an error; \<open>OutOfBounds\<close> is a
  write past the end of the array \<open>flow_paths\<close>.
\<close>

datatype load_error = ReturnNull | ExitProcess | OutOfBounds

fun bind_res :: "'e + 'a \<Rightarrow> ('a \<Rightarrow> 'e + 'b) \<Rightarrow> 'e + 'b" where
  "bind_res (Inl e) f = Inl e"
| "bind_res (Inr a) f = f a"

fun fold_res :: "('x \<Rightarrow> 'a \<Rightarrow> 'e + 'a) \<Rightarrow> 'x list \<Rightarrow> 'a \<Rightarrow> 'e + 'a" where
  "fold_res f [] a = Inr a"
| "fold_res f (x # xs) a = bind_res (f x a) (fold_res f xs)"

subsection \<open>The loader\<close>

text \<open>The loop of \<open>json_int_array_to_c\<close>: skip what is not a number, stop after \<open>max_out\<close> numbers.\<close>

fun json_ints :: "'j jansson \<Rightarrow> 'j option list \<Rightarrow> nat \<Rightarrow> u32 list" where
  "json_ints J [] max_out = []"
| "json_ints J (x # xs) max_out =
     (if max_out = 0 then []
      else if \<not> json_is_number J x then json_ints J xs max_out
      else of_int (json_integer_value J x) # json_ints J xs (max_out - 1))"

definition json_int_array_to_c :: "'j jansson \<Rightarrow> 'j option \<Rightarrow> nat \<Rightarrow> u32 list" where
  "json_int_array_to_c J array max_out =
     (if array = None \<or> \<not> json_is_array J array then []
      else json_ints J (map (json_array_get J array) [0..<json_array_size J array]) max_out)"

definition parse_hash_fields ::
    "'j jansson \<Rightarrow> 'j option \<Rightarrow> load_error + glb_director_hash_fields" where
  "parse_hash_fields J cfg =
     (let out = \<lparr>hf_src_addr = json_is_true J (json_object_get J cfg ''src_addr''),
                 hf_dst_addr = json_is_true J (json_object_get J cfg ''dst_addr''),
                 hf_src_port = json_is_true J (json_object_get J cfg ''src_port''),
                 hf_dst_port = json_is_true J (json_object_get J cfg ''dst_port'')\<rparr>
      in if hf_src_addr out \<or> hf_dst_addr out \<or> hf_src_port out \<or> hf_dst_port out then Inr out
         else Inl ReturnNull)"

definition load_flow_path :: "'j jansson \<Rightarrow> 'j option \<Rightarrow> glb_director_flow_path" where
  "load_flow_path J flow_path =
     \<lparr>rx_port_id = of_int (json_integer_value J (json_object_get J flow_path ''rx_port'')),
      rx_queue_id = of_int (json_integer_value J (json_object_get J flow_path ''rx_queue'')),
      tx_port_id = of_int (json_integer_value J (json_object_get J flow_path ''tx_port'')),
      tx_queue_id = of_int (json_integer_value J (json_object_get J flow_path ''tx_queue''))\<rparr>"

text \<open>Decimal digits, for the key \<open>lcore-%d\<close>.\<close>

fun decimal :: "nat \<Rightarrow> string" where
  "decimal n = (if n < 10 then [char_of (48 + n)] else decimal (n div 10) @ [char_of (48 + n mod 10)])"

definition load_lcore_flow_paths ::
    "'j jansson \<Rightarrow> 'j option \<Rightarrow> glb_director_flow_path list \<Rightarrow> glb_director_lcore_config \<Rightarrow>
     load_error + glb_director_lcore_config" where
  "load_lcore_flow_paths J core paths lc =
     (if workloads lc AND (CORE_WORKLOAD_RX OR CORE_WORKLOAD_TX) = 0 then Inr lc
      else
        let item = json_object_get J core ''flow_paths'' in
        if json_array_size J item > PER_CORE_MAX_FLOW_PATHS then Inl ReturnNull
        else
          let ids = json_int_array_to_c J item PER_CORE_MAX_FLOW_PATHS in
          if \<exists>i \<in> set ids. unat i \<ge> length paths then Inl ReturnNull
          else Inr (lc\<lparr>lc_flow_paths := map (\<lambda>i. paths ! unat i) ids\<rparr>))"

definition load_lcore_dist ::
    "'j jansson \<Rightarrow> 'j option \<Rightarrow> glb_director_lcore_config \<Rightarrow> load_error + glb_director_lcore_config" where
  "load_lcore_dist J core lc =
     (if workloads lc AND CORE_WORKLOAD_DIST = 0 then Inr lc
      else case json_object_get J core ''num_dist_workers'' of
             None \<Rightarrow> Inl ReturnNull
           | Some val \<Rightarrow>
               let lc = lc\<lparr>num_dist_workers := of_int (json_integer_value J (Some val))\<rparr>
               in if num_dist_workers lc < 1 then Inl ReturnNull else Inr lc)"

definition load_lcore_work ::
    "'j jansson \<Rightarrow> nat \<Rightarrow> 'j option \<Rightarrow> glb_director_lcore_config \<Rightarrow>
     load_error + glb_director_lcore_config" where
  "load_lcore_work J RTE_MAX_LCORE core lc =
     (if workloads lc AND CORE_WORKLOAD_WORK = 0 then Inr lc
      else case json_object_get J core ''work_source'' of
             None \<Rightarrow> Inl ReturnNull
           | Some val \<Rightarrow>
               let lc = lc\<lparr>source_dist_core := of_int (json_integer_value J (Some val))\<rparr>
               in if unat (source_dist_core lc) > RTE_MAX_LCORE then Inl ReturnNull else Inr lc)"

definition load_lcore_workloads :: "'j jansson \<Rightarrow> 'j option \<Rightarrow> u32" where
  "load_lcore_workloads J core =
     (let flag = (\<lambda>name w. if json_is_true J (json_object_get J core name) then w else 0)
      in CORE_WORKLOAD_NONE OR flag ''rx'' CORE_WORKLOAD_RX OR flag ''tx'' CORE_WORKLOAD_TX OR
         flag ''dist'' CORE_WORKLOAD_DIST OR flag ''work'' CORE_WORKLOAD_WORK OR
         flag ''kni'' CORE_WORKLOAD_KNI)"

definition load_lcore ::
    "'j jansson \<Rightarrow> nat \<Rightarrow> 'j option \<Rightarrow> nat \<Rightarrow> glb_director_config \<Rightarrow> load_error + glb_director_config" where
  "load_lcore J RTE_MAX_LCORE lcores c cfg =
     (let core = json_object_get J lcores (''lcore-'' @ decimal c) in
      if core = None then Inr cfg
      else
        let w = load_lcore_workloads J core;
            cfg = (if w AND CORE_WORKLOAD_KNI \<noteq> 0 then cfg\<lparr>kni_enabled := True\<rparr> else cfg);
            lc = (lcore_configs cfg ! c)\<lparr>workloads := w\<rparr>
        in bind_res (load_lcore_flow_paths J core (flow_paths cfg) lc)
             (\<lambda>lc. bind_res (load_lcore_dist J core lc)
             (\<lambda>lc. bind_res (load_lcore_work J RTE_MAX_LCORE core lc)
             (\<lambda>lc. Inr (cfg\<lparr>lcore_configs := (lcore_configs cfg)[c := lc]\<rparr>)))))"

definition zero_hash_fields :: glb_director_hash_fields where
  "zero_hash_fields =
     \<lparr>hf_src_addr = False, hf_dst_addr = False, hf_src_port = False, hf_dst_port = False\<rparr>"

definition zero_lcore_config :: glb_director_lcore_config where
  "zero_lcore_config =
     \<lparr>workloads = 0, lc_flow_paths = [], num_dist_workers = 0, source_dist_core = 0\<rparr>"

text \<open>The structure after \<open>memset(cfg, 0, ...)\<close>.\<close>

definition zero_director_config :: "nat \<Rightarrow> glb_director_config" where
  "zero_director_config RTE_MAX_LCORE =
     \<lparr>local_ether_addr = 0, gateway_ether_addr = 0, local_ip_addr = 0, kni_enabled = False,
      kni_ip = 0, nb_queues = 0, forwarding_table_path = [], flow_paths = [],
      lcore_configs = replicate RTE_MAX_LCORE zero_lcore_config,
      forward_icmp_ping_responses = False, rx_drop_en = False, hash_fields = zero_hash_fields,
      use_alt_hash_fields = False, alt_hash_fields = zero_hash_fields, statsd_port = 0\<rparr>"

text \<open>The scalar settings, up to \<open>rx_drop_en\<close>.\<close>

definition load_scalars ::
    "'j jansson \<Rightarrow> (string \<Rightarrow> u32 option) \<Rightarrow> 'j option \<Rightarrow> glb_director_config \<Rightarrow>
     load_error + glb_director_config" where
  "load_scalars J inet_pton4 root cfg =
     (let get = json_object_get J root;
          str = (\<lambda>name. if get name \<noteq> None \<and> json_is_string J (get name)
                        then json_string_value J (get name) else None);
          port = get ''statsd_port'';
          cfg = cfg\<lparr>statsd_port := (if port \<noteq> None \<and> json_is_integer J port
                                   then of_int (json_integer_value J port) else STATSD_PORT_DEFAULT)\<rparr>
      in case str ''outbound_gateway_mac'' of
           None \<Rightarrow> Inl ExitProcess
         | Some mac \<Rightarrow>
       (case cmdline_parse_etheraddr mac of
           None \<Rightarrow> Inl ReturnNull
         | Some (m, _) \<Rightarrow>
       (case str ''outbound_src_ip'' of
           None \<Rightarrow> Inl ExitProcess
         | Some ip \<Rightarrow>
       (case inet_pton4 ip of
           None \<Rightarrow> Inl ReturnNull
         | Some a \<Rightarrow>
             let cfg = cfg\<lparr>gateway_ether_addr := le_word m, local_ip_addr := a\<rparr>;
                 queues = get ''num_worker_queues'';
                 ping = get ''forward_icmp_ping_responses'';
                 drop_en = get ''rx_drop_en'';
                 rest = (\<lambda>cfg. Inr (cfg\<lparr>
                   nb_queues := (if queues \<noteq> None \<and> json_is_integer J queues
                                 then of_int (json_integer_value J queues) else 1),
                   forward_icmp_ping_responses := \<not> (ping \<noteq> None \<and> json_is_false J ping),
                   rx_drop_en := \<not> (drop_en \<noteq> None \<and> json_is_false J drop_en)\<rparr>))
             in case str ''kni_ip'' of
                  None \<Rightarrow> rest (cfg\<lparr>kni_ip := 0\<rparr>)
                | Some k \<Rightarrow>
                    (case inet_pton4 k of
                       None \<Rightarrow> Inl ReturnNull
                     | Some a \<Rightarrow> rest (cfg\<lparr>kni_ip := a\<rparr>))))))"

definition load_flow_paths ::
    "'j jansson \<Rightarrow> 'j option \<Rightarrow> glb_director_config \<Rightarrow> load_error + glb_director_config" where
  "load_flow_paths J root cfg =
     (let paths = json_object_get J root ''flow_paths'' in
      if paths = None then Inl ReturnNull
      else if json_array_size J paths > MAX_FLOW_PATHS then Inl OutOfBounds
      else Inr (cfg\<lparr>flow_paths :=
             map (\<lambda>f. load_flow_path J (json_array_get J paths f)) [0..<json_array_size J paths]\<rparr>))"

definition load_lcores ::
    "'j jansson \<Rightarrow> nat \<Rightarrow> 'j option \<Rightarrow> glb_director_config \<Rightarrow> load_error + glb_director_config" where
  "load_lcores J RTE_MAX_LCORE root cfg =
     (let lcores = json_object_get J root ''lcores'' in
      if lcores = None then Inl ReturnNull
      else fold_res (load_lcore J RTE_MAX_LCORE lcores) [0..<RTE_MAX_LCORE] (cfg\<lparr>kni_enabled := False\<rparr>))"

definition load_hash_fields ::
    "'j jansson \<Rightarrow> 'j option \<Rightarrow> glb_director_config \<Rightarrow> load_error + glb_director_config" where
  "load_hash_fields J root cfg =
     (let cfg = cfg\<lparr>hash_fields := zero_hash_fields\<lparr>hf_src_addr := True\<rparr>, use_alt_hash_fields := False\<rparr>;
          hash = json_object_get J root ''hash_fields'';
          alt = json_object_get J root ''alt_hash_fields''
      in bind_res
           (if hash = None then Inr cfg
            else bind_res (parse_hash_fields J hash) (\<lambda>h. Inr (cfg\<lparr>hash_fields := h\<rparr>)))
           (\<lambda>cfg.
              if alt = None then Inr cfg
              else bind_res (parse_hash_fields J alt)
                     (\<lambda>h. Inr (cfg\<lparr>use_alt_hash_fields := True, alt_hash_fields := h\<rparr>))))"

text \<open>
  \<open>root\<close> is the document \<open>json_load_file\<close> returns; \<open>malloc_ok\<close>, \<open>config_ok\<close> and \<open>table_ok\<close> are the
  outcomes of \<open>malloc\<close> and of the two \<open>access\<close> calls.
\<close>

definition glb_director_config_load_file ::
    "'j jansson \<Rightarrow> (string \<Rightarrow> u32 option) \<Rightarrow> nat \<Rightarrow> bool \<Rightarrow> bool \<Rightarrow> bool \<Rightarrow> 'j option \<Rightarrow> string \<Rightarrow>
     load_error + glb_director_config" where
  "glb_director_config_load_file J inet_pton4 RTE_MAX_LCORE malloc_ok config_ok table_ok root table_path =
     (if \<not> malloc_ok then Inl ReturnNull
      else if \<not> config_ok \<or> \<not> table_ok then Inl ExitProcess
      else if root = None then Inl ExitProcess
      else
        let cfg = (zero_director_config RTE_MAX_LCORE)\<lparr>forwarding_table_path := table_path\<rparr>
        in bind_res (load_scalars J inet_pton4 root cfg)
             (\<lambda>cfg. bind_res (load_flow_paths J root cfg)
             (\<lambda>cfg. bind_res (load_lcores J RTE_MAX_LCORE root cfg)
             (load_hash_fields J root))))"

subsection \<open>Invariant of loaded settings\<close>

definition lcore_config_wf :: "nat \<Rightarrow> glb_director_flow_path list \<Rightarrow> glb_director_lcore_config \<Rightarrow> bool" where
  "lcore_config_wf RTE_MAX_LCORE paths lc \<longleftrightarrow>
     set (lc_flow_paths lc) \<subseteq> set paths \<and> length (lc_flow_paths lc) \<le> PER_CORE_MAX_FLOW_PATHS \<and>
     (workloads lc AND CORE_WORKLOAD_DIST \<noteq> 0 \<longrightarrow> num_dist_workers lc \<noteq> 0) \<and>
     unat (source_dist_core lc) \<le> RTE_MAX_LCORE"

definition director_config_wf :: "nat \<Rightarrow> glb_director_config \<Rightarrow> bool" where
  "director_config_wf RTE_MAX_LCORE cfg \<longleftrightarrow>
     length (flow_paths cfg) \<le> MAX_FLOW_PATHS \<and>
     length (lcore_configs cfg) = RTE_MAX_LCORE \<and>
     (\<forall>lc \<in> set (lcore_configs cfg). lcore_config_wf RTE_MAX_LCORE (flow_paths cfg) lc) \<and>
     (\<forall>lc \<in> set (lcore_configs cfg). workloads lc AND CORE_WORKLOAD_KNI \<noteq> 0 \<longrightarrow> kni_enabled cfg)"

lemma bind_res_Inr: "bind_res r f = Inr b \<longleftrightarrow> (\<exists>a. r = Inr a \<and> f a = Inr b)"
  by (cases r) auto

lemma fold_res_invariant:
  assumes "fold_res f xs a = Inr b" "P a"
    and "\<And>x a b. x \<in> set xs \<Longrightarrow> P a \<Longrightarrow> f x a = Inr b \<Longrightarrow> P b"
  shows "P b"
  using assms by (induction xs arbitrary: a) (auto simp: bind_res_Inr)

lemma length_json_ints: "length (json_ints J xs n) \<le> n"
  by (induction J xs n rule: json_ints.induct) auto

lemma length_json_int_array_to_c: "length (json_int_array_to_c J a n) \<le> n"
  by (simp add: json_int_array_to_c_def length_json_ints)

lemma load_lcore_flow_paths_Inr:
  assumes "load_lcore_flow_paths J core paths lc = Inr lc'"
    and "set (lc_flow_paths lc) \<subseteq> set paths" "length (lc_flow_paths lc) \<le> PER_CORE_MAX_FLOW_PATHS"
  shows "set (lc_flow_paths lc') \<subseteq> set paths \<and> length (lc_flow_paths lc') \<le> PER_CORE_MAX_FLOW_PATHS \<and>
    workloads lc' = workloads lc \<and> num_dist_workers lc' = num_dist_workers lc \<and>
    source_dist_core lc' = source_dist_core lc"
  using assms length_json_int_array_to_c
  by (auto simp: load_lcore_flow_paths_def Let_def not_le split: if_splits)

lemma load_lcore_dist_Inr:
  assumes "load_lcore_dist J core lc = Inr lc'"
  shows "lc_flow_paths lc' = lc_flow_paths lc \<and> workloads lc' = workloads lc \<and>
    source_dist_core lc' = source_dist_core lc \<and>
    (workloads lc AND CORE_WORKLOAD_DIST \<noteq> 0 \<longrightarrow> num_dist_workers lc' \<noteq> 0)"
  using assms
  by (auto simp: load_lcore_dist_def Let_def not_less split: if_splits option.splits)

lemma load_lcore_work_Inr:
  assumes "load_lcore_work J m core lc = Inr lc'" "unat (source_dist_core lc) \<le> m"
  shows "lc_flow_paths lc' = lc_flow_paths lc \<and> workloads lc' = workloads lc \<and>
    num_dist_workers lc' = num_dist_workers lc \<and> unat (source_dist_core lc') \<le> m"
  using assms
  by (auto simp: load_lcore_work_def Let_def not_less split: if_splits option.splits)

lemma load_lcore_wf:
  assumes "load_lcore J m lcores c cfg = Inr cfg'" "director_config_wf m cfg" "c < m"
  shows "director_config_wf m cfg'"
proof (cases "json_object_get J lcores (''lcore-'' @ decimal c)")
  case None
  then show ?thesis using assms by (simp add: load_lcore_def)
next
  case (Some core)
  define w where "w = load_lcore_workloads J (Some core)"
  define lc where "lc = (lcore_configs cfg ! c)\<lparr>workloads := w\<rparr>"
  have wf: "lcore_config_wf m (flow_paths cfg) (lcore_configs cfg ! c)"
    using assms by (auto simp: director_config_wf_def)
  have kc: "lcore_configs (if b then cfg\<lparr>kni_enabled := True\<rparr> else cfg) = lcore_configs cfg"
    "flow_paths (if b then cfg\<lparr>kni_enabled := True\<rparr> else cfg) = flow_paths cfg" for b
    by simp_all
  obtain l1 l2 l3 where l: "load_lcore_flow_paths J (Some core) (flow_paths cfg) lc = Inr l1"
    "load_lcore_dist J (Some core) l1 = Inr l2" "load_lcore_work J m (Some core) l2 = Inr l3"
    and cfg': "cfg' = (if w AND CORE_WORKLOAD_KNI \<noteq> 0 then cfg\<lparr>kni_enabled := True\<rparr> else cfg)
                       \<lparr>lcore_configs := (lcore_configs cfg)[c := l3]\<rparr>"
    using assms(1) Some
    unfolding load_lcore_def Let_def lc_def w_def by (auto simp: bind_res_Inr kc simp del: if_split_asm)
  have lc: "set (lc_flow_paths lc) \<subseteq> set (flow_paths cfg)" "workloads lc = w"
    "length (lc_flow_paths lc) \<le> PER_CORE_MAX_FLOW_PATHS" "unat (source_dist_core lc) \<le> m"
    using wf by (simp_all add: lc_def lcore_config_wf_def)
  have l3: "lcore_config_wf m (flow_paths cfg) l3" "workloads l3 = w"
    using load_lcore_flow_paths_Inr [OF l(1) lc(1,3)] load_lcore_dist_Inr [OF l(2)]
      load_lcore_work_Inr [OF l(3)] lc by (auto simp: lcore_config_wf_def)
  show ?thesis
  proof -
    have upd: "set ((lcore_configs cfg)[c := l3]) \<subseteq> insert l3 (set (lcore_configs cfg))"
      by (rule set_update_subset_insert)
    then have "\<forall>x \<in> set ((lcore_configs cfg)[c := l3]). lcore_config_wf m (flow_paths cfg) x"
      using assms(2) l3(1) by (auto simp: director_config_wf_def)
    moreover have "\<forall>x \<in> set ((lcore_configs cfg)[c := l3]). workloads x AND CORE_WORKLOAD_KNI \<noteq> 0 \<longrightarrow>
        kni_enabled cfg \<or> w AND CORE_WORKLOAD_KNI \<noteq> 0"
      using upd assms(2) l3(2) by (auto simp: director_config_wf_def)
    ultimately show ?thesis
      using assms(2) unfolding cfg' director_config_wf_def
      by (cases "w AND CORE_WORKLOAD_KNI = 0") simp_all
  qed
qed

lemma load_hash_fields_Inr:
  assumes "load_hash_fields J root cfg = Inr cfg'"
  shows "hash_fields_nonempty (hash_fields cfg') \<and>
    (use_alt_hash_fields cfg' \<longrightarrow> hash_fields_nonempty (alt_hash_fields cfg')) \<and>
    flow_paths cfg' = flow_paths cfg \<and> lcore_configs cfg' = lcore_configs cfg \<and>
    kni_enabled cfg' = kni_enabled cfg"
proof -
  have p: "parse_hash_fields J x = Inr h \<Longrightarrow> hash_fields_nonempty h" for x h
    by (auto simp: parse_hash_fields_def hash_fields_nonempty_def Let_def split: if_splits)
  have "hash_fields_nonempty (zero_hash_fields\<lparr>hf_src_addr := True\<rparr>)"
    by (simp add: hash_fields_nonempty_def)
  then show ?thesis
    using assms p
    by (cases "json_object_get J root ''hash_fields''"; cases "json_object_get J root ''alt_hash_fields''")
       (auto simp: load_hash_fields_def Let_def bind_res_Inr)
qed

lemma load_scalars_Inr:
  assumes "load_scalars J inet root cfg = Inr cfg'"
  shows "lcore_configs cfg' = lcore_configs cfg"
  using assms unfolding load_scalars_def Let_def
  by (simp split: option.split_asm prod.split_asm del: if_split_asm) (auto simp del: if_split_asm)

lemma load_file_wf:
  assumes "glb_director_config_load_file J inet m b1 b2 b3 root path = Inr cfg"
  shows "director_config_wf m cfg \<and> hash_fields_nonempty (hash_fields cfg) \<and>
    (use_alt_hash_fields cfg \<longrightarrow> hash_fields_nonempty (alt_hash_fields cfg))"
proof -
  obtain c1 c2 c3 where
    c: "load_scalars J inet root ((zero_director_config m)\<lparr>forwarding_table_path := path\<rparr>) = Inr c1"
      "load_flow_paths J root c1 = Inr c2" "load_lcores J m root c2 = Inr c3"
      "load_hash_fields J root c3 = Inr cfg"
    using assms unfolding glb_director_config_load_file_def
    by (auto simp: bind_res_Inr Let_def split: if_splits)
  have "lcore_configs c2 = replicate m zero_lcore_config" "length (flow_paths c2) \<le> MAX_FLOW_PATHS"
    using c(2) load_scalars_Inr [OF c(1)]
    by (auto simp: load_flow_paths_def zero_director_config_def Let_def split: if_splits)
  then have "director_config_wf m (c2\<lparr>kni_enabled := False\<rparr>)"
    by (auto simp: director_config_wf_def lcore_config_wf_def zero_lcore_config_def)
  moreover have "\<exists>lcores. fold_res (load_lcore J m lcores) [0..<m] (c2\<lparr>kni_enabled := False\<rparr>) = Inr c3"
    using c(3) by (auto simp: load_lcores_def Let_def split: if_splits)
  ultimately have "director_config_wf m c3"
    by (auto elim!: fold_res_invariant [where P = "director_config_wf m"] intro: load_lcore_wf)
  then show ?thesis
    using load_hash_fields_Inr [OF c(4)] by (simp add: director_config_wf_def)
qed

subsection \<open>A small JSON library, for examples\<close>

datatype json = JTrue | JFalse | JInt int | JStr string | JArr "json list" | JObj "(string \<times> json) list"

fun json_get :: "json option \<Rightarrow> string \<Rightarrow> json option" where
  "json_get (Some (JObj kvs)) k = map_of kvs k"
| "json_get _ k = None"

definition json_lib :: "json jansson" where
  "json_lib =
     \<lparr>json_object_get = json_get,
      json_is_string = (\<lambda>j. case j of Some (JStr s) \<Rightarrow> True | _ \<Rightarrow> False),
      json_is_integer = (\<lambda>j. case j of Some (JInt i) \<Rightarrow> True | _ \<Rightarrow> False),
      json_is_number = (\<lambda>j. case j of Some (JInt i) \<Rightarrow> True | _ \<Rightarrow> False),
      json_is_array = (\<lambda>j. case j of Some (JArr xs) \<Rightarrow> True | _ \<Rightarrow> False),
      json_is_true = (\<lambda>j. j = Some JTrue),
      json_is_false = (\<lambda>j. j = Some JFalse),
      json_string_value = (\<lambda>j. case j of Some (JStr s) \<Rightarrow> Some s | _ \<Rightarrow> None),
      json_integer_value = (\<lambda>j. case j of Some (JInt i) \<Rightarrow> i | _ \<Rightarrow> 0),
      json_boolean_value = (\<lambda>j. if j = Some JTrue then 1 else 0),
      json_array_size = (\<lambda>j. case j of Some (JArr xs) \<Rightarrow> length xs | _ \<Rightarrow> 0),
      json_array_get = (\<lambda>j i. case j of Some (JArr xs) \<Rightarrow>
         (if i < length xs then Some (xs ! i) else None) | _ \<Rightarrow> None)\<rparr>"

definition example_settings :: "int \<Rightarrow> json" where
  "example_settings work_source = JObj [
     (''outbound_gateway_mac'', JStr ''00:0c:29:ab:cd:ef''),
     (''outbound_src_ip'', JStr ''10.0.0.1''),
     (''flow_paths'', JArr [JObj [(''rx_port'', JInt 0), (''rx_queue'', JInt 0),
                                    (''tx_port'', JInt 0), (''tx_queue'', JInt 1)]]),
     (''lcores'', JObj [
        (''lcore-0'', JObj [(''rx'', JTrue), (''tx'', JTrue), (''dist'', JTrue),
                            (''flow_paths'', JArr [JInt 0]), (''num_dist_workers'', JInt 1)]),
        (''lcore-1'', JObj [(''work'', JTrue), (''work_source'', JInt work_source)])]),
     (''hash_fields'', JObj [(''src_addr'', JTrue), (''src_port'', JTrue)])]"


lemma example_mac: "cmdline_parse_etheraddr ''00:0c:29:ab:cd:ef'' =
    Some ([0x00, 0x0c, 0x29, 0xab, 0xcd, 0xef], 17)"
proof -
  have "ether_string [0x00, 0x0c, 0x29, 0xab, 0xcd, 0xef] = ''00:0c:29:ab:cd:ef''"
    by code_simp
  then show ?thesis
    using cmdline_parse_ether_string [of "[0x00, 0x0c, 0x29, 0xab, 0xcd, 0xef]"] by simp
qed

lemma decimal_01: "decimal 0 = ''0''" "decimal (Suc 0) = ''1''"
  by code_simp+

lemma upt_2: "[0..<2] = [0, Suc 0]"
  by (simp add: upt_rec)

declare decimal.simps [simp del]

lemmas loader_eval = json_lib_def example_settings_def Let_def

lemma example_scalars:
  "\<exists>c. load_scalars json_lib (\<lambda>_. Some 0x0100000a) (Some (example_settings n)) cfg = Inr c \<and>
     lcore_configs c = lcore_configs cfg"
  by (simp add: load_scalars_def loader_eval example_mac)

lemma example_flow_paths:
  "\<exists>c p. load_flow_paths json_lib (Some (example_settings n)) cfg = Inr c \<and>
     lcore_configs c = lcore_configs cfg \<and> flow_paths c = [p]"
  by (simp add: load_flow_paths_def loader_eval MAX_FLOW_PATHS_def)

lemma example_lcores:
  assumes "flow_paths cfg = [p]" "lcore_configs cfg = [a, b]" "n = 0 \<or> n = 2"
  shows "\<exists>c a. load_lcores json_lib 2 (Some (example_settings n)) cfg = Inr c \<and>
     lcore_configs c = [a, b\<lparr>workloads := 8, source_dist_core := of_int n\<rparr>]"
  using assms
  by (elim disjE) (simp_all add: load_lcores_def loader_eval load_lcore_def upt_2 decimal_01 load_lcore_workloads_def
     load_lcore_flow_paths_def PER_CORE_MAX_FLOW_PATHS_def MAX_FLOW_PATHS_def json_int_array_to_c_def
     load_lcore_dist_def load_lcore_work_def)

lemma example_hash_fields:
  "\<exists>c. load_hash_fields json_lib (Some (example_settings n)) cfg = Inr c \<and>
     lcore_configs c = lcore_configs cfg"
  by (simp add: load_hash_fields_def loader_eval parse_hash_fields_def)

lemma example_loads:
  assumes "n = 0 \<or> n = 2"
  shows "\<exists>cfg a. glb_director_config_load_file json_lib (\<lambda>_. Some 0x0100000a) 2 True True True
      (Some (example_settings n)) ''t'' = Inr cfg \<and>
      lcore_configs cfg = [a, zero_lcore_config\<lparr>workloads := 8, source_dist_core := of_int n\<rparr>]"
proof -
  let ?root = "Some (example_settings n)"
  obtain c1 where 1: "load_scalars json_lib (\<lambda>_. Some 0x0100000a) ?root
      ((zero_director_config 2)\<lparr>forwarding_table_path := ''t''\<rparr>) = Inr c1"
    "lcore_configs c1 = [zero_lcore_config, zero_lcore_config]"
    using example_scalars [of n "(zero_director_config 2)\<lparr>forwarding_table_path := ''t''\<rparr>"]
    by (auto simp: zero_director_config_def numeral_2_eq_2)
  obtain c2 p where 2: "load_flow_paths json_lib ?root c1 = Inr c2" "lcore_configs c2 = lcore_configs c1"
    "flow_paths c2 = [p]"
    using example_flow_paths by blast
  obtain c3 a where 3: "load_lcores json_lib 2 ?root c2 = Inr c3"
    "lcore_configs c3 = [a, zero_lcore_config\<lparr>workloads := 8, source_dist_core := of_int n\<rparr>]"
    using example_lcores [OF 2(3) _ assms] 1(2) 2(2) by metis
  show ?thesis
    using 1(1) 2(1) 3 example_hash_fields [of n c3] by (auto simp: glb_director_config_load_file_def)
qed

subsection \<open>Properties\<close>




end
