(* ===== verification/Encap.thy ===== *)
theory Encap
  imports Fwd_Config Director_Config
begin

text \<open>
  Routing and encapsulation in the DPDK director: \<open>src/glb-director/glb_encap.c\<close> (hops of a packet,
  the outer headers), \<open>glb_encap_dpdk.c\<close> (the packet buffer, checksums) and \<open>glb_encap_pcap.c\<close> (the
  offline tool). DPDK is not part of the repository: its packet buffer functions and checksum
  functions are arguments; what is used of their documented behaviour is stated as \<open>mbuf_laws\<close>.
\<close>

subsection \<open>Hops\<close>

text \<open>
  \<open>None\<close> is \<open>-1\<close>. The hop array of the route context has \<open>GLB_MAX_HOPS\<close> slots.
\<close>

definition glb_add_packet_route ::
    "bytes \<Rightarrow> 'p glb_route_context \<Rightarrow> glb_director_hash_fields \<Rightarrow> 'p glb_route_context option" where
  "glb_add_packet_route table rc hash_field_cfg =
     (let hash = glb_compute_hash False rc (table_secure_key table) hash_field_cfg;
          hash_idx = unat (hash AND GLB_FMT_TABLE_HASHMASK);
          entry = table_entry_at table hash_idx;
          primary = table_backend table (unat (te_primary entry));
          secondary = table_backend table (unat (te_secondary entry))
      in if unat (hop_count rc) + 2 > GLB_MAX_HOPS then None
         else
           let rc = (if hop_count rc = 0 then rc\<lparr>pkt_hash := hash\<rparr> else rc);
               n = unat (hop_count rc)
           in Some (rc\<lparr>ipv4_hops := (ipv4_hops rc)[n := ucast (be_addr primary),
                                                 n + 1 := ucast (be_addr secondary)],
                       hop_count := hop_count rc + 2\<rparr>))"

definition glb_calculate_packet_route ::
    "('p \<Rightarrow> nat \<Rightarrow> nat \<Rightarrow> bytes option) \<Rightarrow> glb_director_config \<Rightarrow> glb_fwd_config_ctx \<Rightarrow> nat \<Rightarrow> 'p \<Rightarrow>
     'p glb_route_context \<Rightarrow> 'p glb_route_context option" where
  "glb_calculate_packet_route encap_packet_data_read cfg ctx table_id pkt rc = do {
     let table = content_table (raw_config ctx) table_id;
     let rc = rc\<lparr>packet_data := pkt, linearisation_space_offset := 0\<rparr>;
     rc \<leftarrow> glb_extract_packet_fields (safely_get_header_lineariser encap_packet_data_read) rc;
     let rc = rc\<lparr>hop_count := 0\<rparr>;
     rc \<leftarrow> glb_add_packet_route table rc (hash_fields cfg);
     if use_alt_hash_fields cfg then glb_add_packet_route table rc (alt_hash_fields cfg)
     else Some rc
   }"

subsection \<open>The outer headers\<close>

text \<open>
  The bytes \<open>glb_encapsulate_packet\<close> leaves at \<open>eth_hdr\<close>: every byte of the headers is assigned.
\<close>

definition glb_encapsulate_packet :: "glb_director_config \<Rightarrow> 'p glb_route_context \<Rightarrow> bytes" where
  "glb_encapsulate_packet cfg rc =
     (let flow_hash = flow_hash_hint rc;
          inner_ip_total_length = unat (ip_total_length rc);
          first_hop_ip = ipv4_hops rc ! 0;
          remaining_hop_count = (ucast (hop_count rc) - 1 :: u32);
          hops_len = 4 * unat remaining_hop_count;
          eth_hdr = \<lparr>eth_dst_addr = gateway_ether_addr cfg, eth_src_addr = local_ether_addr cfg,
                     eth_ether_type = htons PDNET_ETHER_TYPE_IPV4\<rparr>;
          ipv4_hdr = \<lparr>ip4_ihl = PDNET_IPV4_HEADER_LEN, ip4_version = PDNET_IPV4_VERSION,
                      ip4_ecn = 0, ip4_dscp = 0,
                      ip4_total_length = htons (of_nat (sizeof_ipv4 + sizeof_udp + sizeof_gue +
                                                        hops_len + inner_ip_total_length)),
                      ip4_identification = 0,
                      ip4_fragment_offset = htons PDNET_IPV4_FLAG_DF,
                      ip4_time_to_live = PDNET_IPV4_DEFAULT_TTL,
                      ip4_next_proto = PDNET_IP_PROTO_UDP, ip4_checksum = 0,
                      ip4_src_addr = local_ip_addr cfg, ip4_dst_addr = first_hop_ip\<rparr>;
          udp_hdr = \<lparr>udp_src_port = htons (0x8000 OR (ucast (pkt_hash rc XOR ucast flow_hash) AND 0x7fff)),
                     udp_dst_port = htons GLB_GUE_PORT,
                     udp_length = htons (of_nat (sizeof_udp + sizeof_gue + hops_len +
                                                 inner_ip_total_length)),
                     udp_checksum = 0\<rparr>;
          gue_hdr = \<lparr>gue_version_control_hlen = 1 + ucast remaining_hop_count,
                     gue_protocol = gue_ipproto rc, gue_flags = 0, gue_private_type = 0,
                     gue_next_hop = 0, gue_hop_count = ucast remaining_hop_count\<rparr>;
          hops = take (unat remaining_hop_count) (drop 1 (ipv4_hops rc))
      in pdnet_ethernet_hdr_bytes eth_hdr @ pdnet_ipv4_hdr_bytes ipv4_hdr @
         pdnet_udp_hdr_bytes udp_hdr @ glb_gue_hdr_bytes gue_hdr @ concat (map (le_bytes 4) hops))"

subsection \<open>The DPDK packet buffer\<close>

record 'm mbuf_ops =
  rte_pktmbuf_read :: "'m \<Rightarrow> nat \<Rightarrow> nat \<Rightarrow> bytes option"
  rte_pktmbuf_adj :: "'m \<Rightarrow> nat \<Rightarrow> 'm"
  rte_pktmbuf_prepend :: "'m \<Rightarrow> nat \<Rightarrow> 'm option"
  mbuf_store :: "'m \<Rightarrow> nat \<Rightarrow> bytes \<Rightarrow> 'm"

text \<open>The checksum functions, on the bytes from the IPv4 header on, and the offload constants.\<close>

record rte_cksum_ops =
  rte_ipv4_cksum :: "bytes \<Rightarrow> u16"
  rte_ipv4_udptcp_cksum :: "bytes \<Rightarrow> u16"
  rte_ipv4_phdr_cksum :: "bytes \<Rightarrow> u64 \<Rightarrow> u16"
  PKT_TX_IPV4 :: u64
  PKT_TX_IP_CKSUM :: u64
  PKT_TX_UDP_CKSUM :: u64
  RTE_PTYPE_ETHER_IPV4_UDP :: u32

record 'm rte_mbuf =
  mbuf_data :: 'm
  mbuf_l2_len :: nat
  mbuf_l3_len :: nat
  mbuf_packet_type :: u32
  mbuf_ol_flags :: u64

definition encap_packet_data_read_dpdk :: "'m mbuf_ops \<Rightarrow> 'm \<Rightarrow> nat \<Rightarrow> nat \<Rightarrow> bytes option" where
  "encap_packet_data_read_dpdk ops m off len = rte_pktmbuf_read ops m off len"

abbreviation off_udp_cksum :: nat where "off_udp_cksum \<equiv> sizeof_eth + sizeof_ipv4 + 6"
abbreviation off_ip_cksum :: nat where "off_ip_cksum \<equiv> sizeof_eth + 10"

text \<open>
  \<open>pkt_bytes\<close> gives the bytes of the packet; the two checksum members are stored in this order, so
  the UDP checksum is computed while the IP checksum is still zero.
\<close>

definition glb_checksum_offloading ::
    "'m mbuf_ops \<Rightarrow> rte_cksum_ops \<Rightarrow> ('m \<Rightarrow> bytes) \<Rightarrow> 'm rte_mbuf \<Rightarrow> 'm rte_mbuf" where
  "glb_checksum_offloading ops ck pkt_bytes pkt =
     (let ip = (\<lambda>m. drop sizeof_eth (pkt_bytes m));
          fl = (mbuf_ol_flags pkt OR PKT_TX_IPV4 ck) AND
                 NOT (PKT_TX_IP_CKSUM ck OR PKT_TX_UDP_CKSUM ck);
          pkt = pkt\<lparr>mbuf_l2_len := sizeof_eth, mbuf_l3_len := sizeof_ipv4,
                    mbuf_packet_type := RTE_PTYPE_ETHER_IPV4_UDP ck, mbuf_ol_flags := fl\<rparr>;
          udp_ck = (if fl AND PKT_TX_UDP_CKSUM ck \<noteq> 0
                    then rte_ipv4_phdr_cksum ck (ip (mbuf_data pkt)) fl
                    else rte_ipv4_udptcp_cksum ck (ip (mbuf_data pkt)));
          pkt = pkt\<lparr>mbuf_data := mbuf_store ops (mbuf_data pkt) off_udp_cksum (le_bytes 2 udp_ck)\<rparr>;
          ip_ck = (if fl AND PKT_TX_IP_CKSUM ck \<noteq> 0 then 0
                   else rte_ipv4_cksum ck (take sizeof_ipv4 (ip (mbuf_data pkt))))
      in pkt\<lparr>mbuf_data := mbuf_store ops (mbuf_data pkt) off_ip_cksum (le_bytes 2 ip_ck)\<rparr>)"

text \<open>
  The result is the success of the call and the buffer, which a failed call may have changed. \<open>rc\<close>
  is the uninitialised context on the stack.
\<close>

definition glb_encapsulate_packet_dpdk ::
    "'m mbuf_ops \<Rightarrow> rte_cksum_ops \<Rightarrow> ('m \<Rightarrow> bytes) \<Rightarrow> glb_director_config \<Rightarrow> 'm glb_route_context \<Rightarrow>
     glb_fwd_config_ctx \<Rightarrow> 'm rte_mbuf \<Rightarrow> nat \<Rightarrow> bool \<times> 'm rte_mbuf" where
  "glb_encapsulate_packet_dpdk ops ck pkt_bytes cfg rc ctx pkt table_id =
     (if table_id \<ge> unat (content_num_tables (raw_config ctx)) then (False, pkt)
      else case glb_calculate_packet_route (encap_packet_data_read_dpdk ops) cfg ctx table_id
                  (mbuf_data pkt) rc of
             None \<Rightarrow> (False, pkt)
           | Some rc \<Rightarrow>
               let pkt = pkt\<lparr>mbuf_data := rte_pktmbuf_adj ops (mbuf_data pkt) sizeof_eth\<rparr>
               in case rte_pktmbuf_prepend ops (mbuf_data pkt) (ROUTE_CONTEXT_ENCAP_SIZE rc) of
                    None \<Rightarrow> (False, pkt)
                  | Some m \<Rightarrow>
                      let pkt = pkt\<lparr>mbuf_data := mbuf_store ops m 0 (glb_encapsulate_packet cfg rc)\<rparr>
                      in (True, glb_checksum_offloading ops ck pkt_bytes pkt))"

subsection \<open>The pcap tool\<close>

record pcap_packet =
  pcap_data :: bytes
  pcap_len :: nat

definition INBOUND_HEADER_SIZE_L3 :: nat where
  "INBOUND_HEADER_SIZE_L3 = sizeof_ipv4 + sizeof_tcp"

definition INBOUND_HEADER_SIZE_L2 :: nat where
  "INBOUND_HEADER_SIZE_L2 = sizeof_eth + INBOUND_HEADER_SIZE_L3"

text \<open>
  The check is on the member \<open>len\<close>; the bytes come from the array, of which fewer may be there.
\<close>

definition encap_packet_data_read_pcap :: "pcap_packet \<Rightarrow> nat \<Rightarrow> nat \<Rightarrow> bytes option" where
  "encap_packet_data_read_pcap pkt off len =
     (if pcap_len pkt < off + len then None else Some (take len (drop off (pcap_data pkt))))"

text \<open>
  \<open>PcapNullDeref\<close>: the log line dereferences the result of the header read without a test.
  \<open>PcapSent\<close> carries the simulated output packet.
\<close>

datatype pcap_result = PcapFail | PcapNullDeref | PcapSent bytes

definition glb_encapsulate_packet_pcap ::
    "glb_director_config \<Rightarrow> pcap_packet glb_route_context \<Rightarrow> glb_fwd_config_ctx \<Rightarrow> pcap_packet \<Rightarrow> nat \<Rightarrow>
     pcap_result" where
  "glb_encapsulate_packet_pcap cfg rc ctx pkt table_id =
     (if table_id \<ge> unat (content_num_tables (raw_config ctx)) then PcapFail
      else if encap_packet_data_read_pcap pkt sizeof_eth sizeof_ipv4 = None then PcapNullDeref
      else case glb_calculate_packet_route encap_packet_data_read_pcap cfg ctx table_id pkt rc of
             None \<Rightarrow> PcapFail
           | Some rc \<Rightarrow>
               if pcap_len pkt < INBOUND_HEADER_SIZE_L3 then PcapFail
               else PcapSent (glb_encapsulate_packet cfg rc @
                              take INBOUND_HEADER_SIZE_L3 (pcap_data pkt)))"

text \<open>The packet handler: \<open>None\<close> when the capture length is rejected.\<close>

definition glb_pcap_handler ::
    "glb_director_config \<Rightarrow> pcap_packet glb_route_context \<Rightarrow> glb_fwd_config_ctx \<Rightarrow> nat \<Rightarrow> nat \<Rightarrow> nat \<Rightarrow>
     bytes \<Rightarrow> pcap_result option" where
  "glb_pcap_handler cfg rc ctx table_id caplen len pkt =
     (if caplen < INBOUND_HEADER_SIZE_L2 \<or> caplen > len then None
      else
        let copy_pkt = take INBOUND_HEADER_SIZE_L2 pkt in
        Some (glb_encapsulate_packet_pcap cfg rc ctx
                \<lparr>pcap_data = copy_pkt, pcap_len = caplen\<rparr> table_id))"

subsection \<open>Invariants of extraction\<close>

lemma lineariser_get_frame:
  assumes "safely_get_header_lineariser rd rc off len = Some (rc', h)"
  shows "ipv4_hops rc' = ipv4_hops rc \<and> ether_type rc' = ether_type rc"
  using assms by (auto simp: safely_get_header_lineariser_def Let_def split: if_splits)

lemma extract_ipv4_frame:
  assumes "extract_packet_fields_ipv4 (safely_get_header_lineariser rd) rc = Some rc'"
  shows "ipv4_hops rc' = ipv4_hops rc \<and> ether_type rc' = ether_type rc"
  using assms
  by (auto simp: extract_packet_fields_ipv4_def Let_def bind_eq_Some_conv
      dest!: lineariser_get_frame split: if_splits)

lemma extract_ipv6_frame:
  assumes "extract_packet_fields_ipv6 (safely_get_header_lineariser rd) rc = Some rc'"
  shows "ipv4_hops rc' = ipv4_hops rc \<and> ether_type rc' = ether_type rc"
  using assms
  by (auto simp: extract_packet_fields_ipv6_def Let_def bind_eq_Some_conv
      dest!: lineariser_get_frame split: if_splits)

lemma glb_extract_frame:
  assumes "glb_extract_packet_fields (safely_get_header_lineariser rd) rc = Some rc'"
  shows "ipv4_hops rc' = ipv4_hops rc \<and> is_ip_ether_type (ether_type rc')"
  using assms
  by (auto simp: glb_extract_packet_fields_def Let_def bind_eq_Some_conv is_ip_ether_type_def
      dest!: lineariser_get_frame extract_ipv4_frame extract_ipv6_frame split: if_splits)

subsection \<open>The route of a packet\<close>

text \<open>
  The row a hash configuration selects for a parsed packet, and the two backends the row names.
\<close>

definition row_of :: "bytes \<Rightarrow> glb_director_hash_fields \<Rightarrow> 'p glb_route_context \<Rightarrow> nat" where
  "row_of table hf rc =
     unat (le_word (siphash (hash_input hf rc) (table_secure_key table)) AND GLB_FMT_TABLE_HASHMASK)"

definition row_hops :: "bytes \<Rightarrow> nat \<Rightarrow> u32 list" where
  "row_hops table row =
     (let e = table_entry_at table row
      in [ucast (be_addr (table_backend table (unat (te_primary e)))),
          ucast (be_addr (table_backend table (unat (te_secondary e))))])"

definition packet_hops :: "glb_director_config \<Rightarrow> bytes \<Rightarrow> 'p glb_route_context \<Rightarrow> u32 list" where
  "packet_hops cfg table rc =
     row_hops table (row_of table (hash_fields cfg) rc) @
     (if use_alt_hash_fields cfg then row_hops table (row_of table (alt_hash_fields cfg) rc) else [])"

lemma unat_and_hashmask: "unat (h AND GLB_FMT_TABLE_HASHMASK) < GLB_FMT_TABLE_ENTRIES"
proof -
  have "h AND GLB_FMT_TABLE_HASHMASK \<le> GLB_FMT_TABLE_HASHMASK"
    by (rule word_and_le1)
  then have "unat (h AND GLB_FMT_TABLE_HASHMASK) \<le> unat GLB_FMT_TABLE_HASHMASK"
    by (simp only: word_le_nat_alt)
  then show ?thesis by simp
qed

lemma row_of_less: "row_of table hf rc < GLB_FMT_TABLE_ENTRIES"
  unfolding row_of_def by (rule unat_and_hashmask)

lemma hash_input_cong:
  "ether_type a = ether_type b \<Longrightarrow> src_addr a = src_addr b \<Longrightarrow> dst_addr a = dst_addr b \<Longrightarrow>
   src_port a = src_port b \<Longrightarrow> dst_port a = dst_port b \<Longrightarrow> hash_input hf a = hash_input hf b"
  by (simp add: hash_input_def)

lemma hash_input_update [simp]:
  "hash_input hf (rc\<lparr>ipv4_hops := hs\<rparr>) = hash_input hf rc"
  "hash_input hf (rc\<lparr>hop_count := n\<rparr>) = hash_input hf rc"
  "hash_input hf (rc\<lparr>pkt_hash := h\<rparr>) = hash_input hf rc"
  by (simp_all add: hash_input_def)

lemma row_of_update [simp]:
  "row_of table hf (rc\<lparr>ipv4_hops := hs\<rparr>) = row_of table hf rc"
  "row_of table hf (rc\<lparr>hop_count := n\<rparr>) = row_of table hf rc"
  "row_of table hf (rc\<lparr>pkt_hash := h\<rparr>) = row_of table hf rc"
  by (simp_all add: row_of_def)

lemma glb_add_packet_route_eq:
  assumes "is_ip_ether_type (ether_type rc)"
  shows "glb_add_packet_route table rc hf =
    (if unat (hop_count rc) + 2 > GLB_MAX_HOPS then None
     else Some ((if hop_count rc = 0
                 then rc\<lparr>pkt_hash := le_word (siphash (hash_input hf rc) (table_secure_key table))\<rparr>
                 else rc)
       \<lparr>ipv4_hops := (ipv4_hops rc)[unat (hop_count rc) := row_hops table (row_of table hf rc) ! 0,
                      unat (hop_count rc) + 1 := row_hops table (row_of table hf rc) ! 1],
        hop_count := hop_count rc + 2\<rparr>))"
  using assms
  by (simp add: glb_add_packet_route_def glb_compute_hash_siphash row_of_def row_hops_def Let_def)

text \<open>What a successful route calculation leaves in the context.\<close>

lemma glb_calculate_packet_route_Some:
  assumes "glb_calculate_packet_route rd cfg ctx table_id pkt rc0 = Some rc"
    and "length (ipv4_hops rc0) = GLB_MAX_HOPS"
  defines "table \<equiv> content_table (raw_config ctx) table_id"
  obtains px where
    "glb_extract_packet_fields (safely_get_header_lineariser rd)
       (rc0\<lparr>packet_data := pkt, linearisation_space_offset := 0\<rparr>) = Some px"
    "rc = px\<lparr>pkt_hash := le_word (siphash (hash_input (hash_fields cfg) px) (table_secure_key table)),
             hop_count := of_nat (length (packet_hops cfg table px)),
             ipv4_hops := packet_hops cfg table px @ drop (length (packet_hops cfg table px)) (ipv4_hops rc0)\<rparr>"
    "is_ip_ether_type (ether_type px)"
proof -
  from assms(1) obtain px where px:
    "glb_extract_packet_fields (safely_get_header_lineariser rd)
       (rc0\<lparr>packet_data := pkt, linearisation_space_offset := 0\<rparr>) = Some px"
    by (auto simp: glb_calculate_packet_route_def Let_def bind_eq_Some_conv)
  have fr: "ipv4_hops px = ipv4_hops rc0" "is_ip_ether_type (ether_type px)"
    using glb_extract_frame [OF px] by simp_all
  obtain a b c d where hs: "ipv4_hops rc0 = [a, b, c, d]"
    using assms(2) by (auto simp: GLB_MAX_HOPS_def eval_nat_numeral length_Suc_conv)
  have "rc = px\<lparr>pkt_hash := le_word (siphash (hash_input (hash_fields cfg) px) (table_secure_key table)),
             hop_count := of_nat (length (packet_hops cfg table px)),
             ipv4_hops := packet_hops cfg table px @ drop (length (packet_hops cfg table px)) (ipv4_hops rc0)\<rparr>"
    using assms(1) px fr hs
    by (cases "use_alt_hash_fields cfg")
       (auto simp: glb_calculate_packet_route_def Let_def table_def [symmetric] glb_add_packet_route_eq
         GLB_MAX_HOPS_def packet_hops_def row_hops_def)
  then show ?thesis
    using that px fr by blast
qed

lemma length_packet_hops: "length (packet_hops cfg table rc) = (if use_alt_hash_fields cfg then 4 else 2)"
  by (simp add: packet_hops_def row_hops_def Let_def)

lemma parsed_fields_cong:
  assumes "parsed_fields a = parsed_fields b"
  shows "hash_input hf a = hash_input hf b" "packet_hops cfg table a = packet_hops cfg table b"
    "ether_type a = ether_type b" "ip_total_length a = ip_total_length b"
    "flow_hash_hint a = flow_hash_hint b" "gue_ipproto a = gue_ipproto b"
  using assms by (simp_all add: parsed_fields_def packet_hops_def row_of_def hash_input_def)

lemma glb_calculate_packet_route_total:
  assumes "glb_extract_packet_fields (safely_get_header_lineariser rd)
       (rc0\<lparr>packet_data := pkt, linearisation_space_offset := 0\<rparr>) = Some px"
  shows "\<exists>rc. glb_calculate_packet_route rd cfg ctx table_id pkt rc0 = Some rc"
proof -
  have "is_ip_ether_type (ether_type px)" using glb_extract_frame [OF assms] by simp
  then show ?thesis
    using assms by (simp add: glb_calculate_packet_route_def Let_def glb_add_packet_route_eq GLB_MAX_HOPS_def)
qed

text \<open>A context as a function of raw parsing, for packets read through a lawful reader.\<close>

context packet_reader
begin

lemma route_raw:
  fixes ctx :: glb_fwd_config_ctx and table_id :: nat
  assumes "wf_packet pkt" "length (ipv4_hops rc0) = GLB_MAX_HOPS"
  defines "table \<equiv> content_table (raw_config ctx) table_id"
  shows "case glb_extract_packet_fields safely_get_header_raw (raw_context (contents pkt) rc0) of
      None \<Rightarrow> glb_calculate_packet_route encap_packet_data_read cfg ctx table_id pkt rc0 = None
    | Some px \<Rightarrow> \<exists>rc. glb_calculate_packet_route encap_packet_data_read cfg ctx table_id pkt rc0 = Some rc \<and>
        take (unat (hop_count rc)) (ipv4_hops rc) = packet_hops cfg table px \<and>
        pkt_hash rc = le_word (siphash (hash_input (hash_fields cfg) px) (table_secure_key table)) \<and>
        unat (hop_count rc) = (if use_alt_hash_fields cfg then 4 else 2) \<and>
        length (ipv4_hops rc) = GLB_MAX_HOPS \<and> ip_total_length rc = ip_total_length px \<and>
        flow_hash_hint rc = flow_hash_hint px \<and> gue_ipproto rc = gue_ipproto px"
proof -
  let ?rc = "rc0\<lparr>packet_data := pkt, linearisation_space_offset := 0\<rparr>"
  have rw: "raw_context (contents (packet_data ?rc)) ?rc = raw_context (contents pkt) rc0"
    by (simp add: raw_context_def)
  have eq: "map_option parsed_fields
      (glb_extract_packet_fields (safely_get_header_lineariser encap_packet_data_read) ?rc) =
    map_option parsed_fields
      (glb_extract_packet_fields safely_get_header_raw (raw_context (contents pkt) rc0))"
    using glb_extract_packet_fields_raw [of ?rc] assms(1) rw by simp
  show ?thesis
  proof (cases "glb_extract_packet_fields (safely_get_header_lineariser encap_packet_data_read) ?rc")
    case None
    then show ?thesis
      using eq by (simp add: glb_calculate_packet_route_def Let_def)
  next
    case (Some lx)
    then obtain px where px: "glb_extract_packet_fields safely_get_header_raw (raw_context (contents pkt) rc0) = Some px"
      "parsed_fields lx = parsed_fields px"
      using eq by (auto simp: map_option_case split: option.splits)
    obtain rc where rc: "glb_calculate_packet_route encap_packet_data_read cfg ctx table_id pkt rc0 = Some rc"
      using glb_calculate_packet_route_total [OF Some] by blast
    obtain qx where q: "glb_extract_packet_fields (safely_get_header_lineariser encap_packet_data_read) ?rc = Some qx"
      "rc = qx\<lparr>pkt_hash := le_word (siphash (hash_input (hash_fields cfg) qx) (table_secure_key table)),
             hop_count := of_nat (length (packet_hops cfg table qx)),
             ipv4_hops := packet_hops cfg table qx @ drop (length (packet_hops cfg table qx)) (ipv4_hops rc0)\<rparr>"
      using rc assms(2) unfolding table_def by (rule glb_calculate_packet_route_Some)
    have "qx = lx" using q(1) Some by simp
    then show ?thesis
      using rc px(1) q(2) assms(2) parsed_fields_cong [OF px(2)]
      by (cases "use_alt_hash_fields cfg") (simp_all add: length_packet_hops GLB_MAX_HOPS_def)
  qed
qed

end

subsection \<open>Layout of the outer headers\<close>

lemma length_concat_le_bytes: "length (concat (map (le_bytes k) ws)) = k * length ws"
  by (induction ws) auto

lemma unat_hop_count_minus_1:
  fixes n :: u8
  assumes "1 \<le> unat n"
  shows "unat (ucast n - 1 :: u32) = unat n - 1"
  using assms by (subst unat_sub) (simp_all add: word_le_nat_alt unat_ucast_up)

lemma length_glb_encapsulate_packet:
  assumes "1 \<le> unat (hop_count rc)" "unat (hop_count rc) \<le> length (ipv4_hops rc)"
  shows "length (glb_encapsulate_packet cfg rc) = ROUTE_CONTEXT_ENCAP_SIZE rc"
  using assms
  by (simp add: glb_encapsulate_packet_def Let_def length_concat_le_bytes unat_hop_count_minus_1
      ROUTE_CONTEXT_ENCAP_SIZE_def min_absorb2)

text \<open>The header records \<open>glb_encapsulate_packet\<close> fills in.\<close>

definition outer_eth :: "glb_director_config \<Rightarrow> pdnet_ethernet_hdr" where
  "outer_eth cfg =
     \<lparr>eth_dst_addr = gateway_ether_addr cfg, eth_src_addr = local_ether_addr cfg,
      eth_ether_type = htons PDNET_ETHER_TYPE_IPV4\<rparr>"

definition outer_ipv4 :: "u32 \<Rightarrow> u32 list \<Rightarrow> u16 \<Rightarrow> u16 \<Rightarrow> pdnet_ipv4_hdr" where
  "outer_ipv4 src hops inner_len cksum =
     \<lparr>ip4_ihl = 5, ip4_version = 4, ip4_ecn = 0, ip4_dscp = 0,
      ip4_total_length = htons (of_nat (32 + 4 * length hops + unat inner_len)),
      ip4_identification = 0, ip4_fragment_offset = htons PDNET_IPV4_FLAG_DF,
      ip4_time_to_live = 64, ip4_next_proto = PDNET_IP_PROTO_UDP, ip4_checksum = cksum,
      ip4_src_addr = src, ip4_dst_addr = hd hops\<rparr>"

definition outer_udp :: "u32 list \<Rightarrow> u64 \<Rightarrow> u16 \<Rightarrow> u16 \<Rightarrow> u16 \<Rightarrow> pdnet_udp_hdr" where
  "outer_udp hops hash hint inner_len cksum =
     \<lparr>udp_src_port = htons (0x8000 OR (ucast (hash XOR ucast hint) AND 0x7fff)),
      udp_dst_port = htons GLB_GUE_PORT,
      udp_length = htons (of_nat (12 + 4 * length hops + unat inner_len)), udp_checksum = cksum\<rparr>"

definition outer_gue :: "u32 list \<Rightarrow> u8 \<Rightarrow> glb_gue_hdr" where
  "outer_gue hops proto =
     \<lparr>gue_version_control_hlen = of_nat (length hops), gue_protocol = proto, gue_flags = 0,
      gue_private_type = 0, gue_next_hop = 0, gue_hop_count = of_nat (length hops - 1)\<rparr>"

lemma glb_encapsulate_packet_layout:
  assumes "hops = take (unat (hop_count rc)) (ipv4_hops rc)"
    and "1 \<le> unat (hop_count rc)" "unat (hop_count rc) \<le> length (ipv4_hops rc)"
    and "length (ipv4_hops rc) \<le> GLB_MAX_HOPS"
  shows "glb_encapsulate_packet cfg rc =
    pdnet_ethernet_hdr_bytes (outer_eth cfg) @
    pdnet_ipv4_hdr_bytes (outer_ipv4 (local_ip_addr cfg) hops (ip_total_length rc) 0) @
    pdnet_udp_hdr_bytes (outer_udp hops (pkt_hash rc) (flow_hash_hint rc) (ip_total_length rc) 0) @
    glb_gue_hdr_bytes (outer_gue hops (gue_ipproto rc)) @
    concat (map (le_bytes 4) (tl hops))"
proof -
  obtain k where k: "unat (hop_count rc) = Suc k" using assms(2) by (cases "unat (hop_count rc)") auto
  obtain h hs where hs: "ipv4_hops rc = h # hs" using assms(3) k by (cases "ipv4_hops rc") auto
  have kl: "k \<le> length hs" "k < 4" using assms(3,4) k hs by (simp_all add: GLB_MAX_HOPS_def)
  have u: "unat (ucast (hop_count rc) - 1 :: u32) = k"
    using unat_hop_count_minus_1 [of "hop_count rc"] k by simp
  then have u8: "ucast (ucast (hop_count rc) - 1 :: u32) = (of_nat k :: u8)"
    by (metis of_nat_unat)
  have hops: "hops = h # take k hs" using assms(1) k hs by simp
  show ?thesis
    unfolding glb_encapsulate_packet_def Let_def u u8 hops hs
    using kl
    by (simp add: outer_eth_def outer_ipv4_def outer_udp_def outer_gue_def min_absorb2 algebra_simps)
qed

lemma write_bytes_middle:
  "length pre = off \<Longrightarrow> length old = length xs \<Longrightarrow>
     write_bytes (pre @ old @ post) off xs = pre @ xs @ post"
  by (simp add: write_bytes_def)

lemma store_udp_cksum:
  "write_bytes (pdnet_ethernet_hdr_bytes e @ pdnet_ipv4_hdr_bytes i @ pdnet_udp_hdr_bytes u @ rest)
     off_udp_cksum (le_bytes 2 c) =
   pdnet_ethernet_hdr_bytes e @ pdnet_ipv4_hdr_bytes i @ pdnet_udp_hdr_bytes (u\<lparr>udp_checksum := c\<rparr>) @ rest"
  using write_bytes_middle [of "pdnet_ethernet_hdr_bytes e @ pdnet_ipv4_hdr_bytes i @
      le_bytes 2 (udp_src_port u) @ le_bytes 2 (udp_dst_port u) @ le_bytes 2 (udp_length u)" off_udp_cksum
      "le_bytes 2 (udp_checksum u)" "le_bytes 2 c" rest]
  by (simp add: pdnet_udp_hdr_bytes_def)

lemma store_ip_cksum:
  "write_bytes (pdnet_ethernet_hdr_bytes e @ pdnet_ipv4_hdr_bytes i @ rest) off_ip_cksum (le_bytes 2 c) =
   pdnet_ethernet_hdr_bytes e @ pdnet_ipv4_hdr_bytes (i\<lparr>ip4_checksum := c\<rparr>) @ rest"
  using write_bytes_middle [of "pdnet_ethernet_hdr_bytes e @ take 10 (pdnet_ipv4_hdr_bytes i)" off_ip_cksum
      "le_bytes 2 (ip4_checksum i)" "le_bytes 2 c"
      "le_bytes 4 (ip4_src_addr i) @ le_bytes 4 (ip4_dst_addr i) @ rest"]
  by (simp add: pdnet_ipv4_hdr_bytes_def)

subsection \<open>The DPDK output packet\<close>

text \<open>
  What the code relies on of DPDK's packet buffers: a read returns the bytes at the offset or fails
  when there are too few; \<open>adj\<close> removes bytes at the front; a successful \<open>prepend\<close> adds the requested
  number of bytes at the front; a store through a pointer into the data changes these bytes.
\<close>

definition mbuf_laws :: "'m mbuf_ops \<Rightarrow> ('m \<Rightarrow> bytes) \<Rightarrow> bool" where
  "mbuf_laws ops contents \<longleftrightarrow>
     (\<forall>m off len. rte_pktmbuf_read ops m off len = read_bytes (contents m) off len) \<and>
     (\<forall>m n. n \<le> length (contents m) \<longrightarrow> contents (rte_pktmbuf_adj ops m n) = drop n (contents m)) \<and>
     (\<forall>m n m'. rte_pktmbuf_prepend ops m n = Some m' \<longrightarrow>
        (\<exists>pre. length pre = n \<and> contents m' = pre @ contents m)) \<and>
     (\<forall>m off xs. off + length xs \<le> length (contents m) \<longrightarrow>
        contents (mbuf_store ops m off xs) = write_bytes (contents m) off xs)"

lemma mbuf_laws_reader:
  "mbuf_laws ops contents \<Longrightarrow> packet_reader (encap_packet_data_read_dpdk ops) contents (\<lambda>_. True)"
  by unfold_locales (simp add: mbuf_laws_def encap_packet_data_read_dpdk_def)

lemma checksum_offloading_contents:
  assumes "mbuf_laws ops contents"
    and "contents (mbuf_data pkt) =
      pdnet_ethernet_hdr_bytes e @ pdnet_ipv4_hdr_bytes i @ pdnet_udp_hdr_bytes u @ rest"
  shows "contents (mbuf_data (glb_checksum_offloading ops ck contents pkt)) =
      pdnet_ethernet_hdr_bytes e @
      pdnet_ipv4_hdr_bytes (i\<lparr>ip4_checksum := rte_ipv4_cksum ck (pdnet_ipv4_hdr_bytes i)\<rparr>) @
      pdnet_udp_hdr_bytes (u\<lparr>udp_checksum := rte_ipv4_udptcp_cksum ck
        (pdnet_ipv4_hdr_bytes i @ pdnet_udp_hdr_bytes u @ rest)\<rparr>) @ rest"
proof -
  have st: "contents (mbuf_store ops m off xs) = write_bytes (contents m) off xs"
    if "off + length xs \<le> length (contents m)" for m off xs
    using assms(1) that by (simp add: mbuf_laws_def)
  have nf: "(x AND NOT a AND NOT b) AND b = 0" "(x AND NOT a AND NOT b) AND a = 0" for x a b :: u64
    by (auto intro!: bit_word_eqI simp: bit_simps)
  show ?thesis
    using assms(2)
    by (simp add: glb_checksum_offloading_def Let_def nf st store_udp_cksum [simplified]
        store_ip_cksum [simplified])
qed

text \<open>The packet that should leave: outer headers for the hops of the parsed packet, then the inner packet.\<close>

definition encapsulated ::
    "glb_director_config \<Rightarrow> bytes \<Rightarrow> 'p glb_route_context \<Rightarrow> u16 \<Rightarrow> u16 \<Rightarrow> bytes \<Rightarrow> bytes" where
  "encapsulated cfg table px ip_ck udp_ck inner =
     (let hops = packet_hops cfg table px;
          hash = le_word (siphash (hash_input (hash_fields cfg) px) (table_secure_key table))
      in pdnet_ethernet_hdr_bytes (outer_eth cfg) @
         pdnet_ipv4_hdr_bytes (outer_ipv4 (local_ip_addr cfg) hops (ip_total_length px) ip_ck) @
         pdnet_udp_hdr_bytes (outer_udp hops hash (flow_hash_hint px) (ip_total_length px) udp_ck) @
         glb_gue_hdr_bytes (outer_gue hops (gue_ipproto px)) @
         concat (map (le_bytes 4) (tl hops)) @ inner)"

lemma outer_update [simp]:
  "(outer_ipv4 s h n c)\<lparr>ip4_checksum := c'\<rparr> = outer_ipv4 s h n c'"
  "(outer_udp h x f n c)\<lparr>udp_checksum := c'\<rparr> = outer_udp h x f n c'"
  by (simp_all add: outer_ipv4_def outer_udp_def)

lemma mbuf_lawsD:
  assumes "mbuf_laws ops contents"
  shows "n \<le> length (contents m) \<Longrightarrow> contents (rte_pktmbuf_adj ops m n) = drop n (contents m)"
    and "rte_pktmbuf_prepend ops m n = Some m' \<Longrightarrow> \<exists>pre. length pre = n \<and> contents m' = pre @ contents m"
    and "off + length xs \<le> length (contents m) \<Longrightarrow>
           contents (mbuf_store ops m off xs) = write_bytes (contents m) off xs"
  using assms unfolding mbuf_laws_def by blast+

lemma glb_extract_raw_length:
  assumes "glb_extract_packet_fields safely_get_header_raw rc = Some px"
  shows "sizeof_eth \<le> length (packet_data rc)"
proof (rule ccontr)
  assume "\<not> sizeof_eth \<le> length (packet_data rc)"
  then have "glb_extract_packet_fields safely_get_header_raw rc = None"
    by (simp add: glb_extract_packet_fields_def safely_get_header_raw_def [of _ 0] Let_def)
  then show False using assms by simp
qed

lemma dpdk_output:
  assumes laws: "mbuf_laws ops contents" and hops: "length (ipv4_hops rc0) = GLB_MAX_HOPS"
    and ok: "glb_encapsulate_packet_dpdk ops ck contents cfg rc0 ctx pkt table_id = (True, pkt')"
  obtains px ip_ck udp_ck where "table_id < unat (content_num_tables (raw_config ctx))"
    "glb_extract_packet_fields safely_get_header_raw (raw_context (contents (mbuf_data pkt)) rc0) = Some px"
    "contents (mbuf_data pkt') = encapsulated cfg (content_table (raw_config ctx) table_id) px ip_ck udp_ck
       (drop sizeof_eth (contents (mbuf_data pkt)))"
    "ip_ck = rte_ipv4_cksum ck (pdnet_ipv4_hdr_bytes (outer_ipv4 (local_ip_addr cfg)
       (packet_hops cfg (content_table (raw_config ctx) table_id) px) (ip_total_length px) 0))"
proof -
  let ?rd = "encap_packet_data_read_dpdk ops" and ?in = "contents (mbuf_data pkt)"
  define table where "table = content_table (raw_config ctx) table_id"
  from ok obtain rc m where tid: "table_id < unat (content_num_tables (raw_config ctx))"
    and rc: "glb_calculate_packet_route ?rd cfg ctx table_id (mbuf_data pkt) rc0 = Some rc"
    and m: "rte_pktmbuf_prepend ops (rte_pktmbuf_adj ops (mbuf_data pkt) sizeof_eth)
              (ROUTE_CONTEXT_ENCAP_SIZE rc) = Some m"
    and pkt': "pkt' = glb_checksum_offloading ops ck contents
        (pkt\<lparr>mbuf_data := mbuf_store ops m 0 (glb_encapsulate_packet cfg rc)\<rparr>)"
    by (auto simp: glb_encapsulate_packet_dpdk_def Let_def not_le split: if_splits option.splits)
  note route = packet_reader.route_raw [OF mbuf_laws_reader [OF laws] TrueI hops, where ctx = ctx
      and table_id = table_id and cfg = cfg and pkt = "mbuf_data pkt"]
  from route rc obtain px where
    px: "glb_extract_packet_fields safely_get_header_raw (raw_context ?in rc0) = Some px"
    and hp: "take (unat (hop_count rc)) (ipv4_hops rc) = packet_hops cfg table px"
    and f: "pkt_hash rc = le_word (siphash (hash_input (hash_fields cfg) px) (table_secure_key table))"
      "unat (hop_count rc) = (if use_alt_hash_fields cfg then 4 else 2)"
      "length (ipv4_hops rc) = GLB_MAX_HOPS" "ip_total_length rc = ip_total_length px"
      "flow_hash_hint rc = flow_hash_hint px" "gue_ipproto rc = gue_ipproto px"
    unfolding table_def by (auto split: option.splits)
  have le: "sizeof_eth \<le> length ?in"
    using glb_extract_raw_length [OF px] by (simp add: raw_context_def)
  obtain pre where pre: "length pre = ROUTE_CONTEXT_ENCAP_SIZE rc" "contents m = pre @ drop sizeof_eth ?in"
    using mbuf_lawsD(2) [OF laws m] mbuf_lawsD(1) [OF laws le] by auto
  have hc: "1 \<le> unat (hop_count rc)" "unat (hop_count rc) \<le> length (ipv4_hops rc)"
    using f by (auto simp: GLB_MAX_HOPS_def split: if_splits)
  have "contents (mbuf_store ops m 0 (glb_encapsulate_packet cfg rc)) =
      glb_encapsulate_packet cfg rc @ drop sizeof_eth ?in"
    using pre length_glb_encapsulate_packet [OF hc, of cfg]
      mbuf_lawsD(3) [OF laws, of 0 "glb_encapsulate_packet cfg rc" m]
    by (simp add: write_bytes_def)
  then have st: "contents (mbuf_data (pkt\<lparr>mbuf_data := mbuf_store ops m 0 (glb_encapsulate_packet cfg rc)\<rparr>)) =
      encapsulated cfg table px 0 0 (drop sizeof_eth ?in)"
    using glb_encapsulate_packet_layout [OF hp [symmetric] hc, of cfg] f
    by (simp add: encapsulated_def Let_def)
  show ?thesis
  proof (rule that [OF tid px])
    show "contents (mbuf_data pkt') = encapsulated cfg (content_table (raw_config ctx) table_id) px
        (rte_ipv4_cksum ck (pdnet_ipv4_hdr_bytes (outer_ipv4 (local_ip_addr cfg)
          (packet_hops cfg table px) (ip_total_length px) 0))) 
        (rte_ipv4_udptcp_cksum ck (drop sizeof_eth (encapsulated cfg table px 0 0 (drop sizeof_eth ?in))))
        (drop sizeof_eth ?in)"
      unfolding pkt' table_def [symmetric]
      using checksum_offloading_contents [OF laws st [unfolded encapsulated_def Let_def], of ck]
      by (simp add: encapsulated_def Let_def)
  qed (simp add: table_def)
qed

lemma flow_key_hash_input:
  assumes "flow_key a = flow_key b"
  shows "hash_input hf a = hash_input hf b"
proof -
  have eq: "ether_type a = ether_type b" "src_port a = src_port b" "dst_port a = dst_port b"
    using assms by (auto simp: flow_key_def Let_def)
  show ?thesis
  proof (cases "ether_type b = PDNET_ETHER_TYPE_IPV4")
    case True
    then have u: "get_union_ipv4 (src_addr a) = get_union_ipv4 (src_addr b)"
      "get_union_ipv4 (dst_addr a) = get_union_ipv4 (dst_addr b)"
      using assms eq by (simp_all add: flow_key_def)
    show ?thesis unfolding hash_input_def eq True by (simp add: u)
  next
    case False
    then have "src_addr a = src_addr b" "dst_addr a = dst_addr b"
      using assms eq by (simp_all add: flow_key_def)
    then show ?thesis using eq by (intro hash_input_cong)
  qed
qed

lemma flow_key_packet_hops:
  assumes "flow_key a = flow_key b"
  shows "packet_hops cfg table a = packet_hops cfg table b"
  unfolding packet_hops_def row_of_def flow_key_hash_input [OF assms] ..

text \<open>Two contexts that lead to the same hops, the same table hash and the same outer source port.\<close>

definition same_route :: "'p glb_route_context \<Rightarrow> 'q glb_route_context \<Rightarrow> bool" where
  "same_route a b \<longleftrightarrow>
     hop_count a = hop_count b \<and>
     take (unat (hop_count a)) (ipv4_hops a) = take (unat (hop_count b)) (ipv4_hops b) \<and>
     pkt_hash a = pkt_hash b \<and> flow_hash_hint a = flow_hash_hint b \<and> gue_ipproto a = gue_ipproto b"

context packet_reader
begin

lemma same_flow_same_route:
  fixes ctx :: glb_fwd_config_ctx and table_id :: nat
  assumes wf: "wf_packet p" "wf_packet q" "length (ipv4_hops r0) = GLB_MAX_HOPS" "length (ipv4_hops s0) = GLB_MAX_HOPS"
    and sf: "same_flow
       (glb_extract_packet_fields safely_get_header_raw (raw_context (contents p) r0))
       (glb_extract_packet_fields safely_get_header_raw (raw_context (contents q) s0))"
  shows "\<exists>r s. glb_calculate_packet_route encap_packet_data_read cfg ctx table_id p r0 = Some r \<and>
    glb_calculate_packet_route encap_packet_data_read cfg ctx table_id q s0 = Some s \<and> same_route r s"
proof -
  from sf obtain px qx where
    x: "glb_extract_packet_fields safely_get_header_raw (raw_context (contents p) r0) = Some px"
      "glb_extract_packet_fields safely_get_header_raw (raw_context (contents q) s0) = Some qx"
      "flow_key px = flow_key qx" "flow_hash_hint px = flow_hash_hint qx" "gue_ipproto px = gue_ipproto qx"
    by (auto simp: same_flow_def split: option.splits)
  obtain r where r: "glb_calculate_packet_route encap_packet_data_read cfg ctx table_id p r0 = Some r"
    "take (unat (hop_count r)) (ipv4_hops r) = packet_hops cfg (content_table (raw_config ctx) table_id) px"
    "pkt_hash r = le_word (siphash (hash_input (hash_fields cfg) px)
       (table_secure_key (content_table (raw_config ctx) table_id)))"
    "unat (hop_count r) = (if use_alt_hash_fields cfg then 4 else 2)"
    "flow_hash_hint r = flow_hash_hint px" "gue_ipproto r = gue_ipproto px"
    using route_raw [OF wf(1,3), where ctx = ctx and table_id = table_id and cfg = cfg] x(1) by auto
  obtain s where s: "glb_calculate_packet_route encap_packet_data_read cfg ctx table_id q s0 = Some s"
    "take (unat (hop_count s)) (ipv4_hops s) = packet_hops cfg (content_table (raw_config ctx) table_id) qx"
    "pkt_hash s = le_word (siphash (hash_input (hash_fields cfg) qx)
       (table_secure_key (content_table (raw_config ctx) table_id)))"
    "unat (hop_count s) = (if use_alt_hash_fields cfg then 4 else 2)"
    "flow_hash_hint s = flow_hash_hint qx" "gue_ipproto s = gue_ipproto qx"
    using route_raw [OF wf(2,4), where ctx = ctx and table_id = table_id and cfg = cfg] x(2) by auto
  have "hop_count r = hop_count s"
    using r(4) s(4) by (simp add: word_unat_eq_iff)
  then have "same_route r s"
    using r s x flow_key_hash_input [OF x(3)] flow_key_packet_hops [OF x(3)]
    by (simp add: same_route_def)
  then show ?thesis using r(1) s(1) by blast
qed

end

interpretation pcap: packet_reader encap_packet_data_read_pcap pcap_data "\<lambda>p. pcap_len p = length (pcap_data p)"
  by unfold_locales (simp add: encap_packet_data_read_pcap_def read_bytes_def)

lemma pcap_output:
  assumes "pcap_len pkt = length (pcap_data pkt)" "length (ipv4_hops rc0) = GLB_MAX_HOPS"
    and "glb_encapsulate_packet_pcap cfg rc0 ctx pkt table_id = PcapSent out"
  obtains px where
    "glb_extract_packet_fields safely_get_header_raw (raw_context (pcap_data pkt) rc0) = Some px"
    "out = encapsulated cfg (content_table (raw_config ctx) table_id) px 0 0
       (take INBOUND_HEADER_SIZE_L3 (pcap_data pkt))"
proof -
  define table where "table = content_table (raw_config ctx) table_id"
  from assms(3) obtain rc where
    rc: "glb_calculate_packet_route encap_packet_data_read_pcap cfg ctx table_id pkt rc0 = Some rc"
      "out = glb_encapsulate_packet cfg rc @ take INBOUND_HEADER_SIZE_L3 (pcap_data pkt)"
    by (auto simp: glb_encapsulate_packet_pcap_def split: if_splits option.splits)
  from pcap.route_raw [OF assms(1,2), where ctx = ctx and table_id = table_id and cfg = cfg] rc(1) obtain px where
    px: "glb_extract_packet_fields safely_get_header_raw (raw_context (pcap_data pkt) rc0) = Some px"
    and hp: "take (unat (hop_count rc)) (ipv4_hops rc) = packet_hops cfg table px"
    and f: "pkt_hash rc = le_word (siphash (hash_input (hash_fields cfg) px) (table_secure_key table))"
      "unat (hop_count rc) = (if use_alt_hash_fields cfg then 4 else 2)"
      "length (ipv4_hops rc) = GLB_MAX_HOPS" "ip_total_length rc = ip_total_length px"
      "flow_hash_hint rc = flow_hash_hint px" "gue_ipproto rc = gue_ipproto px"
    unfolding table_def by (auto split: option.splits)
  have hc: "1 \<le> unat (hop_count rc)" "unat (hop_count rc) \<le> length (ipv4_hops rc)"
    using f by (auto simp: GLB_MAX_HOPS_def split: if_splits)
  have "out = encapsulated cfg table px 0 0 (take INBOUND_HEADER_SIZE_L3 (pcap_data pkt))"
    using rc(2) glb_encapsulate_packet_layout [OF hp [symmetric] hc, of cfg] f
    by (simp add: encapsulated_def Let_def)
  then show ?thesis
    using that [OF px] by (simp add: table_def)
qed

subsection \<open>Example packets\<close>

definition example_context :: "'p \<Rightarrow> 'p glb_route_context" where
  "example_context p =
     \<lparr>linearisation_space_offset = 0, packet_data = p, ether_type = 0, orig_dst_mac = 0,
      ip_total_length = 0, src_addr = 0, dst_addr = 0, src_port = 0, dst_port = 0,
      flow_hash_hint = 0, gue_ipproto = 0, original_ipproto = 0, hop_count = 0,
      ipv4_hops = [0, 0, 0, 0], pkt_hash = 0\<rparr>"

definition example_eth :: "u16 \<Rightarrow> pdnet_ethernet_hdr" where
  "example_eth t = \<lparr>eth_dst_addr = 1, eth_src_addr = 2, eth_ether_type = htons t\<rparr>"

definition example_ipv4 :: "u8 \<Rightarrow> u32 \<Rightarrow> u32 \<Rightarrow> pdnet_ipv4_hdr" where
  "example_ipv4 proto src dst =
     \<lparr>ip4_ihl = 5, ip4_version = 4, ip4_ecn = 0, ip4_dscp = 0, ip4_total_length = htons 60,
      ip4_identification = 0, ip4_fragment_offset = 0, ip4_time_to_live = 64,
      ip4_next_proto = proto, ip4_checksum = 0, ip4_src_addr = src, ip4_dst_addr = dst\<rparr>"

definition example_ipv6 :: "u8 \<Rightarrow> ipv6_addr \<Rightarrow> ipv6_addr \<Rightarrow> pdnet_ipv6_hdr" where
  "example_ipv6 proto src dst =
     \<lparr>ip6_tc_hi = 0, ip6_version = 6, ip6_flow_hi = 0, ip6_tc_lo = 0, ip6_flow_lo = 0,
      ip6_payload_len = htons 20, ip6_next_proto = proto, ip6_hop_limit = 64,
      ip6_src_addr = src, ip6_dst_addr = dst\<rparr>"

definition example_ports :: "u16 \<Rightarrow> u16 \<Rightarrow> pdnet_l4_ports_hdr" where
  "example_ports s d = \<lparr>l4_src_port = s, l4_dst_port = d\<rparr>"

definition example_tcp4 :: bytes where
  "example_tcp4 = pdnet_ethernet_hdr_bytes (example_eth PDNET_ETHER_TYPE_IPV4) @
     pdnet_ipv4_hdr_bytes (example_ipv4 PDNET_IP_PROTO_TCP 7 8) @
     pdnet_l4_ports_hdr_bytes (example_ports 9 10) @ replicate 16 0"

definition example_unreachable4 :: bytes where
  "example_unreachable4 = pdnet_ethernet_hdr_bytes (example_eth PDNET_ETHER_TYPE_IPV4) @
     pdnet_ipv4_hdr_bytes (example_ipv4 PDNET_IP_PROTO_ICMPV4 99 8) @
     pdnet_icmpv4_hdr_bytes \<lparr>icmp4_type = 3, icmp4_code = 4, icmp4_checksum = 0, icmp4_type_specific = 0\<rparr> @
     pdnet_ipv4_hdr_bytes (example_ipv4 PDNET_IP_PROTO_TCP 8 7) @
     pdnet_l4_ports_hdr_bytes (example_ports 10 9) @ replicate 4 0"

definition example_tcp6 :: bytes where
  "example_tcp6 = pdnet_ethernet_hdr_bytes (example_eth PDNET_ETHER_TYPE_IPV6) @
     pdnet_ipv6_hdr_bytes (example_ipv6 PDNET_IP_PROTO_TCP 7 8) @
     pdnet_l4_ports_hdr_bytes (example_ports 9 10) @ replicate 16 0"

definition example_too_big6 :: bytes where
  "example_too_big6 = pdnet_ethernet_hdr_bytes (example_eth PDNET_ETHER_TYPE_IPV6) @
     pdnet_ipv6_hdr_bytes (example_ipv6 PDNET_IP_PROTO_ICMPV6 99 8) @
     pdnet_icmpv6_hdr_bytes \<lparr>icmp6_type = 2, icmp6_code = 0, icmp6_checksum = 0\<rparr> @
     le_bytes 4 (1280 :: u32) @
     pdnet_ipv6_hdr_bytes (example_ipv6 PDNET_IP_PROTO_TCP 8 7) @
     pdnet_l4_ports_hdr_bytes (example_ports 10 9) @ []"

definition example_ctx :: glb_fwd_config_ctx where
  "example_ctx =
     (let raw = sample_config (replicate 16 0) (replicate 524288 0)
      in \<lparr>raw_config = raw, raw_config_size = of_nat (length raw), ref_count = 1\<rparr>)"

abbreviation pcap_of :: "bytes \<Rightarrow> pcap_packet" where
  "pcap_of bs \<equiv> \<lparr>pcap_data = bs, pcap_len = length bs\<rparr>"

lemma example_hdrs [simp]:
  "eth_ether_type (example_eth t) = htons t"
  "ip4_next_proto (example_ipv4 p s d) = p" "ip4_src_addr (example_ipv4 p s d) = s"
  "ip4_dst_addr (example_ipv4 p s d) = d"
  "ip6_next_proto (example_ipv6 p s6 d6) = p" "ip6_src_addr (example_ipv6 p s6 d6) = s6"
  "ip6_dst_addr (example_ipv6 p s6 d6) = d6"
  "l4_src_port (example_ports a b) = a" "l4_dst_port (example_ports a b) = b"
  "length (ipv4_hops (example_context q)) = GLB_MAX_HOPS"
  by (simp_all add: example_eth_def example_ipv4_def example_ipv6_def example_ports_def
      example_context_def GLB_MAX_HOPS_def)

lemma example_tcp4_parses:
  "\<exists>px. glb_extract_packet_fields safely_get_header_raw (raw_context example_tcp4 rc) = Some px"
proof -
  have "raw_context example_tcp4 rc = (raw_context [] rc)\<lparr>packet_data := example_tcp4\<rparr>"
    by (simp add: raw_context_def)
  then show ?thesis
    by (simp add: example_tcp4_def glb_extract_raw_ipv4 extract_ipv4_ports_raw)
qed

subsection \<open>Properties\<close>

text \<open>
  C21: the two compilations of the parser agree. For every lawful reader hook and every packet, the
  lineariser mode succeeds exactly when the raw mode succeeds on the packet's bytes, and extracts
  the same fields; in particular its fixed linearisation space is never too small.
\<close>

theorem parser_modes_agree:
  assumes "packet_reader encap_packet_data_read contents wf_packet"
    and "wf_packet (packet_data rc)" and "linearisation_space_offset rc = 0"
  shows "map_option parsed_fields
      (glb_extract_packet_fields (safely_get_header_lineariser encap_packet_data_read) rc) =
    map_option parsed_fields
      (glb_extract_packet_fields safely_get_header_raw (raw_context (contents (packet_data rc)) rc))"
  using assms by (intro packet_reader.glb_extract_packet_fields_raw)

theorem parser_modes_agree_witness:
  "map_option parsed_fields
      (glb_extract_packet_fields (safely_get_header_lineariser encap_packet_data_read_pcap)
        (example_context (pcap_of example_tcp4))) =
    map_option parsed_fields
      (glb_extract_packet_fields safely_get_header_raw
        (raw_context example_tcp4 (example_context (pcap_of example_tcp4))))"
  using parser_modes_agree [OF pcap.packet_reader_axioms, of "example_context (pcap_of example_tcp4)"]
  by (simp add: example_context_def)

text \<open>
  C1: the route of a packet is a table lookup. With a lawful reader, route calculation succeeds
  exactly when the packet parses; the hops are then the primary and secondary backend of the row that
  SipHash of the configured fields selects, followed by those of the row for the alternative fields
  when these are in use: two or four hops, in this order.
\<close>

theorem route_is_table_lookup:
  assumes "packet_reader encap_packet_data_read contents wf_packet" and "wf_packet pkt"
    and "length (ipv4_hops rc0) = GLB_MAX_HOPS"
  shows "case glb_extract_packet_fields safely_get_header_raw (raw_context (contents pkt) rc0) of
      None \<Rightarrow> glb_calculate_packet_route encap_packet_data_read cfg ctx table_id pkt rc0 = None
    | Some px \<Rightarrow> \<exists>rc. glb_calculate_packet_route encap_packet_data_read cfg ctx table_id pkt rc0 = Some rc \<and>
        take (unat (hop_count rc)) (ipv4_hops rc) =
          packet_hops cfg (content_table (raw_config ctx) table_id) px \<and>
        unat (hop_count rc) = (if use_alt_hash_fields cfg then 4 else 2)"
  using packet_reader.route_raw [OF assms, where ctx = ctx and table_id = table_id and cfg = cfg]
  by (auto split: option.splits)

theorem route_is_table_lookup_witness:
  "\<exists>rc (px :: bytes glb_route_context). glb_calculate_packet_route encap_packet_data_read_pcap (zero_director_config 1)
      example_ctx 0 (pcap_of example_tcp4) (example_context (pcap_of [])) = Some rc \<and>
    take (unat (hop_count rc)) (ipv4_hops rc) =
      packet_hops (zero_director_config 1) (content_table (raw_config example_ctx) 0) px \<and>
    unat (hop_count rc) = 2"
proof -
  obtain px where "glb_extract_packet_fields safely_get_header_raw
      (raw_context example_tcp4 (example_context (pcap_of []))) = Some px"
    using example_tcp4_parses by blast
  moreover have "\<not> use_alt_hash_fields (zero_director_config 1)"
    by (simp add: zero_director_config_def)
  ultimately show ?thesis
    using route_is_table_lookup [OF pcap.packet_reader_axioms, of "pcap_of example_tcp4"
        "example_context (pcap_of [])" "zero_director_config 1" example_ctx 0]
    by auto
qed

text \<open>
  C19: an ICMP destination-unreachable message about a packet that a server sent to a client takes
  the route of the client's own packets: same hops, same table hash, same outer source port.
\<close>

theorem icmp_unreachable_same_route:
  assumes "packet_reader encap_packet_data_read contents wf_packet" and "wf_packet p" and "wf_packet q"
    and "length (ipv4_hops r0) = GLB_MAX_HOPS" and "length (ipv4_hops s0) = GLB_MAX_HOPS"
    and "contents p = pdnet_ethernet_hdr_bytes eth @ pdnet_ipv4_hdr_bytes ip @
           pdnet_l4_ports_hdr_bytes l4 @ rest"
    and "contents q = pdnet_ethernet_hdr_bytes eth' @ pdnet_ipv4_hdr_bytes ip' @
           pdnet_icmpv4_hdr_bytes icmp @ pdnet_ipv4_hdr_bytes ret @ pdnet_l4_ports_hdr_bytes retl4 @ rest'"
    and "ntohs (eth_ether_type eth) = PDNET_ETHER_TYPE_IPV4"
    and "ntohs (eth_ether_type eth') = PDNET_ETHER_TYPE_IPV4"
    and "ip4_next_proto ip \<noteq> PDNET_IP_PROTO_ICMPV4" and "ip4_next_proto ip' = PDNET_IP_PROTO_ICMPV4"
    and "icmp4_type icmp = PDNET_ICMPV4_TYPE_DESTINATION_UNREACHABLE"
    and "ipv4_reply_of ip ret" and "ports_reply_of l4 retl4"
  shows "\<exists>r s. glb_calculate_packet_route encap_packet_data_read cfg ctx table_id p r0 = Some r \<and>
    glb_calculate_packet_route encap_packet_data_read cfg ctx table_id q s0 = Some s \<and> same_route r s"
proof (rule packet_reader.same_flow_same_route [OF assms(1-5)])
  show "same_flow (glb_extract_packet_fields safely_get_header_raw (raw_context (contents p) r0))
      (glb_extract_packet_fields safely_get_header_raw (raw_context (contents q) s0))"
    using icmp_unreachable_same_flow [OF assms(8-14), where rc = "raw_context [] r0" and rest = rest
        and rc' = "raw_context [] s0" and rest' = rest']
    by (simp add: raw_context_def assms(6,7))
qed

theorem icmp_unreachable_same_route_witness:
  "\<exists>r s. glb_calculate_packet_route encap_packet_data_read_pcap (zero_director_config 1) example_ctx 0
      (pcap_of example_tcp4) (example_context (pcap_of [])) = Some r \<and>
    glb_calculate_packet_route encap_packet_data_read_pcap (zero_director_config 1) example_ctx 0
      (pcap_of example_unreachable4) (example_context (pcap_of [])) = Some s \<and> same_route r s"
proof -
  have a: "pcap_data (pcap_of example_tcp4) =
     pdnet_ethernet_hdr_bytes (example_eth PDNET_ETHER_TYPE_IPV4) @
     pdnet_ipv4_hdr_bytes (example_ipv4 PDNET_IP_PROTO_TCP 7 8) @
     pdnet_l4_ports_hdr_bytes (example_ports 9 10) @ replicate 16 0"
    by (simp add: example_tcp4_def)
  have b: "pcap_data (pcap_of example_unreachable4) =
     pdnet_ethernet_hdr_bytes (example_eth PDNET_ETHER_TYPE_IPV4) @
     pdnet_ipv4_hdr_bytes (example_ipv4 PDNET_IP_PROTO_ICMPV4 99 8) @
     pdnet_icmpv4_hdr_bytes \<lparr>icmp4_type = 3, icmp4_code = 4, icmp4_checksum = 0, icmp4_type_specific = 0\<rparr> @
     pdnet_ipv4_hdr_bytes (example_ipv4 PDNET_IP_PROTO_TCP 8 7) @
     pdnet_l4_ports_hdr_bytes (example_ports 10 9) @ replicate 4 0"
    by (simp add: example_unreachable4_def)
  show ?thesis
    by (rule icmp_unreachable_same_route [OF pcap.packet_reader_axioms _ _ _ _ a b])
       (simp_all add: ipv4_reply_of_def ports_reply_of_def)
qed

text \<open>
  C20: the same for an ICMPv6 packet-too-big message.
\<close>

theorem icmpv6_too_big_same_route:
  assumes "packet_reader encap_packet_data_read contents wf_packet" and "wf_packet p" and "wf_packet q"
    and "length (ipv4_hops r0) = GLB_MAX_HOPS" and "length (ipv4_hops s0) = GLB_MAX_HOPS"
    and "contents p = pdnet_ethernet_hdr_bytes eth @ pdnet_ipv6_hdr_bytes ip @
           pdnet_l4_ports_hdr_bytes l4 @ rest"
    and "contents q = pdnet_ethernet_hdr_bytes eth' @ pdnet_ipv6_hdr_bytes ip' @
           pdnet_icmpv6_hdr_bytes icmp @ le_bytes 4 (mtu :: u32) @ pdnet_ipv6_hdr_bytes ret @
           pdnet_l4_ports_hdr_bytes retl4 @ rest'"
    and "ntohs (eth_ether_type eth) = PDNET_ETHER_TYPE_IPV6"
    and "ntohs (eth_ether_type eth') = PDNET_ETHER_TYPE_IPV6"
    and "ip6_next_proto ip \<noteq> PDNET_IP_PROTO_ICMPV6" and "ip6_next_proto ip' = PDNET_IP_PROTO_ICMPV6"
    and "icmp6_type icmp = PDNET_ICMPV6_TYPE_PACKET_TOO_BIG"
    and "ipv6_reply_of ip ret" and "ports_reply_of l4 retl4"
  shows "\<exists>r s. glb_calculate_packet_route encap_packet_data_read cfg ctx table_id p r0 = Some r \<and>
    glb_calculate_packet_route encap_packet_data_read cfg ctx table_id q s0 = Some s \<and> same_route r s"
proof (rule packet_reader.same_flow_same_route [OF assms(1-5)])
  show "same_flow (glb_extract_packet_fields safely_get_header_raw (raw_context (contents p) r0))
      (glb_extract_packet_fields safely_get_header_raw (raw_context (contents q) s0))"
    using icmpv6_too_big_same_flow [OF assms(8-14), where rc = "raw_context [] r0" and rest = rest
        and rc' = "raw_context [] s0" and rest' = rest' and mtu = mtu]
    by (simp add: raw_context_def assms(6,7))
qed

theorem icmpv6_too_big_same_route_witness:
  "\<exists>r s. glb_calculate_packet_route encap_packet_data_read_pcap (zero_director_config 1) example_ctx 0
      (pcap_of example_tcp6) (example_context (pcap_of [])) = Some r \<and>
    glb_calculate_packet_route encap_packet_data_read_pcap (zero_director_config 1) example_ctx 0
      (pcap_of example_too_big6) (example_context (pcap_of [])) = Some s \<and> same_route r s"
proof -
  have a: "pcap_data (pcap_of example_tcp6) =
     pdnet_ethernet_hdr_bytes (example_eth PDNET_ETHER_TYPE_IPV6) @
     pdnet_ipv6_hdr_bytes (example_ipv6 PDNET_IP_PROTO_TCP 7 8) @
     pdnet_l4_ports_hdr_bytes (example_ports 9 10) @ replicate 16 0"
    by (simp add: example_tcp6_def)
  have b: "pcap_data (pcap_of example_too_big6) =
     pdnet_ethernet_hdr_bytes (example_eth PDNET_ETHER_TYPE_IPV6) @
     pdnet_ipv6_hdr_bytes (example_ipv6 PDNET_IP_PROTO_ICMPV6 99 8) @
     pdnet_icmpv6_hdr_bytes \<lparr>icmp6_type = 2, icmp6_code = 0, icmp6_checksum = 0\<rparr> @
     le_bytes 4 (1280 :: u32) @
     pdnet_ipv6_hdr_bytes (example_ipv6 PDNET_IP_PROTO_TCP 8 7) @
     pdnet_l4_ports_hdr_bytes (example_ports 10 9) @ []"
    by (simp add: example_too_big6_def)
  show ?thesis
    by (rule icmpv6_too_big_same_route [OF pcap.packet_reader_axioms _ _ _ _ a b])
       (simp_all add: ipv6_reply_of_def ports_reply_of_def)
qed

text \<open>A packet buffer with a headroom, and checksum functions, for examples.\<close>

definition example_mbuf_ops :: "(nat \<times> bytes) mbuf_ops" where
  "example_mbuf_ops =
     \<lparr>rte_pktmbuf_read = (\<lambda>m. read_bytes (snd m)),
      rte_pktmbuf_adj = (\<lambda>m n. (fst m + n, drop n (snd m))),
      rte_pktmbuf_prepend = (\<lambda>m n. if n \<le> fst m then Some (fst m - n, replicate n 0 @ snd m) else None),
      mbuf_store = (\<lambda>m off xs. (fst m, write_bytes (snd m) off xs))\<rparr>"

definition example_cksum_ops :: rte_cksum_ops where
  "example_cksum_ops =
     \<lparr>rte_ipv4_cksum = (\<lambda>_. 0x1234), rte_ipv4_udptcp_cksum = (\<lambda>_. 0x5678),
      rte_ipv4_phdr_cksum = (\<lambda>_ _. 0), PKT_TX_IPV4 = 1, PKT_TX_IP_CKSUM = 2, PKT_TX_UDP_CKSUM = 4,
      RTE_PTYPE_ETHER_IPV4_UDP = 0x211\<rparr>"

lemma example_mbuf_laws: "mbuf_laws example_mbuf_ops snd"
  by (auto simp: mbuf_laws_def example_mbuf_ops_def split: if_splits)

lemma zero_config_no_alt: "\<not> use_alt_hash_fields (zero_director_config n)"
  by (simp add: zero_director_config_def)

lemma example_dpdk_ok:
  assumes "\<not> use_alt_hash_fields cfg"
  shows "\<exists>pkt'. glb_encapsulate_packet_dpdk example_mbuf_ops example_cksum_ops snd cfg
      (example_context (0, [])) example_ctx
      \<lparr>mbuf_data = (128, example_tcp4), mbuf_l2_len = 0, mbuf_l3_len = 0, mbuf_packet_type = 0,
       mbuf_ol_flags = 0\<rparr> 0 = (True, pkt')"
proof -
  let ?rd = "encap_packet_data_read_dpdk example_mbuf_ops"
    and ?m = "(128, example_tcp4)" and ?rc = "example_context (0 :: nat, [] :: bytes)"
  note route = packet_reader.route_raw [OF mbuf_laws_reader [OF example_mbuf_laws] TrueI, of ?rc,
      where ctx = example_ctx and table_id = 0 and cfg = cfg and pkt = ?m]
  obtain px where "glb_extract_packet_fields safely_get_header_raw (raw_context example_tcp4 ?rc) = Some px"
    using example_tcp4_parses by blast
  then obtain rc where rc: "glb_calculate_packet_route ?rd cfg example_ctx 0 ?m ?rc = Some rc"
    "unat (hop_count rc) = 2"
    using route assms by auto
  have "unat (content_num_tables (raw_config example_ctx)) = 1"
    by (simp add: example_ctx_def Let_def)
  then show ?thesis
    using rc
    by (simp add: glb_encapsulate_packet_dpdk_def ROUTE_CONTEXT_ENCAP_SIZE_def example_mbuf_ops_def)
qed

text \<open>
  C18: the packet the DPDK director sends. When encapsulation succeeds, the packet that leaves is:
  an Ethernet header to the gateway; an IPv4 header from the director to the first hop, with the
  length of what follows and the computed header checksum; a UDP header to the GUE port whose source
  port comes from the table hash and the flow hint; a GUE header that counts the remaining hops; the
  remaining hops in order; and the received packet without its Ethernet header, unchanged.
\<close>

theorem dpdk_output_packet:
  assumes "mbuf_laws ops contents" and "length (ipv4_hops rc0) = GLB_MAX_HOPS"
    and "glb_encapsulate_packet_dpdk ops ck contents cfg rc0 ctx pkt table_id = (True, pkt')"
  shows "\<exists>px udp_ck. table_id < unat (content_num_tables (raw_config ctx)) \<and>
    glb_extract_packet_fields safely_get_header_raw (raw_context (contents (mbuf_data pkt)) rc0) = Some px \<and>
    contents (mbuf_data pkt') = encapsulated cfg (content_table (raw_config ctx) table_id) px
       (rte_ipv4_cksum ck (pdnet_ipv4_hdr_bytes (outer_ipv4 (local_ip_addr cfg)
          (packet_hops cfg (content_table (raw_config ctx) table_id) px) (ip_total_length px) 0)))
       udp_ck (drop sizeof_eth (contents (mbuf_data pkt)))"
  using dpdk_output [OF assms] by metis

theorem dpdk_output_packet_witness:
  "\<exists>pkt' px udp_ck.
     glb_encapsulate_packet_dpdk example_mbuf_ops example_cksum_ops snd (zero_director_config 1)
      (example_context (0, [])) example_ctx
      \<lparr>mbuf_data = (128, example_tcp4), mbuf_l2_len = 0, mbuf_l3_len = 0, mbuf_packet_type = 0,
       mbuf_ol_flags = 0\<rparr> 0 = (True, pkt') \<and>
     snd (mbuf_data pkt') = encapsulated (zero_director_config 1)
      (content_table (raw_config example_ctx) 0) (px :: bytes glb_route_context) 0x1234 udp_ck
      (drop sizeof_eth example_tcp4)"
proof -
  obtain pkt' where ok: "glb_encapsulate_packet_dpdk example_mbuf_ops example_cksum_ops snd
      (zero_director_config 1) (example_context (0, [])) example_ctx
      \<lparr>mbuf_data = (128, example_tcp4), mbuf_l2_len = 0, mbuf_l3_len = 0, mbuf_packet_type = 0,
       mbuf_ol_flags = 0\<rparr> 0 = (True, pkt' :: (nat \<times> bytes) rte_mbuf)"
    using example_dpdk_ok [OF zero_config_no_alt] by blast
  from dpdk_output_packet [OF example_mbuf_laws _ ok] show ?thesis
    using ok by (auto simp: example_cksum_ops_def)
qed



text \<open>
  C29: the pcap tool encapsulates as the director does, with both checksums zero, but the inner packet
  it appends starts with the captured Ethernet header: the first 40 bytes of the frame, where the
  comment announces the inbound IP and TCP headers.
\<close>

theorem pcap_output_packet:
  assumes "pcap_len pkt = length (pcap_data pkt)" and "length (ipv4_hops rc0) = GLB_MAX_HOPS"
    and "glb_encapsulate_packet_pcap cfg rc0 ctx pkt table_id = PcapSent out"
  shows "\<exists>px. glb_extract_packet_fields safely_get_header_raw (raw_context (pcap_data pkt) rc0) = Some px \<and>
    out = encapsulated cfg (content_table (raw_config ctx) table_id) px 0 0
      (take INBOUND_HEADER_SIZE_L3 (pcap_data pkt))"
  using pcap_output [OF assms] by metis

lemma example_pcap_ok:
  "\<exists>out. glb_encapsulate_packet_pcap (zero_director_config 1) (example_context (pcap_of [])) example_ctx
      (pcap_of example_tcp4) 0 = PcapSent out"
proof -
  let ?cfg = "zero_director_config 1" and ?rc = "example_context (pcap_of [])"
  obtain px where "glb_extract_packet_fields safely_get_header_raw (raw_context example_tcp4 ?rc) = Some px"
    using example_tcp4_parses by blast
  then obtain rc where rc: "glb_calculate_packet_route encap_packet_data_read_pcap ?cfg example_ctx 0
      (pcap_of example_tcp4) ?rc = Some rc"
    using pcap.route_raw [of "pcap_of example_tcp4" ?rc, where ctx = example_ctx and table_id = 0
        and cfg = ?cfg] by auto
  have "unat (content_num_tables (raw_config example_ctx)) = 1" "length example_tcp4 = 54"
    by (simp_all add: example_ctx_def Let_def example_tcp4_def)
  then show ?thesis
    using rc by (simp add: glb_encapsulate_packet_pcap_def encap_packet_data_read_pcap_def
        INBOUND_HEADER_SIZE_L3_def)
qed

theorem pcap_output_packet_witness:
  "\<exists>out px. glb_encapsulate_packet_pcap (zero_director_config 1) (example_context (pcap_of [])) example_ctx
      (pcap_of example_tcp4) 0 = PcapSent out \<and>
     out = encapsulated (zero_director_config 1) (content_table (raw_config example_ctx) 0)
       (px :: bytes glb_route_context) 0 0 (take INBOUND_HEADER_SIZE_L3 example_tcp4)"
proof -
  obtain out where ok: "glb_encapsulate_packet_pcap (zero_director_config 1)
      (example_context (pcap_of [])) example_ctx (pcap_of example_tcp4) 0 = PcapSent out"
    using example_pcap_ok by blast
  from pcap_output_packet [OF _ _ ok] show ?thesis
    using ok by auto
qed



end
