(* ===== verification/Siphash_Test.thy ===== *)
theory Siphash_Test
  imports Siphash
begin

text \<open>
  A test vector for both SipHash routines, evaluated round by round: the row hash of row \<open>0xffff\<close> in
  \<open>src/glb-director/tests/test_rendezvous_table.py\<close>.
\<close>

definition test_seed :: bytes where
  "test_seed =
     [0x49, 0xa3, 0xd8, 0x61, 0xd6, 0x61, 0xae, 0x5a, 0xb0, 0x6e, 0xd9, 0x32, 0x68, 0x71, 0xa2, 0xf5]"

lemma test_sip_init:
  "sip_init test_seed =
     (0x29c10cb311abc63c, 0x91cd03095cbd01dd, 0x36d706b30fbdd128, 0x81c7150a4bad0bc3)"
  by (simp add: test_seed_def sip_init_def U8TO64_LE_def)

lemma test_rounds:
  "SIPROUND (0x29c10cb311abc63c, 0x91cd03095cbd01dd, 0x36d706b30fbdd128, 0x85c7150ab4520bc3) =
     (0x17fd78098b5a68e8, 0x90daa34f662360d5, 0x9263570bd88d3fe9, 0xea048182aecf5a7d)"
  "SIPROUND (0x17fd78098b5a68e8, 0x90daa34f662360d5, 0x9263570bd88d3fe9, 0xea048182aecf5a7d) =
     (0xef633fff85f98bba, 0x9620eae5d389ef6f, 0x24c4160c7919d02b, 0x27589bd189a63714)"
  "SIPROUND (0xeb633fff7a068bba, 0x9620eae5d389ef6f, 0x24c4160c7919d0d4, 0x27589bd189a63714) =
     (0x255db3a1b7584b95, 0xc9dda28960e6a864, 0x733d91d5e8f54272, 0x2a5b0925a142b232)"
  "SIPROUND (0x255db3a1b7584b95, 0xc9dda28960e6a864, 0x733d91d5e8f54272, 0x2a5b0925a142b232) =
     (0xacfc2fb32741352a, 0xd6c8f5782eee9b2, 0x576a5f66f9031533, 0xdbdb2f08f8b3a28d)"
  "SIPROUND (0xacfc2fb32741352a, 0xd6c8f5782eee9b2, 0x576a5f66f9031533, 0xdbdb2f08f8b3a28d) =
     (0xc67d95b90da42b25, 0xc06933cbd65f4035, 0x68bd17315ec7ddc7, 0x1df7f2d48ec7a28b)"
  "SIPROUND (0xc67d95b90da42b25, 0xc06933cbd65f4035, 0x68bd17315ec7ddc7, 0x1df7f2d48ec7a28b) =
     (0x5864f01cd5eb6729, 0x41caa55f5f3a1296, 0xf99553a92754bd54, 0xc02d108f6145eb19)"
  by (simp_all add: SIPROUND_def ROTL_def)

lemma test_sip_compress:
  "sip_compress (0x29c10cb311abc63c, 0x91cd03095cbd01dd, 0x36d706b30fbdd128, 0x81c7150a4bad0bc3) 0x4000000ffff0000 =
     (0xeb633fff7a068bba, 0x9620eae5d389ef6f, 0x24c4160c7919d02b, 0x27589bd189a63714)"
  by (simp add: sip_compress_def test_rounds)

lemma test_sip_finish:
  "sip_finish (0xeb633fff7a068bba, 0x9620eae5d389ef6f, 0x24c4160c7919d02b, 0x27589bd189a63714) = 0x20161665ccc023f2"
  by (simp add: sip_finish_def test_rounds)

lemma test_siphash: "siphash [0, 0, 0xff, 0xff] test_seed = [0xf2, 0x23, 0xc0, 0xcc, 0x65, 0x16, 0x16, 0x20]"
  by (simp add: siphash_eq_foldl test_sip_init test_sip_compress test_sip_finish byte_eval)

text \<open>The hashes of the backends 10.0.0.1, 10.0.0.2 and 10.0.0.3 in that row.\<close>

lemma example_rounds:
  "SIPROUND (0x29c10cb311abc63c, 0x91cd03095cbd01dd, 0x36d706b30fbdd128, 0xa1d1036f876d2831) =
     (0x4a3055697aa96844, 0xbcc0b2e8913e44a7, 0x657e7379f4972e4e, 0xe3c7b6026bb210b5)"
  "SIPROUND (0x4a3055697aa96844, 0xbcc0b2e8913e44a7, 0x657e7379f4972e4e, 0xe3c7b6026bb210b5) =
     (0xb2befb977ede516, 0x6d19c514955abb2e, 0x23bc9a7659f243f2, 0x52e5f022ef720d9e)"
  "SIPROUND (0x2b3df9dcbb2dc6e4, 0x6d19c514955abb2e, 0x23bc9a7659f243f2, 0x5ee5f022ee720d94) =
     (0xc308e6fdde47ce54, 0x7b23b929cf32e0dd, 0x5051a1372397b6f3, 0x5e6058fc32299e58)"
  "SIPROUND (0xc308e6fdde47ce54, 0x7b23b929cf32e0dd, 0x5051a1372397b6f3, 0x5e6058fc32299e58) =
     (0xa3c8774c09c5ab52, 0xc43871374788c7b3, 0x472255a0f7bb93f5, 0xa091046d6cbb62eb)"
  "SIPROUND (0xafc8774c08c5ab58, 0xc43871374788c7b3, 0x472255a0f7bb930a, 0xa091046d6cbb62eb) =
     (0x342ca9c07a9e3de7, 0x613dcbf0ba37f5cd, 0xad2f018161d95a80, 0xe28c7a6ad6024621)"
  "SIPROUND (0x342ca9c07a9e3de7, 0x613dcbf0ba37f5cd, 0xad2f018161d95a80, 0xe28c7a6ad6024621) =
     (0x2aa7e1a30764b7de, 0x7e204a3b3d6d181c, 0x24b4034bbcfdee4, 0x9769deeb42da0deb)"
  "SIPROUND (0x2aa7e1a30764b7de, 0x7e204a3b3d6d181c, 0x24b4034bbcfdee4, 0x9769deeb42da0deb) =
     (0x8c302dc09c0aa784, 0xa3a3a43766016e13, 0xe67c2d0d3b446b93, 0x348e458fe8c24c4f)"
  "SIPROUND (0x8c302dc09c0aa784, 0xa3a3a43766016e13, 0xe67c2d0d3b446b93, 0x348e458fe8c24c4f) =
     (0x6091aff6981d5564, 0xc2ff0499013af6f, 0x53d519c5765fafd5, 0x2b7ca6c6f59685d7)"
  "SIPROUND (0x2b3df9dcbb2dc6e4, 0x6d19c514955abb2e, 0x23bc9a7659f243f2, 0x5ee5f022ed720d94) =
     (0xc308e9fde347ce54, 0x7b23b929d032e0dd, 0x4f51a1372397b6f3, 0x3e61b7fc0f299e58)"
  "SIPROUND (0xc308e9fde347ce54, 0x7b23b929d032e0dd, 0x4f51a1372397b6f3, 0x3e61b7fc0f299e58) =
     (0xedca054beac60e51, 0xe4ff2c972288c7b3, 0x222255a0d6bcf255, 0x2e9f96668f8147bb)"
  "SIPROUND (0xe1ca054be8c60e5b, 0xe4ff2c972288c7b3, 0x222255a0d6bcf2aa, 0x2e9f96668f8147bb) =
     (0xd1f63994e84e46dd, 0xdf79e6c82cd4a241, 0x79f6e4f6741dc1b9, 0xa132093677169231)"
  "SIPROUND (0xd1f63994e84e46dd, 0xdf79e6c82cd4a241, 0x79f6e4f6741dc1b9, 0xa132093677169231) =
     (0x274182592a761335, 0xe35d1121c97c3d89, 0x6c9f26dba8d213f4, 0xea2e7717450e6)"
  "SIPROUND (0x274182592a761335, 0xe35d1121c97c3d89, 0x6c9f26dba8d213f4, 0xea2e7717450e6) =
     (0xc23d0975553ef84e, 0x41c29c9e572280da, 0x8e89d1af15687418, 0xd4d45d79cfa73119)"
  "SIPROUND (0xc23d0975553ef84e, 0x41c29c9e572280da, 0x8e89d1af15687418, 0xd4d45d79cfa73119) =
     (0xea8959b7d81617f8, 0x6a2564d483a97699, 0xe189d641b3ca9c20, 0xfb73db79e4b1d304)"
  "SIPROUND (0x2b3df9dcbb2dc6e4, 0x6d19c514955abb2e, 0x23bc9a7659f243f2, 0x5ee5f022ec720d94) =
     (0xc308e8fde447ce54, 0x7b23b929d132e0dd, 0x4e51a1372397b6f3, 0x1e6196fc08299e58)"
  "SIPROUND (0xc308e8fde447ce54, 0x7b23b929d132e0dd, 0x4e51a1372397b6f3, 0x1e6196fc08299e58) =
     (0xafc9df4bf3c5ed51, 0x85bf02f71588c7b3, 0x152255a0b5bcd035, 0xac9f6c62969aa4b7)"
  "SIPROUND (0xa3c9df4bf0c5ed5b, 0x85bf02f71588c7b3, 0x152255a0b5bcd0ca, 0xac9f6c62969aa4b7) =
     (0xb3f209a81269bb61, 0x8a73ff84e063a896, 0x6b103b3a8b97c2f5, 0x20cf15b331bc0f0b)"
  "SIPROUND (0xb3f209a81269bb61, 0x8a73ff84e063a896, 0x6b103b3a8b97c2f5, 0x20cf15b331bc0f0b) =
     (0x9139c548f0befbfb, 0xe734e9b120410794, 0x453384b9cd75e60e, 0xbb0f8e56a94d3677)"
  "SIPROUND (0x9139c548f0befbfb, 0xe734e9b120410794, 0x453384b9cd75e60e, 0xbb0f8e56a94d3677) =
     (0x9f15bdecb9235684, 0xf07ffde79666715f, 0xa8b5bbeee59b9e02, 0xd4bdab7848729433)"
  "SIPROUND (0x9f15bdecb9235684, 0xf07ffde79666715f, 0xa8b5bbeee59b9e02, 0xd4bdab7848729433) =
     (0x2594f6f949d3a25c, 0x7fadb33bdc688c73, 0xafb06c21ed9cb07f, 0xc723b14598c96339)"
  by (simp_all add: SIPROUND_def ROTL_def)

lemma example_compress:
  "sip_compress (0x29c10cb311abc63c, 0x91cd03095cbd01dd, 0x36d706b30fbdd128, 0x81c7150a4bad0bc3) 0x20161665ccc023f2 =
     (0x2b3df9dcbb2dc6e4, 0x6d19c514955abb2e, 0x23bc9a7659f243f2, 0x52e5f022ef720d9e)"
  "sip_compress (0x2b3df9dcbb2dc6e4, 0x6d19c514955abb2e, 0x23bc9a7659f243f2, 0x52e5f022ef720d9e) 0xc0000000100000a =
     (0xafc8774c08c5ab58, 0xc43871374788c7b3, 0x472255a0f7bb93f5, 0xa091046d6cbb62eb)"
  "sip_compress (0x2b3df9dcbb2dc6e4, 0x6d19c514955abb2e, 0x23bc9a7659f243f2, 0x52e5f022ef720d9e) 0xc0000000200000a =
     (0xe1ca054be8c60e5b, 0xe4ff2c972288c7b3, 0x222255a0d6bcf255, 0x2e9f96668f8147bb)"
  "sip_compress (0x2b3df9dcbb2dc6e4, 0x6d19c514955abb2e, 0x23bc9a7659f243f2, 0x52e5f022ef720d9e) 0xc0000000300000a =
     (0xa3c9df4bf0c5ed5b, 0x85bf02f71588c7b3, 0x152255a0b5bcd035, 0xac9f6c62969aa4b7)"
  by (simp_all add: sip_compress_def example_rounds)

lemma example_finish:
  "sip_finish (0xafc8774c08c5ab58, 0xc43871374788c7b3, 0x472255a0f7bb93f5, 0xa091046d6cbb62eb) = 0x1417e0bc8bc7d009"
  "sip_finish (0xe1ca054be8c60e5b, 0xe4ff2c972288c7b3, 0x222255a0d6bcf255, 0x2e9f96668f8147bb) = 0x9a56305b0cc42e45"
  "sip_finish (0xa3c9df4bf0c5ed5b, 0x85bf02f71588c7b3, 0x152255a0b5bcd035, 0xac9f6c62969aa4b7) = 0x32aa98a6e0eefd69"
  by (simp_all add: sip_finish_def example_rounds)

lemma example_siphash:
  "siphash [0xf2, 0x23, 0xc0, 0xcc, 0x65, 0x16, 0x16, 0x20, 0xa, 0x0, 0x0, 0x1] test_seed =
     [0x9, 0xd0, 0xc7, 0x8b, 0xbc, 0xe0, 0x17, 0x14]"
  "siphash [0xf2, 0x23, 0xc0, 0xcc, 0x65, 0x16, 0x16, 0x20, 0xa, 0x0, 0x0, 0x2] test_seed =
     [0x45, 0x2e, 0xc4, 0xc, 0x5b, 0x30, 0x56, 0x9a]"
  "siphash [0xf2, 0x23, 0xc0, 0xcc, 0x65, 0x16, 0x16, 0x20, 0xa, 0x0, 0x0, 0x3] test_seed =
     [0x69, 0xfd, 0xee, 0xe0, 0xa6, 0x98, 0xaa, 0x32]"
  by (simp_all add: siphash_eq_foldl test_sip_init example_compress example_finish byte_eval)

end
