(* ===== verification/Fwd_Build.thy ===== *)
theory Fwd_Build
  imports Fwd_Config Director_Config Siphash "HOL-Library.Multiset"
begin

text \<open>
  The table builder \<open>glb-director-cli build-config\<close> (\<open>src/glb-director/cli/main.c\<close>): it reads the JSON
  description of the tables, writes the binary forwarding table with its precomputed rendezvous
  rows to a temporary file and renames that file over the destination. jansson and \<open>inet_pton\<close> are
  arguments, as in \<open>Director_Config\<close>; so is the C library's \<open>qsort\<close>, whose order of equal elements is
  unspecified.
\<close>

subsection \<open>Entries of the file\<close>

abbreviation GLB_BACKEND_HEALTH_DOWN :: u16 where "GLB_BACKEND_HEALTH_DOWN \<equiv> 0"
abbreviation GLB_BACKEND_HEALTH_UP :: u16 where "GLB_BACKEND_HEALTH_UP \<equiv> 1"
abbreviation GLB_BACKEND_STATE_FILLING :: u16 where "GLB_BACKEND_STATE_FILLING \<equiv> 0"
abbreviation GLB_BACKEND_STATE_ACTIVE :: u16 where "GLB_BACKEND_STATE_ACTIVE \<equiv> 1"
abbreviation GLB_BACKEND_STATE_DRAINING_INACTIVE :: u16 where
  "GLB_BACKEND_STATE_DRAINING_INACTIVE \<equiv> 2"
abbreviation GLB_FAMILY_IPV4 :: u32 where "GLB_FAMILY_IPV4 \<equiv> 1"
abbreviation GLB_FAMILY_IPV6 :: u32 where "GLB_FAMILY_IPV6 \<equiv> 2"
abbreviation GLB_IPPROTO_UDP :: u8 where "GLB_IPPROTO_UDP \<equiv> 17"
abbreviation GLB_IPPROTO_TCP :: u8 where "GLB_IPPROTO_TCP \<equiv> 6"

record backend_entry =
  bk_family :: u32
  bk_ip :: ipv6_addr
  bk_state :: u16
  bk_health :: u16

record bind_entry =
  bn_family :: u32
  bn_ip :: ipv6_addr
  bn_ip_bits :: u16
  bn_port_start :: u16
  bn_port_end :: u16
  bn_ipproto :: u8
  bn_reserved :: u8

record table_entry =
  primary_idx :: u32
  secondary_idx :: u32

record sortable_backend =
  sb_index :: u32
  sb_hash :: u64
  sb_backend :: backend_entry

definition zero_backend_entry :: backend_entry where
  "zero_backend_entry = \<lparr>bk_family = 0, bk_ip = 0, bk_state = 0, bk_health = 0\<rparr>"

definition zero_bind_entry :: bind_entry where
  "zero_bind_entry = \<lparr>bn_family = 0, bn_ip = 0, bn_ip_bits = 0, bn_port_start = 0, bn_port_end = 0,
     bn_ipproto = 0, bn_reserved = 0\<rparr>"

definition backend_entry_bytes :: "backend_entry \<Rightarrow> bytes" where
  "backend_entry_bytes e = le_bytes 4 (bk_family e) @ le_bytes 16 (bk_ip e) @
     le_bytes 2 (bk_state e) @ le_bytes 2 (bk_health e)"

definition bind_entry_bytes :: "bind_entry \<Rightarrow> bytes" where
  "bind_entry_bytes e = le_bytes 4 (bn_family e) @ le_bytes 16 (bn_ip e) @
     le_bytes 2 (bn_ip_bits e) @ le_bytes 2 (bn_port_start e) @ le_bytes 2 (bn_port_end e) @
     [bn_ipproto e, bn_reserved e]"

definition table_entry_bytes :: "table_entry \<Rightarrow> bytes" where
  "table_entry_bytes e = le_bytes 4 (primary_idx e) @ le_bytes 4 (secondary_idx e)"

definition bin_file_header_bytes :: "u32 \<Rightarrow> bytes" where
  "bin_file_header_bytes num_tables =
     le_bytes 4 (2 :: u32) @ le_bytes 4 num_tables @ le_bytes 4 (0x10000 :: u32) @
     le_bytes 4 (0x100 :: u32) @ le_bytes 4 (0x100 :: u32)"

definition sortable_backend_cmp :: "sortable_backend \<Rightarrow> sortable_backend \<Rightarrow> int" where
  "sortable_backend_cmp a b =
     (if sb_hash a < sb_hash b then - 1 else if sb_hash a > sb_hash b then 1 else 0)"

text \<open>
  The error exits, by their message; \<open>ErrUndefined\<close> is a read of the row loop through an index that
  is not an element of the backend array (from an entry of the sort array that was never set).
\<close>

datatype build_error =
    ErrNoBackends | ErrBackendIp | ErrBackendState | ErrBackendHealth | ErrMalformedIp
  | ErrNoBinds | ErrBindIp | ErrBindProtocol | ErrPort int | ErrMaskBits | ErrProtocol
  | ErrHashKey | ErrHashKeyLength | ErrSeed | ErrSeedLength | ErrUndefined

subsection \<open>Backends\<close>

text \<open>A backend of the JSON array: its entry and whether it takes part in the rows.\<close>

definition parse_backend ::
    "'j jansson \<Rightarrow> (string \<Rightarrow> u32 option) \<Rightarrow> (string \<Rightarrow> ipv6_addr option) \<Rightarrow> 'j option \<Rightarrow>
     build_error + (backend_entry \<times> bool)" where
  "parse_backend J inet_pton4 inet_pton6 backend =
     (case json_string_value J (json_object_get J backend ''ip'') of
        None \<Rightarrow> Inl ErrBackendIp
      | Some backend_ip \<Rightarrow>
     (case json_string_value J (json_object_get J backend ''state'') of
        None \<Rightarrow> Inl ErrBackendState
      | Some backend_state \<Rightarrow>
          let backend_healthy = json_boolean_value J (json_object_get J backend ''healthy'') in
          if backend_healthy \<noteq> 0 \<and> backend_healthy \<noteq> 1 then Inl ErrBackendHealth
          else
     (case (if CHR '':'' \<notin> set backend_ip
            then map_option (\<lambda>a. (GLB_FAMILY_IPV4, ucast a)) (inet_pton4 backend_ip)
            else map_option (\<lambda>a. (GLB_FAMILY_IPV6, a)) (inet_pton6 backend_ip)) of
        None \<Rightarrow> Inl ErrMalformedIp
      | Some (family, ip) \<Rightarrow>
          let entry = (\<lambda>state. \<lparr>bk_family = family, bk_ip = ip, bk_state = state,
                bk_health = (if backend_healthy \<noteq> 0 then GLB_BACKEND_HEALTH_UP
                             else GLB_BACKEND_HEALTH_DOWN)\<rparr>)
          in if backend_state = ''active'' then Inr (entry GLB_BACKEND_STATE_ACTIVE, True)
             else if backend_state = ''filling'' then Inr (entry GLB_BACKEND_STATE_FILLING, True)
             else if backend_state = ''draining'' then Inr (entry GLB_BACKEND_STATE_DRAINING_INACTIVE, True)
             else if backend_state = ''inactive'' then Inr (entry GLB_BACKEND_STATE_DRAINING_INACTIVE, False)
             else Inl ErrBackendState)))"

text \<open>
  The loop over the backends: the entries of the file and the part of the sort array that is set. The
  hash of an entry of the sort array keeps its old value until the row loop. JSON arrays are taken to
  have fewer than \<open>2 ^ 32\<close> elements, so that the 32-bit counters of the loops hold their sizes.
\<close>

fun build_backends ::
    "'j jansson \<Rightarrow> (string \<Rightarrow> u32 option) \<Rightarrow> (string \<Rightarrow> ipv6_addr option) \<Rightarrow> 'j option \<Rightarrow>
     nat list \<Rightarrow> backend_entry list \<times> sortable_backend list \<times> nat \<Rightarrow>
     build_error + (backend_entry list \<times> sortable_backend list \<times> nat)" where
  "build_backends J inet_pton4 inet_pton6 backends [] st = Inr st"
| "build_backends J inet_pton4 inet_pton6 backends (i # is) (out_backends, sortable, avail) =
     (if i < json_array_size J backends then
        bind_res (parse_backend J inet_pton4 inet_pton6 (json_array_get J backends i))
          (\<lambda>(entry, available).
             build_backends J inet_pton4 inet_pton6 backends is
               (out_backends @ [entry],
                if available
                then sortable[avail := (sortable ! avail)\<lparr>sb_index := of_nat i, sb_backend := entry\<rparr>]
                else sortable,
                if available then avail + 1 else avail))
      else build_backends J inet_pton4 inet_pton6 backends is
             (out_backends @ [zero_backend_entry], sortable, avail))"

subsection \<open>Binds\<close>

text \<open>The C library's \<open>atoi\<close>.\<close>

fun decimal_digits :: "nat \<Rightarrow> string \<Rightarrow> nat" where
  "decimal_digits acc [] = acc"
| "decimal_digits acc (c # cs) =
     (let n = of_char c :: nat in
      if 48 \<le> n \<and> n \<le> 57 then decimal_digits (10 * acc + (n - 48)) cs else acc)"

definition atoi :: "string \<Rightarrow> int" where
  "atoi s =
     (let s = dropWhile isspace s
      in case s of
           [] \<Rightarrow> 0
         | c # cs \<Rightarrow>
             if c = CHR ''-'' then - int (decimal_digits 0 cs)
             else if c = CHR ''+'' then int (decimal_digits 0 cs)
             else int (decimal_digits 0 s))"

definition c_int :: "int \<Rightarrow> int" where
  "c_int v = sint (of_int v :: u32)"

definition bind_ports :: "'j jansson \<Rightarrow> 'j option \<Rightarrow> build_error + (u16 \<times> u16)" where
  "bind_ports J bnd =
     (let port_json = json_object_get J bnd ''port'';
          bind_port_start = c_int (json_integer_value J
            (if port_json \<noteq> None then port_json else json_object_get J bnd ''port_start''));
          bind_port_end = c_int (json_integer_value J
            (if port_json \<noteq> None then port_json else json_object_get J bnd ''port_end''))
      in if \<not> (bind_port_start \<ge> 0 \<and> bind_port_start \<le> 65535) then Inl (ErrPort bind_port_start)
         else if \<not> (bind_port_end \<ge> 0 \<and> bind_port_end \<le> 65535) then Inl (ErrPort bind_port_end)
         else Inr (of_int bind_port_start, of_int bind_port_end))"

text \<open>The address part and the prefix length of \<open>ip\<close> or \<open>ip/bits\<close>.\<close>

definition bind_cidr :: "string \<Rightarrow> build_error + (string \<times> nat)" where
  "bind_cidr bind_ip =
     (let ip_bits = (if CHR '':'' \<in> set bind_ip then 128 else 32 :: nat);
          (addr, rest) = (takeWhile (\<lambda>c. c \<noteq> CHR ''/'') bind_ip, dropWhile (\<lambda>c. c \<noteq> CHR ''/'') bind_ip)
      in case rest of
           [] \<Rightarrow> Inr (addr, ip_bits)
         | _ # bits \<Rightarrow>
             let req_ip_bits = unat (of_int (atoi bits) :: u32)
             in if req_ip_bits > ip_bits then Inl ErrMaskBits else Inr (addr, req_ip_bits))"

definition parse_bind ::
    "'j jansson \<Rightarrow> (string \<Rightarrow> u32 option) \<Rightarrow> (string \<Rightarrow> ipv6_addr option) \<Rightarrow> 'j option \<Rightarrow>
     build_error + bind_entry" where
  "parse_bind J inet_pton4 inet_pton6 bnd =
     (case json_string_value J (json_object_get J bnd ''ip'') of
        None \<Rightarrow> Inl ErrBindIp
      | Some bind_ip \<Rightarrow>
     (case json_string_value J (json_object_get J bnd ''proto'') of
        None \<Rightarrow> Inl ErrBindProtocol
      | Some bind_proto \<Rightarrow>
          bind_res (bind_ports J bnd) (\<lambda>(port_start, port_end).
          bind_res (bind_cidr bind_ip) (\<lambda>(addr, ip_bits).
     (case (if CHR '':'' \<in> set bind_ip
            then map_option (\<lambda>a. (GLB_FAMILY_IPV6, a)) (inet_pton6 addr)
            else map_option (\<lambda>a. (GLB_FAMILY_IPV4, ucast a)) (inet_pton4 addr)) of
        None \<Rightarrow> Inl ErrMalformedIp
      | Some (family, ip) \<Rightarrow>
          let entry = (\<lambda>proto. \<lparr>bn_family = family, bn_ip = ip, bn_ip_bits = of_nat ip_bits,
                bn_port_start = port_start, bn_port_end = port_end, bn_ipproto = proto, bn_reserved = 0\<rparr>)
          in if bind_proto = ''tcp'' then Inr (entry GLB_IPPROTO_TCP)
             else if bind_proto = ''udp'' then Inr (entry GLB_IPPROTO_UDP)
             else Inl ErrProtocol)))))"

fun build_binds ::
    "'j jansson \<Rightarrow> (string \<Rightarrow> u32 option) \<Rightarrow> (string \<Rightarrow> ipv6_addr option) \<Rightarrow> 'j option \<Rightarrow>
     nat list \<Rightarrow> build_error + bind_entry list" where
  "build_binds J inet_pton4 inet_pton6 binds [] = Inr []"
| "build_binds J inet_pton4 inet_pton6 binds (i # is) =
     bind_res (if i < json_array_size J binds
               then parse_bind J inet_pton4 inet_pton6 (json_array_get J binds i)
               else Inr zero_bind_entry)
       (\<lambda>e. bind_res (build_binds J inet_pton4 inet_pton6 binds is) (\<lambda>es. Inr (e # es)))"

subsection \<open>Keys\<close>

text \<open>
  \<open>sscanf\<close> with \<open>%2x\<close>: white space, then at most two characters, one of which may be a sign; \<open>None\<close>
  when nothing matches and the destination keeps its value.
\<close>

definition sscanf_2x :: "string \<Rightarrow> u32 option" where
  "sscanf_2x s =
     (case take 2 (dropWhile isspace s) of
        [] \<Rightarrow> None
      | c # cs \<Rightarrow>
          let digit = (\<lambda>cs. case cs of [] \<Rightarrow> None | d # _ \<Rightarrow> hex_digit d) in
          if c = CHR ''-'' then map_option (\<lambda>d. - of_nat d) (digit cs)
          else if c = CHR ''+'' then map_option of_nat (digit cs)
          else (case hex_digit c of
                  None \<Rightarrow> None
                | Some h \<Rightarrow> (case digit cs of None \<Rightarrow> Some (of_nat h) | Some l \<Rightarrow> Some (of_nat (16 * h + l)))))"

text \<open>\<open>byteval\<close> is not initialised: its first value is an argument.\<close>

fun decodehex :: "u32 \<Rightarrow> string \<Rightarrow> nat \<Rightarrow> bytes" where
  "decodehex byteval src 0 = []"
| "decodehex byteval src (Suc n) =
     (let byteval = (case sscanf_2x src of None \<Rightarrow> byteval | Some v \<Rightarrow> v)
      in ucast byteval # decodehex byteval (drop 2 src) n)"

subsection \<open>Rows\<close>

text \<open>The hash of a backend in a row: SipHash of the row hash and the address, read big-endian.\<close>

definition backend_hash :: "bytes \<Rightarrow> bytes \<Rightarrow> backend_entry \<Rightarrow> u64" where
  "backend_hash seed row_hash backend =
     (let data = row_hash @ le_bytes 16 (bk_ip backend);
          data_len = (if bk_family backend = GLB_FAMILY_IPV4 then 8 + 4 else 8 + 16)
      in bswap_64 (le_word (siphash (take data_len data) seed)))"

definition row_hash :: "bytes \<Rightarrow> nat \<Rightarrow> bytes" where
  "row_hash seed ui = siphash (le_bytes 4 (htonl (of_nat ui))) seed"

text \<open>
  The choice of primary and secondary among the first two elements of the sorted array. The
  comparison of the secondary's state with \<open>GLB_BACKEND_HEALTH_UP\<close> is as in the code.
\<close>

definition pick_entry :: "backend_entry list \<Rightarrow> sortable_backend list \<Rightarrow> build_error + table_entry" where
  "pick_entry out_backends sortable =
     (let i0 = sb_index (sortable ! 0);
          i1 = sb_index (sortable ! 1)
      in if unat i0 \<ge> length out_backends \<or> unat i1 \<ge> length out_backends then Inl ErrUndefined
         else
           let primary_backend = out_backends ! unat i0;
               secondary_backend = out_backends ! unat i1;
               primary_bad = (bk_state primary_backend = GLB_BACKEND_STATE_DRAINING_INACTIVE \<or>
                              bk_health primary_backend \<noteq> GLB_BACKEND_HEALTH_UP);
               first_idx = (if primary_bad \<and> bk_state secondary_backend = GLB_BACKEND_HEALTH_UP
                            then 1 else 0)
           in Inr \<lparr>primary_idx = sb_index (sortable ! first_idx),
                   secondary_idx = sb_index (sortable ! (1 - first_idx))\<rparr>)"

text \<open>One row: hash the available backends, sort them, and pick primary and secondary.\<close>

definition build_row ::
    "(sortable_backend list \<Rightarrow> sortable_backend list) \<Rightarrow> bytes \<Rightarrow> backend_entry list \<Rightarrow> nat \<Rightarrow> nat \<Rightarrow>
     sortable_backend list \<Rightarrow> build_error + (sortable_backend list \<times> table_entry)" where
  "build_row qsort seed out_backends avail ui sortable =
     (let rh = row_hash seed ui;
          hashed = map (\<lambda>b. b\<lparr>sb_hash := backend_hash seed rh (sb_backend b)\<rparr>) (take avail sortable);
          sortable = qsort hashed @ drop avail sortable
      in bind_res (pick_entry out_backends sortable) (\<lambda>entry. Inr (sortable, entry)))"

fun build_rows ::
    "(sortable_backend list \<Rightarrow> sortable_backend list) \<Rightarrow> bytes \<Rightarrow> backend_entry list \<Rightarrow> nat \<Rightarrow>
     nat list \<Rightarrow> sortable_backend list \<Rightarrow> build_error + (sortable_backend list \<times> table_entry list)" where
  "build_rows qsort seed out_backends avail [] sortable = Inr (sortable, [])"
| "build_rows qsort seed out_backends avail (ui # uis) sortable =
     bind_res (build_row qsort seed out_backends avail ui sortable) (\<lambda>(sortable, entry).
     bind_res (build_rows qsort seed out_backends avail uis sortable) (\<lambda>(sortable, es).
     Inr (sortable, entry # es)))"

subsection \<open>Tables and the whole file\<close>

definition parse_key :: "'j jansson \<Rightarrow> build_error \<Rightarrow> build_error \<Rightarrow> u32 \<Rightarrow> 'j option \<Rightarrow> build_error + bytes" where
  "parse_key J missing too_short byteval value =
     (case json_string_value J value of
        None \<Rightarrow> Inl missing
      | Some hex \<Rightarrow> if length hex \<noteq> 32 then Inl too_short else Inr (decodehex byteval hex 16))"

text \<open>What the builder computes of one table.\<close>

record built_table =
  bt_num_backends :: u32
  bt_backends :: "backend_entry list"
  bt_num_binds :: u32
  bt_binds :: "bind_entry list"
  bt_key :: bytes
  bt_rows :: "table_entry list"

definition build_table ::
    "'j jansson \<Rightarrow> (string \<Rightarrow> u32 option) \<Rightarrow> (string \<Rightarrow> ipv6_addr option) \<Rightarrow>
     (sortable_backend list \<Rightarrow> sortable_backend list) \<Rightarrow> u32 \<Rightarrow> 'j option \<Rightarrow> sortable_backend list \<Rightarrow>
     build_error + (sortable_backend list \<times> built_table)" where
  "build_table J inet_pton4 inet_pton6 qsort byteval table sortable =
     (let backends = json_object_get J table ''backends'';
          binds = json_object_get J table ''binds''
      in if backends = None then Inl ErrNoBackends
         else
           bind_res (build_backends J inet_pton4 inet_pton6 backends [0..<GLB_FMT_MAX_NUM_BACKENDS]
                       ([], sortable, 0)) (\<lambda>(out_backends, sortable, avail).
           if binds = None then Inl ErrNoBinds
           else
             bind_res (build_binds J inet_pton4 inet_pton6 binds [0..<GLB_FMT_MAX_NUM_BINDS]) (\<lambda>out_binds.
             bind_res (parse_key J ErrHashKey ErrHashKeyLength byteval
                         (json_object_get J table ''hash_key'')) (\<lambda>hash_key.
             bind_res (parse_key J ErrSeed ErrSeedLength byteval
                         (json_object_get J table ''seed'')) (\<lambda>seed.
             bind_res (build_rows qsort seed out_backends avail [0..<GLB_FMT_TABLE_ENTRIES] sortable)
               (\<lambda>(sortable, rows).
             Inr (sortable,
                  \<lparr>bt_num_backends = of_nat (json_array_size J backends), bt_backends = out_backends,
                   bt_num_binds = of_nat (json_array_size J binds), bt_binds = out_binds,
                   bt_key = hash_key, bt_rows = rows\<rparr>)))))))"

definition built_table_bytes :: "built_table \<Rightarrow> bytes" where
  "built_table_bytes t =
     le_bytes 4 (bt_num_backends t) @ concat (map backend_entry_bytes (bt_backends t)) @
     le_bytes 4 (bt_num_binds t) @ concat (map bind_entry_bytes (bt_binds t)) @
     bt_key t @ concat (map table_entry_bytes (bt_rows t))"

fun build_tables ::
    "'j jansson \<Rightarrow> (string \<Rightarrow> u32 option) \<Rightarrow> (string \<Rightarrow> ipv6_addr option) \<Rightarrow>
     (sortable_backend list \<Rightarrow> sortable_backend list) \<Rightarrow> u32 \<Rightarrow> 'j option list \<Rightarrow> sortable_backend list \<Rightarrow>
     build_error + built_table list" where
  "build_tables J inet_pton4 inet_pton6 qsort byteval [] sortable = Inr []"
| "build_tables J inet_pton4 inet_pton6 qsort byteval (table # tables) sortable =
     bind_res (build_table J inet_pton4 inet_pton6 qsort byteval table sortable) (\<lambda>(sortable, t).
     bind_res (build_tables J inet_pton4 inet_pton6 qsort byteval tables sortable) (\<lambda>ts.
     Inr (t # ts)))"

text \<open>
  The bytes written for a JSON \<open>tables\<close> value; \<open>sortable\<close> is the uninitialised sort array.
\<close>

definition build_config_file ::
    "'j jansson \<Rightarrow> (string \<Rightarrow> u32 option) \<Rightarrow> (string \<Rightarrow> ipv6_addr option) \<Rightarrow>
     (sortable_backend list \<Rightarrow> sortable_backend list) \<Rightarrow> u32 \<Rightarrow> sortable_backend list \<Rightarrow> 'j option \<Rightarrow>
     build_error + bytes" where
  "build_config_file J inet_pton4 inet_pton6 qsort byteval sortable tables =
     bind_res (build_tables J inet_pton4 inet_pton6 qsort byteval
                 (map (json_array_get J tables) [0..<json_array_size J tables]) sortable)
       (\<lambda>ts. Inr ([0x47, 0x4c, 0x42, 0x44] @ bin_file_header_bytes (of_nat (json_array_size J tables)) @
                   concat (map built_table_bytes ts)))"

subsection \<open>The command\<close>

text \<open>
  The file system is a map from paths to contents. What the environment decides is a record: the
  parsed document, the outcome of the allocations and calls, the name \<open>mkstemp\<close> picks, and what of the
  stream has reached the temporary file when it is observed before an error exit or before \<open>fclose\<close>.
  The result is the exit status and the sequence of file system states the command goes through; the
  last one includes the removal of the temporary file by \<open>cleanup_tmp_file\<close>. The results of \<open>fwrite\<close>
  and \<open>fclose\<close> are not checked by the code; here they succeed.
\<close>

record 'j cli_env =
  env_root :: "'j option"
  env_strdup_ok :: bool
  env_mkstemp :: "string option"
  env_fdopen_ok :: bool
  env_partial :: "bytes list"
  env_flushed :: "nat list"
  env_rename_ok :: bool

type_synonym file_system = "string \<rightharpoonup> bytes"

text \<open>Closing the stream and renaming the temporary file over the destination.\<close>

definition cli_finish ::
    "'j cli_env \<Rightarrow> string \<Rightarrow> string \<Rightarrow> bytes \<Rightarrow> file_system \<Rightarrow> nat \<times> file_system list" where
  "cli_finish env tmp_path dst_binary out fs =
     (let closed = fs(tmp_path \<mapsto> out)
      in if \<not> env_rename_ok env then (1, [closed, closed(tmp_path := None)])
         else (0, [closed, (closed(tmp_path := None))(dst_binary \<mapsto> out)]))"

definition cli_main ::
    "'j jansson \<Rightarrow> (string \<Rightarrow> u32 option) \<Rightarrow> (string \<Rightarrow> ipv6_addr option) \<Rightarrow>
     (sortable_backend list \<Rightarrow> sortable_backend list) \<Rightarrow> u32 \<Rightarrow> sortable_backend list \<Rightarrow>
     'j cli_env \<Rightarrow> string list \<Rightarrow> file_system \<Rightarrow> nat \<times> file_system list" where
  "cli_main J inet_pton4 inet_pton6 qsort byteval sortable env argv fs =
     (if length argv \<noteq> 4 \<or> argv ! 1 \<noteq> ''build-config'' then (1, [fs])
      else if env_root env = None then (1, [fs])
      else
        let tables = json_object_get J (env_root env) ''tables'' in
        if tables = None then (1, [fs])
        else if \<not> env_strdup_ok env then (1, [fs])
        else case env_mkstemp env of
          None \<Rightarrow> (1, [fs])
        | Some tmp_path \<Rightarrow>
            let dst_binary = argv ! 3; fs1 = fs(tmp_path \<mapsto> []) in
            if \<not> env_fdopen_ok env then (1, [fs, fs1, fs1(tmp_path := None)])
            else case build_config_file J inet_pton4 inet_pton6 qsort byteval sortable tables of
              Inl e \<Rightarrow> (1, [fs, fs1] @ map (\<lambda>b. fs1(tmp_path \<mapsto> b)) (env_partial env) @
                              [fs1(tmp_path := None)])
            | Inr out \<Rightarrow>
                let writing = map (\<lambda>n. fs1(tmp_path \<mapsto> take n out)) (env_flushed env);
                    (status, states) = cli_finish env tmp_path dst_binary out fs1
                in (status, [fs, fs1] @ writing @ states))"

end
