(* ===== verification/Fwd_Build_Decode.thy ===== *)
theory Fwd_Build_Decode
  imports Fwd_Build
begin

text \<open>
  What the table builder writes is what the director reads: every member of a built table is read
  back by the accessors of the director, built files pass the director's validation, and the command
  replaces its destination atomically.
\<close>


subsection \<open>Arrays of fixed-size records\<close>

lemma length_concat_const:
  "(\<And>x. x \<in> set xs \<Longrightarrow> length (f x) = k) \<Longrightarrow> length (concat (map f xs)) = k * length xs"
  by (induction xs) auto

lemma drop_concat_const:
  assumes "\<And>x. x \<in> set xs \<Longrightarrow> length (f x) = k" "i < length xs"
  shows "\<exists>rest. drop (k * i) (concat (map f xs) @ ys) = f (xs ! i) @ rest"
  using assms
proof (induction xs arbitrary: i)
  case Nil
  then show ?case by simp
next
  case (Cons x xs)
  show ?case
  proof (cases i)
    case 0
    then show ?thesis by simp
  next
    case (Suc j)
    then show ?thesis using Cons by simp
  qed
qed

lemma drop_array:
  assumes "bs = pre @ concat (map f xs) @ post" "length pre = off"
    and "\<And>x. x \<in> set xs \<Longrightarrow> length (f x) = k" "i < length xs"
  obtains r where "drop (off + k * i) bs = f (xs ! i) @ r"
proof -
  have "drop (off + k * i) bs = drop (k * i) (concat (map f xs) @ post)"
    using assms(1,2) by simp
  then show ?thesis
    using drop_concat_const [of xs f k i post] assms(3,4) that by auto
qed

lemma length_entry_bytes [simp]:
  "length (backend_entry_bytes b) = sizeof_backend"
  "length (bind_entry_bytes d) = sizeof_bind"
  "length (table_entry_bytes e) = sizeof_entry"
  by (simp_all add: backend_entry_bytes_def bind_entry_bytes_def table_entry_bytes_def
      sizeof_backend_def sizeof_bind_def sizeof_entry_def)

subsection \<open>Reading back what was written\<close>

definition as_backend :: "backend_entry \<Rightarrow> glb_fwd_config_content_table_backend" where
  "as_backend e = \<lparr>be_family = bk_family e, be_addr = bk_ip e, be_state = bk_state e, be_healthy = bk_health e\<rparr>"

definition as_bind :: "bind_entry \<Rightarrow> glb_fwd_config_content_table_bind" where
  "as_bind e = \<lparr>bd_family = bn_family e, bd_addr = bn_ip e, bd_ip_bits = bn_ip_bits e,
     bd_port_start = bn_port_start e, bd_port_end = bn_port_end e, bd_proto = bn_ipproto e,
     bd_reserved = bn_reserved e\<rparr>"

definition as_entry :: "table_entry \<Rightarrow> glb_fwd_config_content_table_entry" where
  "as_entry e = \<lparr>te_primary = primary_idx e, te_secondary = secondary_idx e\<rparr>"

lemma entry_roundtrips [simp]:
  "glb_fwd_config_content_table_backend_of (backend_entry_bytes b @ rest) = as_backend b"
  "glb_fwd_config_content_table_bind_of (bind_entry_bytes d @ rest) = as_bind d"
  "glb_fwd_config_content_table_entry_of (table_entry_bytes e @ rest) = as_entry e"
  by (simp_all add: glb_fwd_config_content_table_backend_of_def backend_entry_bytes_def as_backend_def
      glb_fwd_config_content_table_bind_of_def bind_entry_bytes_def as_bind_def
      glb_fwd_config_content_table_entry_of_def table_entry_bytes_def as_entry_def wire)

text \<open>A table as the builder lays it out: full arrays and a 16-byte key.\<close>

definition built_table_wf :: "built_table \<Rightarrow> bool" where
  "built_table_wf t \<longleftrightarrow>
     length (bt_backends t) = GLB_FMT_MAX_NUM_BACKENDS \<and> length (bt_binds t) = GLB_FMT_MAX_NUM_BINDS \<and>
     length (bt_key t) = GLB_FMT_SECURE_KEY_BYTES \<and> length (bt_rows t) = GLB_FMT_TABLE_ENTRIES"

lemma length_arrays:
  "length (concat (map backend_entry_bytes bs)) = sizeof_backend * length bs"
  "length (concat (map bind_entry_bytes ds)) = sizeof_bind * length ds"
  "length (concat (map table_entry_bytes es)) = sizeof_entry * length es"
  by (simp_all add: length_concat_const)

lemma length_built_table_bytes:
  "built_table_wf t \<Longrightarrow> length (built_table_bytes t) = sizeof_table"
  by (simp add: built_table_wf_def built_table_bytes_def length_arrays table_layout)

lemma table_num_backends_built [simp]:
  "table_num_backends (built_table_bytes t @ rest) = bt_num_backends t"
  by (simp add: table_num_backends_def built_table_bytes_def wire)

lemma table_backend_built:
  assumes "built_table_wf t" "i < GLB_FMT_MAX_NUM_BACKENDS"
  shows "table_backend (built_table_bytes t @ rest) i = as_backend (bt_backends t ! i)"
proof -
  have split: "built_table_bytes t @ rest = le_bytes 4 (bt_num_backends t) @ concat (map backend_entry_bytes (bt_backends t)) @ (le_bytes 4 (bt_num_binds t) @ concat (map bind_entry_bytes (bt_binds t)) @ bt_key t @ concat (map table_entry_bytes (bt_rows t)) @ rest)"
    by (simp add: built_table_bytes_def)
  obtain r where "drop (off_backends + sizeof_backend * i) (built_table_bytes t @ rest) = backend_entry_bytes (bt_backends t ! i) @ r"
    using assms by (elim drop_array [OF split, rotated -1]) (auto simp: built_table_wf_def length_arrays table_layout)
  then show ?thesis by (simp add: table_backend_def)
qed

lemma table_num_binds_built [simp]:
  assumes "built_table_wf t"
  shows "table_num_binds (built_table_bytes t @ rest) = bt_num_binds t"
  using assms
  by (simp add: table_num_binds_def built_table_bytes_def built_table_wf_def off_num_binds_def
      off_backends_def get_field_append length_arrays get_field_head take_bit_full)

lemma table_bind_built:
  assumes "built_table_wf t" "i < GLB_FMT_MAX_NUM_BINDS"
  shows "table_bind (built_table_bytes t @ rest) i = as_bind (bt_binds t ! i)"
proof -
  have split: "built_table_bytes t @ rest = (le_bytes 4 (bt_num_backends t) @ concat (map backend_entry_bytes (bt_backends t)) @ le_bytes 4 (bt_num_binds t)) @ concat (map bind_entry_bytes (bt_binds t)) @ (bt_key t @ concat (map table_entry_bytes (bt_rows t)) @ rest)"
    by (simp add: built_table_bytes_def)
  obtain r where "drop (off_binds + sizeof_bind * i) (built_table_bytes t @ rest) = bind_entry_bytes (bt_binds t ! i) @ r"
    using assms by (elim drop_array [OF split, rotated -1]) (auto simp: built_table_wf_def length_arrays table_layout)
  then show ?thesis by (simp add: table_bind_def)
qed

lemma table_secure_key_built:
  assumes "built_table_wf t"
  shows "table_secure_key (built_table_bytes t @ rest) = bt_key t"
  using assms
  by (simp add: table_secure_key_def built_table_bytes_def built_table_wf_def off_secure_key_def
      off_binds_def off_num_binds_def off_backends_def length_arrays)

lemma table_entry_built:
  assumes "built_table_wf t" "i < GLB_FMT_TABLE_ENTRIES"
  shows "table_entry_at (built_table_bytes t @ rest) i = as_entry (bt_rows t ! i)"
proof -
  have split: "built_table_bytes t @ rest = (le_bytes 4 (bt_num_backends t) @ concat (map backend_entry_bytes (bt_backends t)) @ le_bytes 4 (bt_num_binds t) @ concat (map bind_entry_bytes (bt_binds t)) @ bt_key t) @ concat (map table_entry_bytes (bt_rows t)) @ rest"
    by (simp add: built_table_bytes_def)
  obtain r where "drop (off_entries + sizeof_entry * i) (built_table_bytes t @ rest) = table_entry_bytes (bt_rows t ! i) @ r"
    using assms by (elim drop_array [OF split, rotated -1]) (auto simp: built_table_wf_def length_arrays table_layout)
  then show ?thesis by (simp add: table_entry_at_def)
qed

subsection \<open>What a successful build of a table gives\<close>

lemma length_decodehex [simp]: "length (decodehex b s n) = n"
  by (induction n arbitrary: b s) (simp_all add: Let_def)

lemma parse_key_length: "parse_key J e1 e2 b v = Inr k \<Longrightarrow> length k = 16"
  by (auto simp: parse_key_def split: option.splits if_splits)

lemma parse_backend_family:
  assumes "parse_backend J p4 p6 b = Inr (e, a)"
  shows "valid_family (bk_family e)"
  using assms
  by (auto simp: parse_backend_def valid_family_def Let_def split: option.splits if_splits)

lemma parse_bind_valid:
  assumes "parse_bind J p4 p6 b = Inr e"
  shows "valid_family (bn_family e) \<and> bn_ipproto e \<in> {GLB_IPPROTO_TCP, GLB_IPPROTO_UDP}"
proof -
  obtain ip proto where s: "json_string_value J (json_object_get J b ''ip'') = Some ip"
    "json_string_value J (json_object_get J b ''proto'') = Some proto"
    using assms by (auto simp: parse_bind_def split: option.splits)
  obtain ps pe where "bind_ports J b = Inr (ps, pe)"
    using assms s by (auto simp: parse_bind_def bind_res_Inr)
  moreover obtain addr bits where "bind_cidr ip = Inr (addr, bits)"
    using assms s by (auto simp: parse_bind_def bind_res_Inr)
  moreover obtain fam a where "(if CHR '':'' \<in> set ip then map_option (\<lambda>a. (GLB_FAMILY_IPV6, a)) (p6 addr)
      else map_option (\<lambda>a. (GLB_FAMILY_IPV4, ucast a)) (p4 addr)) = Some (fam, a)"
    and "valid_family fam"
    using assms s calculation
    by (cases "CHR '':'' \<in> set ip") (auto simp: parse_bind_def valid_family_def split: option.splits)
  ultimately show ?thesis
    using assms s
    by (cases "proto = ''tcp''"; cases "proto = ''udp''") (auto simp: parse_bind_def Let_def)
qed

lemma build_binds_Inr:
  assumes "build_binds J p4 p6 binds is = Inr es"
  shows "length es = length is \<and> (\<forall>k < length is. is ! k < json_array_size J binds \<longrightarrow>
    parse_bind J p4 p6 (json_array_get J binds (is ! k)) = Inr (es ! k))"
  using assms
proof (induction "is" arbitrary: es)
  case Nil
  then show ?case by simp
next
  case (Cons i "is")
  then obtain e es' where e: "(if i < json_array_size J binds
      then parse_bind J p4 p6 (json_array_get J binds i) else Inr zero_bind_entry) = Inr e"
    and es: "build_binds J p4 p6 binds is = Inr es'" "es = e # es'"
    by (auto simp: bind_res_Inr)
  show ?case
    using e es Cons.IH [OF es(1)] by (auto simp: nth_Cons split: nat.splits)
qed

text \<open>The indices a table's rows are built from, and the entry of an index.\<close>

definition entry_at where
  "entry_at J p4 p6 backends i =
     (if i < json_array_size J backends
      then fst (projr (parse_backend J p4 p6 (json_array_get J backends i))) else zero_backend_entry)"

definition available_at where
  "available_at J p4 p6 backends i \<longleftrightarrow>
     i < json_array_size J backends \<and> snd (projr (parse_backend J p4 p6 (json_array_get J backends i)))"

definition sb_pair :: "sortable_backend \<Rightarrow> u32 \<times> backend_entry" where
  "sb_pair s = (sb_index s, sb_backend s)"

lemma build_backends_Inr:
  assumes "build_backends J p4 p6 backends is (out, sortable, avail) = Inr (out', sortable', avail')"
    and "avail + length is \<le> length sortable"
  shows "out' = out @ map (entry_at J p4 p6 backends) is \<and>
    avail' = avail + length (filter (available_at J p4 p6 backends) is) \<and>
    length sortable' = length sortable \<and>
    map sb_pair (take avail' sortable') = map sb_pair (take avail sortable) @
      map (\<lambda>i. (of_nat i, entry_at J p4 p6 backends i)) (filter (available_at J p4 p6 backends) is) \<and>
    (\<forall>i \<in> set is. i < json_array_size J backends \<longrightarrow>
       (\<exists>e. parse_backend J p4 p6 (json_array_get J backends i) = Inr e))"
  using assms
proof (induction "is" arbitrary: out sortable avail)
  case Nil
  then show ?case by simp
next
  case (Cons i "is")
  show ?case
  proof (cases "i < json_array_size J backends")
    case False
    then show ?thesis
      using Cons.prems Cons.IH [of "out @ [zero_backend_entry]" sortable avail]
      by (auto simp: entry_at_def available_at_def)
  next
    case True
    then obtain e a where p: "parse_backend J p4 p6 (json_array_get J backends i) = Inr (e, a)"
      using Cons.prems(1) by (auto simp: bind_res_Inr)
    have ent: "entry_at J p4 p6 backends i = e" "available_at J p4 p6 backends i = a"
      using True p by (simp_all add: entry_at_def available_at_def)
    show ?thesis
    proof (cases a)
      case False
      then show ?thesis
        using Cons.prems Cons.IH [of "out @ [e]" sortable avail] True p ent by auto
    next
      case a: True
      let ?s = "sortable[avail := (sortable ! avail)\<lparr>sb_index := of_nat i, sb_backend := e\<rparr>]"
      have "avail < length sortable" using Cons.prems(2) by simp
      then have "map sb_pair (take (avail + 1) ?s) = map sb_pair (take avail sortable) @ [(of_nat i, e)]"
        by (simp add: take_Suc_conv_app_nth sb_pair_def)
      then show ?thesis
        using Cons.prems Cons.IH [of "out @ [e]" ?s "avail + 1"] True p ent a by auto
    qed
  qed
qed

lemma build_rows_length:
  "build_rows qsort seed out avail uis sortable = Inr (s', es) \<Longrightarrow> length es = length uis"
  by (induction uis arbitrary: sortable s' es) (auto simp: bind_res_Inr)

subsection \<open>Rows\<close>

text \<open>What is documented of \<open>qsort\<close>: a permutation in the order of the comparison function.\<close>

definition qsort_law :: "(sortable_backend list \<Rightarrow> sortable_backend list) \<Rightarrow> bool" where
  "qsort_law qsort \<longleftrightarrow>
     (\<forall>xs. mset (qsort xs) = mset xs \<and> sorted_wrt (\<lambda>a b. sortable_backend_cmp a b \<le> 0) (qsort xs))"

lemma sortable_backend_cmp_le: "sortable_backend_cmp a b \<le> 0 \<longleftrightarrow> sb_hash a \<le> sb_hash b"
  by (auto simp: sortable_backend_cmp_def)

lemma qsort_lawD:
  assumes "qsort_law qsort"
  shows "mset (qsort xs) = mset xs" "length (qsort xs) = length xs" "set (qsort xs) = set xs"
    "sorted_wrt (\<lambda>a b. sb_hash a \<le> sb_hash b) (qsort xs)"
  using assms unfolding qsort_law_def sortable_backend_cmp_le
  by (auto dest: mset_eq_length mset_eq_setD)

lemma build_row_Inr:
  assumes "build_row qsort seed out avail ui sortable = Inr (s', e)" "qsort_law qsort"
    and "avail \<le> length sortable"
  shows "length s' = length sortable" "drop avail s' = drop avail sortable"
    "mset (map sb_pair (take avail s')) = mset (map sb_pair (take avail sortable))"
proof -
  let ?h = "map (\<lambda>b. b\<lparr>sb_hash := backend_hash seed (row_hash seed ui) (sb_backend b)\<rparr>) (take avail sortable)"
  have s': "s' = qsort ?h @ drop avail sortable"
    using assms(1) by (auto simp: build_row_def Let_def bind_res_Inr)
  have len: "length (qsort ?h) = avail"
    unfolding qsort_lawD(2) [OF assms(2)] using assms(3) by simp
  show "length s' = length sortable"
    unfolding s' length_append len using assms(3) by simp
  have tk: "take avail s' = qsort ?h"
    unfolding s' using len by simp
  show "drop avail s' = drop avail sortable"
    unfolding s' using len by simp
  have "mset (map sb_pair (take avail s')) = image_mset sb_pair (mset (qsort ?h))"
    unfolding tk by simp
  also have "\<dots> = mset (map sb_pair ?h)"
    unfolding qsort_lawD(1) [OF assms(2)] by (simp only: mset_map)
  also have "map sb_pair ?h = map sb_pair (take avail sortable)"
    by (simp add: sb_pair_def)
  finally show "mset (map sb_pair (take avail s')) = mset (map sb_pair (take avail sortable))" .
qed

lemma build_rows_Inr:
  assumes "build_rows qsort seed out avail uis sortable = Inr (s', es)" "qsort_law qsort"
    and "avail \<le> length sortable"
  shows "length s' = length sortable" "length es = length uis"
    and "mset (map sb_pair (take avail s')) = mset (map sb_pair (take avail sortable))"
    and "\<And>k. k < length uis \<Longrightarrow> \<exists>s s2. build_row qsort seed out avail (uis ! k) s = Inr (s2, es ! k) \<and>
      length s = length sortable \<and>
      mset (map sb_pair (take avail s)) = mset (map sb_pair (take avail sortable))"
proof -
  have "length s' = length sortable \<and> length es = length uis \<and>
    mset (map sb_pair (take avail s')) = mset (map sb_pair (take avail sortable)) \<and>
    (\<forall>k < length uis. \<exists>s s2. build_row qsort seed out avail (uis ! k) s = Inr (s2, es ! k) \<and>
      length s = length sortable \<and>
      mset (map sb_pair (take avail s)) = mset (map sb_pair (take avail sortable)))"
    using assms(1,3)
  proof (induction uis arbitrary: sortable es)
    case Nil
    then show ?case by simp
  next
    case (Cons ui uis)
    then obtain s1 e es' where r: "build_row qsort seed out avail ui sortable = Inr (s1, e)"
      and rs: "build_rows qsort seed out avail uis s1 = Inr (s', es')" and es: "es = e # es'"
      by (auto simp: bind_res_Inr)
    note row = build_row_Inr [OF r assms(2) Cons.prems(2)]
    note IH = Cons.IH [OF rs, unfolded row(1), OF Cons.prems(2)]
    have "\<exists>s s2. build_row qsort seed out avail ((ui # uis) ! k) s = Inr (s2, es ! k) \<and>
      length s = length sortable \<and>
      mset (map sb_pair (take avail s)) = mset (map sb_pair (take avail sortable))"
      if "k < Suc (length uis)" for k
    proof (cases k)
      case 0
      then show ?thesis using r es by (intro exI [of _ sortable] exI [of _ s1]) simp
    next
      case (Suc j)
      then show ?thesis using IH row es that by auto
    qed
    then show ?case using IH row es by simp
  qed
  then show "length s' = length sortable" "length es = length uis"
    "mset (map sb_pair (take avail s')) = mset (map sb_pair (take avail sortable))"
    "\<And>k. k < length uis \<Longrightarrow> \<exists>s s2. build_row qsort seed out avail (uis ! k) s = Inr (s2, es ! k) \<and>
      length s = length sortable \<and>
      mset (map sb_pair (take avail s)) = mset (map sb_pair (take avail sortable))"
    by simp_all
qed

subsection \<open>Tables\<close>

lemma build_table_Inr:
  assumes "build_table J p4 p6 qsort bv table sortable = Inr (s', t)" "qsort_law qsort"
    and "length sortable = GLB_FMT_MAX_NUM_BACKENDS"
  obtains backends binds seed s where
    "json_object_get J table ''backends'' = Some backends" "json_object_get J table ''binds'' = Some binds"
    "built_table_wf t" "length s' = GLB_FMT_MAX_NUM_BACKENDS"
    "bt_num_backends t = of_nat (json_array_size J (Some backends))"
    "bt_num_binds t = of_nat (json_array_size J (Some binds))"
    "\<And>i. i < GLB_FMT_MAX_NUM_BACKENDS \<Longrightarrow> i < json_array_size J (Some backends) \<Longrightarrow>
       \<exists>a. parse_backend J p4 p6 (json_array_get J (Some backends) i) = Inr (bt_backends t ! i, a)"
    "\<And>i. i < GLB_FMT_MAX_NUM_BINDS \<Longrightarrow> i < json_array_size J (Some binds) \<Longrightarrow>
       parse_bind J p4 p6 (json_array_get J (Some binds) i) = Inr (bt_binds t ! i)"
    "bt_backends t = map (entry_at J p4 p6 (Some backends)) [0..<GLB_FMT_MAX_NUM_BACKENDS]"
    "map sb_pair (take (length (filter (available_at J p4 p6 (Some backends)) [0..<GLB_FMT_MAX_NUM_BACKENDS])) s) =
       map (\<lambda>i. (of_nat i, entry_at J p4 p6 (Some backends) i))
         (filter (available_at J p4 p6 (Some backends)) [0..<GLB_FMT_MAX_NUM_BACKENDS])"
    "length s = GLB_FMT_MAX_NUM_BACKENDS"
    "build_rows qsort seed (bt_backends t)
       (length (filter (available_at J p4 p6 (Some backends)) [0..<GLB_FMT_MAX_NUM_BACKENDS]))
       [0..<GLB_FMT_TABLE_ENTRIES] s = Inr (s', bt_rows t)"
    "parse_key J ErrSeed ErrSeedLength bv (json_object_get J table ''seed'') = Inr seed"
    "parse_key J ErrHashKey ErrHashKeyLength bv (json_object_get J table ''hash_key'') = Inr (bt_key t)"
proof -
  from assms(1) obtain backends where bs: "json_object_get J table ''backends'' = Some backends"
    by (auto simp: build_table_def Let_def split: if_splits)
  from assms(1) bs obtain out s avail where bb: "build_backends J p4 p6 (Some backends)
      [0..<GLB_FMT_MAX_NUM_BACKENDS] ([], sortable, 0) = Inr (out, s, avail)"
    by (auto simp: build_table_def Let_def bind_res_Inr)
  from assms(1) bs bb obtain binds where bn: "json_object_get J table ''binds'' = Some binds"
    by (auto simp: build_table_def Let_def split: if_splits)
  from assms(1) bs bb bn obtain ob key seed rows where
    ob: "build_binds J p4 p6 (Some binds) [0..<GLB_FMT_MAX_NUM_BINDS] = Inr ob"
    and key: "parse_key J ErrHashKey ErrHashKeyLength bv (json_object_get J table ''hash_key'') = Inr key"
    and seed: "parse_key J ErrSeed ErrSeedLength bv (json_object_get J table ''seed'') = Inr seed"
    and rows: "build_rows qsort seed out avail [0..<GLB_FMT_TABLE_ENTRIES] s = Inr (s', rows)"
    and t: "t = \<lparr>bt_num_backends = of_nat (json_array_size J (Some backends)), bt_backends = out,
                 bt_num_binds = of_nat (json_array_size J (Some binds)), bt_binds = ob,
                 bt_key = key, bt_rows = rows\<rparr>"
    by (auto simp: build_table_def Let_def bind_res_Inr simp del: upt_Suc)
  have B: "out = map (entry_at J p4 p6 (Some backends)) [0..<GLB_FMT_MAX_NUM_BACKENDS]"
    "avail = length (filter (available_at J p4 p6 (Some backends)) [0..<GLB_FMT_MAX_NUM_BACKENDS])"
    "length s = GLB_FMT_MAX_NUM_BACKENDS"
    "map sb_pair (take avail s) = map (\<lambda>i. (of_nat i, entry_at J p4 p6 (Some backends) i))
       (filter (available_at J p4 p6 (Some backends)) [0..<GLB_FMT_MAX_NUM_BACKENDS])"
    "\<And>i. i < GLB_FMT_MAX_NUM_BACKENDS \<Longrightarrow> i < json_array_size J (Some backends) \<Longrightarrow>
       \<exists>e. parse_backend J p4 p6 (json_array_get J (Some backends) i) = Inr e"
    using build_backends_Inr [OF bb] assms(3) by auto
  have R: "length s' = GLB_FMT_MAX_NUM_BACKENDS" "length rows = GLB_FMT_TABLE_ENTRIES"
    using build_rows_Inr(1,2) [OF rows assms(2)] B(2,3)
      length_filter_le [of "available_at J p4 p6 (Some backends)" "[0..<GLB_FMT_MAX_NUM_BACKENDS]"] by simp_all
  show ?thesis
  proof (rule that [OF bs bn])
    show "built_table_wf t"
      using B(1) build_binds_Inr [OF ob] parse_key_length [OF key] R(2) by (simp add: t built_table_wf_def)
    show "length s' = GLB_FMT_MAX_NUM_BACKENDS" by (rule R(1))
    show "bt_num_backends t = of_nat (json_array_size J (Some backends))"
      "bt_num_binds t = of_nat (json_array_size J (Some binds))" by (simp_all add: t)
    show "\<exists>a. parse_backend J p4 p6 (json_array_get J (Some backends) i) = Inr (bt_backends t ! i, a)"
      if "i < GLB_FMT_MAX_NUM_BACKENDS" "i < json_array_size J (Some backends)" for i
      using B(5) [OF that] that by (auto simp: t B(1) entry_at_def)
    show "parse_bind J p4 p6 (json_array_get J (Some binds) i) = Inr (bt_binds t ! i)"
      if "i < GLB_FMT_MAX_NUM_BINDS" "i < json_array_size J (Some binds)" for i
      using build_binds_Inr [OF ob] that by (auto simp: t)
    show "bt_backends t = map (entry_at J p4 p6 (Some backends)) [0..<GLB_FMT_MAX_NUM_BACKENDS]"
      by (simp add: t B(1))
    show "length s = GLB_FMT_MAX_NUM_BACKENDS" by (rule B(3))
    show "map sb_pair (take (length (filter (available_at J p4 p6 (Some backends)) [0..<GLB_FMT_MAX_NUM_BACKENDS])) s) =
       map (\<lambda>i. (of_nat i, entry_at J p4 p6 (Some backends) i))
         (filter (available_at J p4 p6 (Some backends)) [0..<GLB_FMT_MAX_NUM_BACKENDS])"
      using B(4) unfolding B(2) .
    show "build_rows qsort seed (bt_backends t)
       (length (filter (available_at J p4 p6 (Some backends)) [0..<GLB_FMT_MAX_NUM_BACKENDS]))
       [0..<GLB_FMT_TABLE_ENTRIES] s = Inr (s', bt_rows t)"
      using rows unfolding B(2) by (simp add: t)
    show "parse_key J ErrSeed ErrSeedLength bv (json_object_get J table ''seed'') = Inr seed" by (rule seed)
    show "parse_key J ErrHashKey ErrHashKeyLength bv (json_object_get J table ''hash_key'') = Inr (bt_key t)"
      using key by (simp add: t)
  qed
qed

end
