(* ===== verification/Rendezvous.thy ===== *)
theory Rendezvous
  imports Fwd_Build_Decode
begin

text \<open>
  The rendezvous rows of the table builder: which two backends a row holds, that building them always
  succeeds with two available backends, and how little a row changes when other backends change.
\<close>

declare upt_rec_numeral [simp del]

subsection \<open>The two lowest scores\<close>

definition best_two :: "(nat \<Rightarrow> u64) \<Rightarrow> nat set \<Rightarrow> nat \<Rightarrow> nat \<Rightarrow> bool" where
  "best_two h I i0 i1 \<longleftrightarrow> i0 \<in> I \<and> i1 \<in> I \<and> i0 \<noteq> i1 \<and> h i0 \<le> h i1 \<and> (\<forall>j \<in> I - {i0, i1}. h i1 \<le> h j)"

lemma best_two_sorted:
  assumes "sorted_wrt (\<lambda>i j. h i \<le> h j) js" "distinct js" "2 \<le> length js"
  shows "best_two h (set js) (js ! 0) (js ! 1)"
proof -
  obtain a b r where "js = a # b # r"
    using assms(3) by (cases js; cases "tl js") auto
  then show ?thesis using assms(1,2) by (auto simp: best_two_def)
qed

lemma best_two_unique:
  assumes "best_two h I i0 i1" "best_two h I j0 j1" "inj_on h I"
  shows "i0 = j0 \<and> i1 = j1"
proof -
  have ne: "h x \<noteq> h y" if "x \<in> I" "y \<in> I" "x \<noteq> y" for x y
    using assms(3) that by (auto dest: inj_onD)
  have lt: "h i0 < h i1" "h j0 < h j1"
    using assms(1,2) ne by (auto simp: best_two_def intro: le_neq_trans)
  have "i0 = j0"
  proof (rule ccontr)
    assume "i0 \<noteq> j0"
    then have "h i0 \<le> h j0" "h j0 \<le> h i0"
      using assms(1,2) lt unfolding best_two_def by (metis DiffI insertE order.strict_trans1 singletonD less_imp_le order_trans)+
    then show False using \<open>i0 \<noteq> j0\<close> assms(1,2) ne unfolding best_two_def by (metis antisym)
  qed
  moreover have "i1 = j1"
  proof (rule ccontr)
    assume "i1 \<noteq> j1"
    then have "h i1 \<le> h j1" "h j1 \<le> h i1"
      using assms(1,2) \<open>i0 = j0\<close> unfolding best_two_def by auto
    then show False using \<open>i1 \<noteq> j1\<close> assms(1,2) ne unfolding best_two_def by (metis antisym)
  qed
  ultimately show ?thesis ..
qed

lemma best_two_subset:
  "best_two h I i0 i1 \<Longrightarrow> J \<subseteq> I \<Longrightarrow> i0 \<in> J \<Longrightarrow> i1 \<in> J \<Longrightarrow> best_two h J i0 i1"
  by (auto simp: best_two_def)

lemma best_two_cong:
  "(\<And>i. i \<in> I \<Longrightarrow> h i = h' i) \<Longrightarrow> best_two h I i0 i1 = best_two h' I i0 i1"
  by (auto simp: best_two_def)

subsection \<open>One row\<close>

definition swaps :: "backend_entry \<Rightarrow> backend_entry \<Rightarrow> bool" where
  "swaps p s \<longleftrightarrow> (bk_state p = GLB_BACKEND_STATE_DRAINING_INACTIVE \<or> bk_health p \<noteq> GLB_BACKEND_HEALTH_UP) \<and>
     bk_state s = GLB_BACKEND_STATE_ACTIVE"

definition row_entry :: "(nat \<Rightarrow> backend_entry) \<Rightarrow> nat \<Rightarrow> nat \<Rightarrow> table_entry" where
  "row_entry ent i0 i1 =
     (if swaps (ent i0) (ent i1) then \<lparr>primary_idx = of_nat i1, secondary_idx = of_nat i0\<rparr>
      else \<lparr>primary_idx = of_nat i0, secondary_idx = of_nat i1\<rparr>)"

text \<open>A sort array that holds the backends \<open>I\<close>, in any order, in its first elements.\<close>

definition holds_backends :: "(nat \<Rightarrow> backend_entry) \<Rightarrow> nat list \<Rightarrow> sortable_backend list \<Rightarrow> bool" where
  "holds_backends ent I s \<longleftrightarrow> distinct I \<and> set I \<subseteq> {..<GLB_FMT_MAX_NUM_BACKENDS} \<and> length I \<le> length s \<and>
     mset (map sb_pair (take (length I) s)) = mset (map (\<lambda>i. (of_nat i, ent i)) I)"

definition score :: "bytes \<Rightarrow> nat \<Rightarrow> (nat \<Rightarrow> backend_entry) \<Rightarrow> nat \<Rightarrow> u64" where
  "score seed ui ent i = backend_hash seed (row_hash seed ui) (ent i)"

lemma sorted_backends:
  assumes "qsort_law qsort" "holds_backends ent I s"
    and q: "q = qsort (map (\<lambda>b. b\<lparr>sb_hash := backend_hash seed (row_hash seed ui) (sb_backend b)\<rparr>) (take (length I) s))"
  shows "mset (map (\<lambda>b. unat (sb_index b)) q) = mset I" "length q = length I"
    and "b \<in> set q \<Longrightarrow> of_nat (unat (sb_index b)) = sb_index b \<and>
           sb_hash b = score seed ui ent (unat (sb_index b))"
    and "sorted_wrt (\<lambda>i j. score seed ui ent i \<le> score seed ui ent j) (map (\<lambda>b. unat (sb_index b)) q)"
proof -
  let ?h = "map (\<lambda>b. b\<lparr>sb_hash := backend_hash seed (row_hash seed ui) (sb_backend b)\<rparr>) (take (length I) s)"
  have small: "unat (of_nat i :: u32) = i" if "i \<in> set I" for i
  proof -
    have "i < 2 ^ 32" using assms(2) that by (auto simp: holds_backends_def)
    then show ?thesis by (simp add: unsigned_of_nat take_bit_nat_eq_self)
  qed
  have pairs: "mset (map sb_pair q) = mset (map (\<lambda>i. (of_nat i, ent i)) I)"
  proof -
    have "mset (map sb_pair q) = mset (map sb_pair ?h)"
      unfolding mset_map q qsort_lawD(1) [OF assms(1)] ..
    also have "map sb_pair ?h = map sb_pair (take (length I) s)"
      by (simp add: sb_pair_def)
    finally show ?thesis using assms(2) by (simp add: holds_backends_def)
  qed
  from arg_cong [OF this, of "image_mset (unat \<circ> fst)"]
  have "mset (map (\<lambda>b. unat (sb_index b)) q) = mset (map (\<lambda>i. unat (of_nat i :: u32)) I)"
    by (simp add: image_mset.compositionality o_def sb_pair_def)
  then show m: "mset (map (\<lambda>b. unat (sb_index b)) q) = mset I"
    using small by (simp cong: map_cong)
  then show "length q = length I" using mset_eq_length by fastforce
  have el: "of_nat (unat (sb_index b)) = sb_index b \<and> sb_hash b = score seed ui ent (unat (sb_index b))"
    if "b \<in> set q" for b
  proof -
    have "sb_pair b \<in> set (map (\<lambda>i. (of_nat i, ent i)) I)"
      using that mset_eq_setD [OF pairs] by auto
    moreover have "sb_hash b = backend_hash seed (row_hash seed ui) (sb_backend b)"
      using that by (auto simp: q qsort_lawD(3) [OF assms(1)])
    ultimately show ?thesis using small by (auto simp: sb_pair_def score_def)
  qed
  then show "b \<in> set q \<Longrightarrow> of_nat (unat (sb_index b)) = sb_index b \<and>
    sb_hash b = score seed ui ent (unat (sb_index b))" .
  show "sorted_wrt (\<lambda>i j. score seed ui ent i \<le> score seed ui ent j) (map (\<lambda>b. unat (sb_index b)) q)"
    unfolding sorted_wrt_map
    by (rule sorted_wrt_mono_rel [OF _ qsort_lawD(4) [OF assms(1), of ?h, folded q]]) (use el in auto)
qed

lemma build_row_best:
  assumes "qsort_law qsort" "holds_backends ent I s" "2 \<le> length I"
    and "out = map ent [0..<GLB_FMT_MAX_NUM_BACKENDS]"
  obtains s2 i0 i1 where "build_row qsort seed out (length I) ui s = Inr (s2, row_entry ent i0 i1)"
    "best_two (score seed ui ent) (set I) i0 i1" "holds_backends ent I s2"
proof -
  let ?h = "map (\<lambda>b. b\<lparr>sb_hash := backend_hash seed (row_hash seed ui) (sb_backend b)\<rparr>) (take (length I) s)"
  define q where "q = qsort ?h"
  note q = sorted_backends [OF assms(1,2) q_def]
  define js where "js = map (\<lambda>b. unat (sb_index b)) q"
  have js: "set js = set I" "distinct js" "length js = length I"
    using q(1,2) assms(2) mset_eq_setD [OF q(1)] mset_eq_imp_distinct_iff [OF q(1)]
    by (simp_all add: js_def holds_backends_def)
  have best: "best_two (score seed ui ent) (set I) (js ! 0) (js ! 1)"
    using best_two_sorted [of "score seed ui ent" js] q(4) js assms(3) by (simp add: js_def)
  obtain b0 b1 r where qq: "q = b0 # b1 # r"
    using q(2) assms(3) by (cases q; cases "tl q") auto
  have ix: "js ! 0 = unat (sb_index b0)" "js ! 1 = unat (sb_index b1)"
    by (simp_all add: js_def qq)
  have lt: "js ! 0 < GLB_FMT_MAX_NUM_BACKENDS" "js ! 1 < GLB_FMT_MAX_NUM_BACKENDS"
    using best assms(2) by (auto simp: best_two_def holds_backends_def)
  have of: "of_nat (js ! 0) = sb_index b0" "of_nat (js ! 1) = sb_index b1"
    unfolding ix by simp_all
  have "pick_entry out (q @ drop (length I) s) = Inr (row_entry ent (js ! 0) (js ! 1))"
    using lt unfolding row_entry_def of swaps_def pick_entry_def Let_def qq assms(4) ix
    by simp
  then have r: "build_row qsort seed out (length I) ui s =
      Inr (q @ drop (length I) s, row_entry ent (js ! 0) (js ! 1))"
    by (simp add: build_row_def Let_def q_def [symmetric])
  have "holds_backends ent I (q @ drop (length I) s)"
    using build_row_Inr(1,3) [OF r assms(1)] assms(2) by (simp add: holds_backends_def)
  then show ?thesis using that r best by blast
qed

lemma build_rows_best:
  assumes "qsort_law qsort" "holds_backends ent I s" "2 \<le> length I"
    and "out = map ent [0..<GLB_FMT_MAX_NUM_BACKENDS]"
  shows "\<exists>s2 es. build_rows qsort seed out (length I) uis s = Inr (s2, es) \<and> length es = length uis \<and>
    length s2 = length s \<and>
    (\<forall>k < length uis. \<exists>i0 i1. best_two (score seed (uis ! k) ent) (set I) i0 i1 \<and> es ! k = row_entry ent i0 i1)"
  using assms(2)
proof (induction uis arbitrary: s)
  case Nil
  then show ?case by simp
next
  case (Cons ui uis)
  obtain s1 i0 i1 where r: "build_row qsort seed out (length I) ui s = Inr (s1, row_entry ent i0 i1)"
    "best_two (score seed ui ent) (set I) i0 i1" "holds_backends ent I s1"
    by (rule build_row_best [OF assms(1) Cons.prems assms(3,4)])
  have l: "length s1 = length s"
    using build_row_Inr(1) [OF r(1) assms(1)] Cons.prems by (simp add: holds_backends_def)
  obtain s2 es where rs: "build_rows qsort seed out (length I) uis s1 = Inr (s2, es)" "length es = length uis"
    "length s2 = length s1"
    "\<forall>k < length uis. \<exists>i0 i1. best_two (score seed (uis ! k) ent) (set I) i0 i1 \<and> es ! k = row_entry ent i0 i1"
    using Cons.IH [OF r(3)] by blast
  have "\<exists>i0 i1. best_two (score seed ((ui # uis) ! k) ent) (set I) i0 i1 \<and>
      (row_entry ent i0' i1' # es) ! k = row_entry ent i0 i1"
    if "k < Suc (length uis)" "best_two (score seed ui ent) (set I) i0' i1'" for k i0' i1'
    using that rs(4) by (cases k) auto
  then show ?case
    using r rs l by (intro exI [of _ s2] exI [of _ "row_entry ent i0 i1 # es"]) auto
qed

subsection \<open>Tables\<close>

text \<open>The backends of a table that take part in its rows, and its entries by index.\<close>

definition participants where
  "participants J p4 p6 table =
     filter (available_at J p4 p6 (json_object_get J table ''backends'')) [0..<GLB_FMT_MAX_NUM_BACKENDS]"

lemma build_table_rows:
  assumes "build_table J p4 p6 qsort bv table sortable = Inr (s', t)" "qsort_law qsort"
    and "length sortable = GLB_FMT_MAX_NUM_BACKENDS" "2 \<le> length (participants J p4 p6 table)"
  obtains seed where "parse_key J ErrSeed ErrSeedLength bv (json_object_get J table ''seed'') = Inr seed"
    "\<And>r. r < GLB_FMT_TABLE_ENTRIES \<Longrightarrow>
       \<exists>i0 i1. best_two (score seed r (\<lambda>i. bt_backends t ! i)) (set (participants J p4 p6 table)) i0 i1 \<and>
         bt_rows t ! r = row_entry (\<lambda>i. bt_backends t ! i) i0 i1"
proof -
  obtain backends binds seed s where T: "json_object_get J table ''backends'' = Some backends"
    "bt_backends t = map (entry_at J p4 p6 (Some backends)) [0..<GLB_FMT_MAX_NUM_BACKENDS]"
    "map sb_pair (take (length (filter (available_at J p4 p6 (Some backends)) [0..<GLB_FMT_MAX_NUM_BACKENDS])) s) =
       map (\<lambda>i. (of_nat i, entry_at J p4 p6 (Some backends) i))
         (filter (available_at J p4 p6 (Some backends)) [0..<GLB_FMT_MAX_NUM_BACKENDS])"
    "length s = GLB_FMT_MAX_NUM_BACKENDS"
    "build_rows qsort seed (bt_backends t)
       (length (filter (available_at J p4 p6 (Some backends)) [0..<GLB_FMT_MAX_NUM_BACKENDS]))
       [0..<GLB_FMT_TABLE_ENTRIES] s = Inr (s', bt_rows t)"
    "parse_key J ErrSeed ErrSeedLength bv (json_object_get J table ''seed'') = Inr seed"
    by (rule build_table_Inr [OF assms(1-3)])
  let ?I = "participants J p4 p6 table" and ?e = "entry_at J p4 p6 (Some backends)"
  have I: "filter (available_at J p4 p6 (Some backends)) [0..<GLB_FMT_MAX_NUM_BACKENDS] = ?I"
    by (simp add: participants_def T(1))
  have le: "length ?I \<le> length s"
    using length_filter_le [of _ "[0..<GLB_FMT_MAX_NUM_BACKENDS]"] by (simp add: participants_def T(4))
  have hold: "holds_backends ?e ?I s"
    unfolding holds_backends_def
    using le T(3)[unfolded I] by (auto simp: participants_def simp del: map_map)
  have rows: "\<exists>i0 i1. best_two (score seed r ?e) (set ?I) i0 i1 \<and> bt_rows t ! r = row_entry ?e i0 i1"
    if "r < GLB_FMT_TABLE_ENTRIES" for r
  proof -
    obtain s2 es where "build_rows qsort seed (bt_backends t) (length ?I) [0..<GLB_FMT_TABLE_ENTRIES] s = Inr (s2, es)"
      and es: "\<forall>k < length [0..<GLB_FMT_TABLE_ENTRIES]. \<exists>i0 i1.
        best_two (score seed ([0..<GLB_FMT_TABLE_ENTRIES] ! k) ?e) (set ?I) i0 i1 \<and> es ! k = row_entry ?e i0 i1"
      using build_rows_best [OF assms(2) hold assms(4) T(2)] by blast
    then have "es = bt_rows t" using T(5) [unfolded I] by simp
    then show ?thesis using es that by simp
  qed
  have e: "bt_backends t ! i = ?e i" if "i \<in> set ?I" for i
    using that by (auto simp: T(2) participants_def)
  then have b: "best_two (score seed r (\<lambda>i. bt_backends t ! i)) (set ?I) i0 i1 =
      best_two (score seed r ?e) (set ?I) i0 i1" for r i0 i1
    by (intro best_two_cong) (simp add: score_def)
  have re: "row_entry (\<lambda>i. bt_backends t ! i) i0 i1 = row_entry ?e i0 i1"
    if "i0 \<in> set ?I" "i1 \<in> set ?I" for i0 i1
    using e that by (simp add: row_entry_def)
  show ?thesis
  proof (rule that [OF T(6)])
    fix r assume "r < GLB_FMT_TABLE_ENTRIES"
    then show "\<exists>i0 i1. best_two (score seed r (\<lambda>i. bt_backends t ! i)) (set ?I) i0 i1 \<and>
         bt_rows t ! r = row_entry (\<lambda>i. bt_backends t ! i) i0 i1"
      using rows b re unfolding best_two_def by metis
  qed
qed

subsection \<open>Success\<close>

lemma build_backends_total:
  "(\<And>i. i \<in> set is \<Longrightarrow> i < json_array_size J bs \<Longrightarrow> \<exists>e. parse_backend J p4 p6 (json_array_get J bs i) = Inr e) \<Longrightarrow>
   \<exists>r. build_backends J p4 p6 bs is st = Inr r"
proof (induction "is" arbitrary: st)
  case Nil
  show ?case by (intro exI) (rule build_backends.simps(1))
next
  case (Cons i "is")
  obtain out s a where st: "st = (out, s, a)" by (rule prod_cases3)
  show ?case
  proof (cases "i < json_array_size J bs")
    case True
    then obtain e b where "parse_backend J p4 p6 (json_array_get J bs i) = Inr (e, b)"
      using Cons.prems by fastforce
    then show ?thesis using Cons True st by simp
  next
    case False
    then show ?thesis using Cons st by simp
  qed
qed

lemma build_binds_total:
  "(\<And>i. i \<in> set is \<Longrightarrow> i < json_array_size J bs \<Longrightarrow> \<exists>e. parse_bind J p4 p6 (json_array_get J bs i) = Inr e) \<Longrightarrow>
   \<exists>r. build_binds J p4 p6 bs is = Inr r"
proof (induction "is")
  case Nil
  then show ?case by simp
next
  case (Cons i "is")
  then obtain r where "build_binds J p4 p6 bs is = Inr r" by auto
  moreover obtain e where "(if i < json_array_size J bs then parse_bind J p4 p6 (json_array_get J bs i)
      else Inr zero_bind_entry) = Inr e"
    using Cons.prems [of i] by (cases "i < json_array_size J bs") auto
  ultimately show ?case by simp
qed

text \<open>A JSON table whose parts all parse and which has two backends to choose from.\<close>

definition parsable_table where
  "parsable_table J p4 p6 bv table \<longleftrightarrow>
     (\<exists>backends binds key seed.
        json_object_get J table ''backends'' = Some backends \<and>
        json_object_get J table ''binds'' = Some binds \<and>
        (\<forall>i < json_array_size J (Some backends). \<exists>e. parse_backend J p4 p6 (json_array_get J (Some backends) i) = Inr e) \<and>
        (\<forall>i < json_array_size J (Some binds). \<exists>e. parse_bind J p4 p6 (json_array_get J (Some binds) i) = Inr e) \<and>
        parse_key J ErrHashKey ErrHashKeyLength bv (json_object_get J table ''hash_key'') = Inr key \<and>
        parse_key J ErrSeed ErrSeedLength bv (json_object_get J table ''seed'') = Inr seed) \<and>
     2 \<le> length (participants J p4 p6 table)"

lemma build_table_total:
  assumes "qsort_law qsort" "length sortable = GLB_FMT_MAX_NUM_BACKENDS" "parsable_table J p4 p6 bv table"
  obtains s t where "build_table J p4 p6 qsort bv table sortable = Inr (s, t)"
proof -
  obtain backends binds key seed where
    T: "json_object_get J table ''backends'' = Some backends" "json_object_get J table ''binds'' = Some binds"
    "\<forall>i < json_array_size J (Some backends). \<exists>e. parse_backend J p4 p6 (json_array_get J (Some backends) i) = Inr e"
    "\<forall>i < json_array_size J (Some binds). \<exists>e. parse_bind J p4 p6 (json_array_get J (Some binds) i) = Inr e"
    "parse_key J ErrHashKey ErrHashKeyLength bv (json_object_get J table ''hash_key'') = Inr key"
    "parse_key J ErrSeed ErrSeedLength bv (json_object_get J table ''seed'') = Inr seed"
    "2 \<le> length (participants J p4 p6 table)"
    using assms(3) unfolding parsable_table_def by auto
  obtain out s a where bb: "build_backends J p4 p6 (Some backends) [0..<GLB_FMT_MAX_NUM_BACKENDS] ([], sortable, 0) = Inr (out, s, a)"
    using build_backends_total [of "[0..<GLB_FMT_MAX_NUM_BACKENDS]" J "Some backends" p4 p6 "([], sortable, 0)"] T(3) by fastforce
  obtain ob where ob: "build_binds J p4 p6 (Some binds) [0..<GLB_FMT_MAX_NUM_BINDS] = Inr ob"
    using build_binds_total [of "[0..<GLB_FMT_MAX_NUM_BINDS]" J "Some binds" p4 p6] T(4) by fastforce
  let ?I = "participants J p4 p6 table" and ?e = "entry_at J p4 p6 (Some backends)"
  have I: "filter (available_at J p4 p6 (Some backends)) [0..<GLB_FMT_MAX_NUM_BACKENDS] = ?I"
    by (simp add: participants_def T(1))
  have B: "out = map ?e [0..<GLB_FMT_MAX_NUM_BACKENDS]" "a = length ?I" "length s = GLB_FMT_MAX_NUM_BACKENDS"
    "map sb_pair (take (length ?I) s) = map (\<lambda>i. (of_nat i, ?e i)) ?I"
    using build_backends_Inr [OF bb] assms(2) I by auto
  have "length ?I \<le> length s"
    using length_filter_le [of _ "[0..<GLB_FMT_MAX_NUM_BACKENDS]"] by (simp add: participants_def B(3))
  then have "holds_backends ?e ?I s"
    using B(4) unfolding holds_backends_def by (auto simp: participants_def simp del: map_map)
  from build_rows_best [OF assms(1) this T(7) B(1)]
  obtain s2 es where "build_rows qsort seed out a [0..<GLB_FMT_TABLE_ENTRIES] s = Inr (s2, es)"
    unfolding B(2) by blast
  then show ?thesis
    using that T(1,2,5,6) bb ob by (simp add: build_table_def)
qed

lemma build_tables_Inr:
  assumes "build_tables J p4 p6 qsort bv tables sortable = Inr ts" "qsort_law qsort"
    and "length sortable = GLB_FMT_MAX_NUM_BACKENDS"
  shows "length ts = length tables \<and> (\<forall>k < length tables. \<exists>s s'. length s = GLB_FMT_MAX_NUM_BACKENDS \<and>
    build_table J p4 p6 qsort bv (tables ! k) s = Inr (s', ts ! k))"
  using assms(1,3)
proof (induction tables arbitrary: sortable ts)
  case Nil
  then show ?case by simp
next
  case (Cons table tables)
  from Cons.prems(1) obtain s t ts' where
    t: "build_table J p4 p6 qsort bv table sortable = Inr (s, t)"
    and ts: "build_tables J p4 p6 qsort bv tables s = Inr ts'" "ts = t # ts'"
    by (auto simp: bind_res_Inr)
  have "length s = GLB_FMT_MAX_NUM_BACKENDS"
    by (rule build_table_Inr [OF t assms(2) Cons.prems(2)])
  note IH = Cons.IH [OF ts(1) this]
  have "\<exists>s s'. length s = GLB_FMT_MAX_NUM_BACKENDS \<and>
    build_table J p4 p6 qsort bv ((table # tables) ! k) s = Inr (s', (t # ts') ! k)"
    if "k < Suc (length tables)" for k
    using that IH t Cons.prems(2) by (cases k) auto
  then show ?case using IH ts(2) by auto
qed

lemma build_tables_total:
  assumes "qsort_law qsort" "length sortable = GLB_FMT_MAX_NUM_BACKENDS"
    and "\<And>t. t \<in> set tables \<Longrightarrow> parsable_table J p4 p6 bv t"
  shows "\<exists>ts. build_tables J p4 p6 qsort bv tables sortable = Inr ts"
  using assms(2,3)
proof (induction tables arbitrary: sortable)
  case Nil
  then show ?case by simp
next
  case (Cons table tables)
  obtain s t where t: "build_table J p4 p6 qsort bv table sortable = Inr (s, t)"
    by (rule build_table_total [OF assms(1) Cons.prems(1)]) (use Cons.prems in auto)
  have "length s = GLB_FMT_MAX_NUM_BACKENDS"
    by (rule build_table_Inr [OF t assms(1) Cons.prems(1)])
  then show ?case using Cons t by fastforce
qed

subsection \<open>The file\<close>

text \<open>The tables of the JSON document, and the sizes the director accepts.\<close>

definition json_tables where
  "json_tables J tables = map (json_array_get J tables) [0..<json_array_size J tables]"

definition acceptable_sizes where
  "acceptable_sizes J table \<longleftrightarrow>
     json_array_size J (json_object_get J table ''backends'') \<in> {1..GLB_FMT_MAX_NUM_BACKENDS} \<and>
     json_array_size J (json_object_get J table ''binds'') \<in> {1..GLB_FMT_MAX_NUM_BINDS}"

lemma unat_of_nat_u32: "n < 2 ^ 32 \<Longrightarrow> unat (of_nat n :: u32) = n"
  by (simp add: unsigned_of_nat take_bit_nat_eq_self)

lemma valid_built_table:
  assumes "build_table J p4 p6 qsort bv table sortable = Inr (s', t)" "qsort_law qsort"
    and "length sortable = GLB_FMT_MAX_NUM_BACKENDS" "acceptable_sizes J table"
  shows "valid_table (built_table_bytes t @ rest)"
proof -
  obtain backends binds seed s where T: "json_object_get J table ''backends'' = Some backends"
    "json_object_get J table ''binds'' = Some binds" "built_table_wf t"
    "bt_num_backends t = of_nat (json_array_size J (Some backends))"
    "bt_num_binds t = of_nat (json_array_size J (Some binds))"
    "\<And>i. i < GLB_FMT_MAX_NUM_BACKENDS \<Longrightarrow> i < json_array_size J (Some backends) \<Longrightarrow>
       \<exists>a. parse_backend J p4 p6 (json_array_get J (Some backends) i) = Inr (bt_backends t ! i, a)"
    "\<And>i. i < GLB_FMT_MAX_NUM_BINDS \<Longrightarrow> i < json_array_size J (Some binds) \<Longrightarrow>
       parse_bind J p4 p6 (json_array_get J (Some binds) i) = Inr (bt_binds t ! i)"
    by (rule build_table_Inr [OF assms(1-3)]) blast
  have n: "unat (bt_num_backends t) = json_array_size J (Some backends)"
    "unat (bt_num_binds t) = json_array_size J (Some binds)"
    using assms(4) T(1,2) unfolding T(4,5) acceptable_sizes_def
    by (auto intro!: unat_of_nat_u32)
  have sizes: "json_array_size J (Some backends) \<in> {1..GLB_FMT_MAX_NUM_BACKENDS}"
    "json_array_size J (Some binds) \<in> {1..GLB_FMT_MAX_NUM_BINDS}"
    using assms(4) T(1,2) by (simp_all add: acceptable_sizes_def)
  have "valid_family (bk_family (bt_backends t ! i))" if "i < json_array_size J (Some backends)" for i
    using T(6) [of i] that sizes parse_backend_family by fastforce
  moreover have "valid_family (bn_family (bt_binds t ! i)) \<and> bn_ipproto (bt_binds t ! i) \<in> {6, 17}"
    if "i < json_array_size J (Some binds)" for i
    using parse_bind_valid [OF T(7)] that sizes by simp
  ultimately show ?thesis
    unfolding valid_table_def table_num_backends_built table_num_binds_built [OF T(3)] n
    using sizes by (auto simp: table_bind_built [OF T(3)] table_backend_built [OF T(3)] as_bind_def as_backend_def)
qed

lemma build_config_file_Inr:
  assumes "build_config_file J p4 p6 qsort bv sortable tables = Inr out" "qsort_law qsort"
    and "length sortable = GLB_FMT_MAX_NUM_BACKENDS"
  obtains ts where "length ts = length (json_tables J tables)"
    "out = [0x47, 0x4c, 0x42, 0x44] @ bin_file_header_bytes (of_nat (json_array_size J tables)) @
       concat (map built_table_bytes ts)"
    "\<And>k. k < length ts \<Longrightarrow> \<exists>s s'. length s = GLB_FMT_MAX_NUM_BACKENDS \<and>
       build_table J p4 p6 qsort bv (json_tables J tables ! k) s = Inr (s', ts ! k)"
    "\<And>t. t \<in> set ts \<Longrightarrow> built_table_wf t"
proof -
  obtain ts where ts: "build_tables J p4 p6 qsort bv (json_tables J tables) sortable = Inr ts"
    and out: "out = [0x47, 0x4c, 0x42, 0x44] @ bin_file_header_bytes (of_nat (json_array_size J tables)) @
       concat (map built_table_bytes ts)"
    using assms(1) unfolding build_config_file_def json_tables_def bind_res_Inr by blast
  note T = build_tables_Inr [OF ts assms(2,3)]
  have "built_table_wf t" if t: "t \<in> set ts" for t
  proof -
    obtain k where k: "k < length ts" "ts ! k = t" using t by (auto simp: in_set_conv_nth)
    then obtain s s' where s: "length s = GLB_FMT_MAX_NUM_BACKENDS"
      "build_table J p4 p6 qsort bv (json_tables J tables ! k) s = Inr (s', t)" using T by fastforce
    show ?thesis by (rule build_table_Inr [OF s(2) assms(2) s(1)])
  qed
  then show ?thesis using that T out by auto
qed

lemma built_file_contents:
  assumes "out = [0x47, 0x4c, 0x42, 0x44] @ bin_file_header_bytes n @ concat (map built_table_bytes ts)"
    and "\<And>t. t \<in> set ts \<Longrightarrow> built_table_wf t"
  shows "content_magic_word out = GLB_FMT_MAGIC_WORD" "content_version out = GLB_FMT_VERSION"
    "unat (content_table_entries out) = GLB_FMT_TABLE_ENTRIES"
    "unat (content_max_num_backends out) = GLB_FMT_MAX_NUM_BACKENDS" "content_num_tables out = n"
    "length out = sizeof_content + sizeof_table * length ts"
    "k < length ts \<Longrightarrow> \<exists>rest. content_table out k = built_table_bytes (ts ! k) @ rest"
proof -
  have magic: "[0x47, 0x4c, 0x42, 0x44] = le_bytes 4 GLB_FMT_MAGIC_WORD"
    by code_simp
  show "content_magic_word out = GLB_FMT_MAGIC_WORD" "content_version out = GLB_FMT_VERSION"
    "unat (content_table_entries out) = GLB_FMT_TABLE_ENTRIES"
    "unat (content_max_num_backends out) = GLB_FMT_MAX_NUM_BACKENDS" "content_num_tables out = n"
    unfolding assms(1) bin_file_header_bytes_def magic append_assoc
    by (simp_all add: content_magic_word_def content_version_def content_table_entries_def
        content_max_num_backends_def content_num_tables_def wire)
  have h: "length ([0x47, 0x4c, 0x42, 0x44] @ bin_file_header_bytes n) = sizeof_content"
    by (simp add: bin_file_header_bytes_def sizeof_content_def)
  have len: "length (built_table_bytes t) = sizeof_table" if "t \<in> set ts" for t
    using length_built_table_bytes assms(2) that by blast
  show "length out = sizeof_content + sizeof_table * length ts"
    using h length_concat_const [of ts built_table_bytes, OF len] unfolding assms(1) by simp
  assume k: "k < length ts"
  have split: "out = ([0x47, 0x4c, 0x42, 0x44] @ bin_file_header_bytes n) @ concat (map built_table_bytes ts) @ []"
    by (simp add: assms(1))
  show "\<exists>rest. content_table out k = built_table_bytes (ts ! k) @ rest"
    by (rule drop_array [OF split h len k]) (auto simp: content_table_def)
qed

end
