(* ===== verification/Table_Builder.thy ===== *)
theory Table_Builder
  imports Rendezvous Siphash_Test
begin

text \<open>
  Properties of the table builder as a whole: its success, the validity and the contents of the file it
  writes as the director reads it, the stability of the rendezvous rows, and the atomic replacement of
  the destination; with a small document as the example.
\<close>

declare upt_rec_numeral [simp del]

subsection \<open>Reading a built file\<close>

lemma built_file_table:
  assumes "build_config_file J p4 p6 qsort bv sortable tables = Inr out" "qsort_law qsort"
    and "length sortable = GLB_FMT_MAX_NUM_BACKENDS" "k < json_array_size J tables"
  obtains s s' t rest where "content_table out k = built_table_bytes t @ rest" "built_table_wf t"
    "length s = GLB_FMT_MAX_NUM_BACKENDS"
    "build_table J p4 p6 qsort bv (json_array_get J tables k) s = Inr (s', t)"
proof -
  obtain ts where ts: "length ts = length (json_tables J tables)"
    "out = [0x47, 0x4c, 0x42, 0x44] @ bin_file_header_bytes (of_nat (json_array_size J tables)) @
       concat (map built_table_bytes ts)"
    "\<And>k. k < length ts \<Longrightarrow> \<exists>s s'. length s = GLB_FMT_MAX_NUM_BACKENDS \<and>
       build_table J p4 p6 qsort bv (json_tables J tables ! k) s = Inr (s', ts ! k)"
    "\<And>t. t \<in> set ts \<Longrightarrow> built_table_wf t"
    by (rule build_config_file_Inr [OF assms(1-3)]) blast
  have k: "k < length ts" "json_tables J tables ! k = json_array_get J tables k"
    using ts(1) assms(4) by (simp_all add: json_tables_def)
  obtain rest where "content_table out k = built_table_bytes (ts ! k) @ rest"
    using built_file_contents(7) [OF ts(2,4) k(1)] by blast
  then show ?thesis using that ts(3) [OF k(1)] ts(4) [of "ts ! k"] k by auto
qed

lemma built_file_valid:
  assumes "build_config_file J p4 p6 qsort bv sortable tables = Inr out" "qsort_law qsort"
    and "length sortable = GLB_FMT_MAX_NUM_BACKENDS" "json_array_size J tables \<in> {1..<2 ^ 32}"
    and "\<And>k. k < json_array_size J tables \<Longrightarrow> acceptable_sizes J (json_array_get J tables k)"
  shows "valid_fwd_config out"
proof -
  obtain ts where ts: "length ts = length (json_tables J tables)"
    "out = [0x47, 0x4c, 0x42, 0x44] @ bin_file_header_bytes (of_nat (json_array_size J tables)) @
       concat (map built_table_bytes ts)"
    "\<And>t. t \<in> set ts \<Longrightarrow> built_table_wf t"
    by (rule build_config_file_Inr [OF assms(1-3)]) blast
  have n: "unat (of_nat (json_array_size J tables) :: u32) = json_array_size J tables"
    using assms(4) by (intro unat_of_nat_u32) simp
  have "valid_table (content_table out k)" if "k < json_array_size J tables" for k
  proof -
    obtain s s' t rest where "content_table out k = built_table_bytes t @ rest"
      "length s = GLB_FMT_MAX_NUM_BACKENDS"
      "build_table J p4 p6 qsort bv (json_array_get J tables k) s = Inr (s', t)"
      by (rule built_file_table [OF assms(1-3) \<open>k < json_array_size J tables\<close>])
    then show ?thesis
      using valid_built_table [of J p4 p6 qsort bv "json_array_get J tables k"] assms(2)
        assms(5) [OF that] by simp
  qed
  then show ?thesis
    using built_file_contents [OF ts(2,3)] ts(1) n assms(4)
    by (simp add: valid_fwd_config_def json_tables_def)
qed

subsection \<open>Stability of rows\<close>

lemma score_cong:
  "bk_family (ent i) = bk_family (ent' i) \<Longrightarrow> bk_ip (ent i) = bk_ip (ent' i) \<Longrightarrow>
   score seed r ent i = score seed r ent' i"
  by (simp add: score_def backend_hash_def)

lemma row_entry_pair:
  assumes "best_two h I i0 i1" "I \<subseteq> {..<GLB_FMT_MAX_NUM_BACKENDS}"
  shows "{unat (primary_idx (row_entry ent i0 i1)), unat (secondary_idx (row_entry ent i0 i1))} = {i0, i1}"
proof -
  have "unat (of_nat i0 :: u32) = i0" "unat (of_nat i1 :: u32) = i1"
    using assms by (auto simp: best_two_def intro!: unat_of_nat_u32)
  then show ?thesis by (auto simp: row_entry_def)
qed

lemma participants_small: "set (participants J p4 p6 table) \<subseteq> {..<GLB_FMT_MAX_NUM_BACKENDS}"
  by (auto simp: participants_def)

lemma rows_stable:
  assumes "best_two (score seed r ent) I i0 i1" "best_two (score seed r ent') I' j0 j1"
    and "I' \<subseteq> I" "I \<subseteq> {..<GLB_FMT_MAX_NUM_BACKENDS}" "inj_on (score seed r ent) I"
    and "\<And>i. i \<in> I' \<Longrightarrow> bk_family (ent' i) = bk_family (ent i) \<and> bk_ip (ent' i) = bk_ip (ent i)"
    and "{unat (primary_idx (row_entry ent i0 i1)), unat (secondary_idx (row_entry ent i0 i1))} \<subseteq> I'"
  shows "j0 = i0 \<and> j1 = i1"
proof -
  have "i0 \<in> I'" "i1 \<in> I'"
    using assms(7) unfolding row_entry_pair [OF assms(1,4)] by auto
  then have "best_two (score seed r ent) I' i0 i1"
    using best_two_subset assms(1,3) by blast
  moreover have "best_two (score seed r ent) I' j0 j1"
  proof -
    have "score seed r ent' i = score seed r ent i" if "i \<in> I'" for i
      using assms(6) [OF that] by (intro score_cong) simp_all
    then show ?thesis
      using assms(2) best_two_cong [of I' "score seed r ent'" "score seed r ent"] by blast
  qed
  ultimately show ?thesis
    using best_two_unique inj_on_subset [OF assms(5,3)] by blast
qed

subsection \<open>An example: three backends, with the seed of the test vector\<close>

definition example_backend :: "string \<Rightarrow> string \<Rightarrow> json" where
  "example_backend ip state = JObj [(''ip'', JStr ip), (''state'', JStr state), (''healthy'', JTrue)]"

definition example_table :: "string \<Rightarrow> json" where
  "example_table state = JObj [
     (''backends'', JArr [example_backend ''10.0.0.1'' ''active'', example_backend ''10.0.0.2'' ''active'',
                          example_backend ''10.0.0.3'' state]),
     (''binds'', JArr [JObj [(''ip'', JStr ''1.1.1.1/32''), (''proto'', JStr ''tcp''), (''port'', JInt 80)]]),
     (''hash_key'', JStr ''0123456789abcdef0123456789ABCDEF''),
     (''seed'', JStr ''49a3d861d661ae5ab06ed9326871a2f5'')]"

definition example_pton :: "string \<Rightarrow> u32 option" where
  "example_pton s =
     (if s = ''10.0.0.1'' then Some 0x0100000a else if s = ''10.0.0.2'' then Some 0x0200000a
      else if s = ''10.0.0.3'' then Some 0x0300000a else if s = ''1.1.1.1'' then Some 0x01010101 else None)"

lemma qsort_law_sort_key: "qsort_law (sort_key sb_hash)"
  unfolding qsort_law_def sortable_backend_cmp_le
proof (intro allI conjI)
  fix xs :: "sortable_backend list"
  show "mset (sort_key sb_hash xs) = mset xs" by (rule mset_sort)
  have "sorted (map sb_hash (sort_key sb_hash xs))" by (rule sorted_sort_key)
  then show "sorted_wrt (\<lambda>a b. sb_hash a \<le> sb_hash b) (sort_key sb_hash xs)" by (simp only: sorted_map)
qed

lemma example_parse_backend:
  assumes "st \<in> {''active'', ''inactive''}"
  shows
  "parse_backend json_lib example_pton (\<lambda>_. None) (Some (example_backend ''10.0.0.1'' ''active'')) =
     Inr (\<lparr>bk_family = 1, bk_ip = 0x0100000a, bk_state = 1, bk_health = 1\<rparr>, True)"
  "parse_backend json_lib example_pton (\<lambda>_. None) (Some (example_backend ''10.0.0.2'' ''active'')) =
     Inr (\<lparr>bk_family = 1, bk_ip = 0x0200000a, bk_state = 1, bk_health = 1\<rparr>, True)"
  "parse_backend json_lib example_pton (\<lambda>_. None) (Some (example_backend ''10.0.0.3'' st)) =
     Inr (\<lparr>bk_family = 1, bk_ip = 0x0300000a, bk_state = (if st = ''active'' then 1 else 2), bk_health = 1\<rparr>,
          st = ''active'')"
  using assms
  by (auto simp: parse_backend_def json_lib_def example_backend_def example_pton_def)

lemma example_members:
  "json_object_get json_lib (Some (example_table st)) ''backends'' =
     Some (JArr [example_backend ''10.0.0.1'' ''active'', example_backend ''10.0.0.2'' ''active'',
                 example_backend ''10.0.0.3'' st])"
  "json_object_get json_lib (Some (example_table st)) ''binds'' =
     Some (JArr [JObj [(''ip'', JStr ''1.1.1.1/32''), (''proto'', JStr ''tcp''), (''port'', JInt 80)]])"
  "json_array_size json_lib (Some (JArr xs)) = length xs"
  "i < length xs \<Longrightarrow> json_array_get json_lib (Some (JArr xs)) i = Some (xs ! i)"
  by (simp_all add: json_lib_def example_table_def)

lemma example_seed:
  "parse_key json_lib ErrSeed ErrSeedLength 0 (json_object_get json_lib (Some (example_table st)) ''seed'') =
     Inr test_seed"
proof -
  have "decodehex 0 ''49a3d861d661ae5ab06ed9326871a2f5'' 16 = test_seed"
    by code_simp
  then show ?thesis
    by (simp add: parse_key_def json_lib_def example_table_def)
qed

lemma example_key:
  "\<exists>k. parse_key json_lib ErrHashKey ErrHashKeyLength 0
     (json_object_get json_lib (Some (example_table st)) ''hash_key'') = Inr k"
  by (simp add: parse_key_def json_lib_def example_table_def)

lemma example_bind:
  "\<exists>e. parse_bind json_lib example_pton (\<lambda>_. None)
     (Some (JObj [(''ip'', JStr ''1.1.1.1/32''), (''proto'', JStr ''tcp''), (''port'', JInt 80)])) = Inr e"
proof -
  have c: "bind_cidr ''1.1.1.1/32'' = Inr (''1.1.1.1'', 32)"
    by code_simp
  have "c_int 80 = 80" by (simp add: c_int_def)
  then show ?thesis
    by (simp add: parse_bind_def json_lib_def bind_ports_def c example_pton_def)
qed

lemma less_3_cases: "i < (3 :: nat) \<longleftrightarrow> i = 0 \<or> i = 1 \<or> i = 2"
  by auto

lemma example_available:
  assumes "st \<in> {''active'', ''inactive''}"
  shows "available_at json_lib example_pton (\<lambda>_. None)
      (json_object_get json_lib (Some (example_table st)) ''backends'') i \<longleftrightarrow>
    i = 0 \<or> i = 1 \<or> (i = 2 \<and> st = ''active'')"
proof (cases "i < 3")
  case True
  then show ?thesis
    using example_parse_backend [OF assms] by (auto simp: available_at_def example_members less_3_cases)
next
  case False
  then show ?thesis by (auto simp: available_at_def example_members)
qed

lemma example_participants:
  assumes "st \<in> {''active'', ''inactive''}"
  shows "set (participants json_lib example_pton (\<lambda>_. None) (Some (example_table st))) =
    (if st = ''active'' then {0, 1, 2} else {0, 1})"
    "2 \<le> length (participants json_lib example_pton (\<lambda>_. None) (Some (example_table st)))"
proof -
  show s: "set (participants json_lib example_pton (\<lambda>_. None) (Some (example_table st))) =
    (if st = ''active'' then {0, 1, 2} else {0, 1})"
    by (auto simp: participants_def example_available [OF assms])
  have "distinct (participants json_lib example_pton (\<lambda>_. None) (Some (example_table st)))"
    by (simp add: participants_def)
  from distinct_card [OF this] s
  show "2 \<le> length (participants json_lib example_pton (\<lambda>_. None) (Some (example_table st)))"
    by (simp split: if_splits)
qed

lemma example_parsable:
  assumes "st \<in> {''active'', ''inactive''}"
  shows "parsable_table json_lib example_pton (\<lambda>_. None) 0 (Some (example_table st))"
  unfolding parsable_table_def
  using example_participants(2) [OF assms] example_seed [of st] example_key [of st]
    example_parse_backend [OF assms] example_bind
  by (auto simp: example_members less_Suc_eq_0_disj)

lemma built_entries:
  assumes "build_table J p4 p6 qsort bv table sortable = Inr (s', t)" "qsort_law qsort"
    and "length sortable = GLB_FMT_MAX_NUM_BACKENDS" "i < GLB_FMT_MAX_NUM_BACKENDS"
  shows "bt_backends t ! i = entry_at J p4 p6 (json_object_get J table ''backends'') i"
proof -
  obtain backends binds seed s where "json_object_get J table ''backends'' = Some backends"
    "bt_backends t = map (entry_at J p4 p6 (Some backends)) [0..<GLB_FMT_MAX_NUM_BACKENDS]"
    by (rule build_table_Inr [OF assms(1-3)]) blast
  then show ?thesis using assms(4) by simp
qed

lemma table_row:
  assumes "build_table J p4 p6 qsort bv table sortable = Inr (s, t)" "qsort_law qsort"
    and "length sortable = GLB_FMT_MAX_NUM_BACKENDS"
    and "parse_key J ErrSeed ErrSeedLength bv (json_object_get J table ''seed'') = Inr seed"
    and "2 \<le> length (participants J p4 p6 table)" "r < GLB_FMT_TABLE_ENTRIES"
  shows "\<exists>i0 i1. best_two (score seed r (\<lambda>i. bt_backends t ! i)) (set (participants J p4 p6 table)) i0 i1 \<and>
    bt_rows t ! r = row_entry (\<lambda>i. bt_backends t ! i) i0 i1"
proof -
  obtain seed' where "parse_key J ErrSeed ErrSeedLength bv (json_object_get J table ''seed'') = Inr seed'"
    "\<And>r. r < GLB_FMT_TABLE_ENTRIES \<Longrightarrow>
       \<exists>i0 i1. best_two (score seed' r (\<lambda>i. bt_backends t ! i)) (set (participants J p4 p6 table)) i0 i1 \<and>
         bt_rows t ! r = row_entry (\<lambda>i. bt_backends t ! i) i0 i1"
    by (rule build_table_rows [OF assms(1-3,5)]) blast
  moreover from this(1) have "seed' = seed" using assms(4) by simp
  ultimately show ?thesis using assms(6) by blast
qed

lemma built_file_rows:
  assumes "build_config_file J p4 p6 qsort bv sortable tables = Inr out" "qsort_law qsort"
    and "length sortable = GLB_FMT_MAX_NUM_BACKENDS" "k < json_array_size J tables" "r < GLB_FMT_TABLE_ENTRIES"
    and "2 \<le> length (participants J p4 p6 (json_array_get J tables k))"
  shows "\<exists>seed i0 i1.
    parse_key J ErrSeed ErrSeedLength bv (json_object_get J (json_array_get J tables k) ''seed'') = Inr seed \<and>
    best_two (score seed r (entry_at J p4 p6 (json_object_get J (json_array_get J tables k) ''backends'')))
      (set (participants J p4 p6 (json_array_get J tables k))) i0 i1 \<and>
    table_entry_at (content_table out k) r = as_entry (row_entry
      (entry_at J p4 p6 (json_object_get J (json_array_get J tables k) ''backends'')) i0 i1)"
proof -
  let ?t = "json_array_get J tables k"
  let ?I = "set (participants J p4 p6 ?t)" and ?e = "entry_at J p4 p6 (json_object_get J ?t ''backends'')"
  obtain s s' t rest where t: "content_table out k = built_table_bytes t @ rest" "built_table_wf t"
    "length s = GLB_FMT_MAX_NUM_BACKENDS" "build_table J p4 p6 qsort bv ?t s = Inr (s', t)"
    by (rule built_file_table [OF assms(1-4)])
  obtain seed where seed: "parse_key J ErrSeed ErrSeedLength bv (json_object_get J ?t ''seed'') = Inr seed"
    by (rule build_table_rows [OF t(4) assms(2) t(3) assms(6)])
  obtain i0 i1 where r: "best_two (score seed r (\<lambda>i. bt_backends t ! i)) ?I i0 i1"
    "bt_rows t ! r = row_entry (\<lambda>i. bt_backends t ! i) i0 i1"
    using table_row [OF t(4) assms(2) t(3) seed assms(6,5)] by blast
  have e: "bt_backends t ! i = ?e i" if "i \<in> ?I" for i
    by (rule built_entries [OF t(4) assms(2) t(3)]) (use participants_small that in blast)
  have "best_two (score seed r ?e) ?I i0 i1"
  proof -
    have "score seed r (\<lambda>i. bt_backends t ! i) i = score seed r ?e i" if "i \<in> ?I" for i
      using e [OF that] by (simp add: score_def)
    then show ?thesis
      using r(1) best_two_cong [of ?I "score seed r (\<lambda>i. bt_backends t ! i)" "score seed r ?e"] by simp
  qed
  moreover have "table_entry_at (content_table out k) r = as_entry (row_entry ?e i0 i1)"
    using r(1) e unfolding t(1) table_entry_built [OF t(2) assms(5)] r(2)
    by (simp add: row_entry_def best_two_def)
  ultimately show ?thesis using seed by blast
qed

text \<open>What a table of the file holds, as the director reads it, for its JSON description.\<close>

definition file_table_matches where
  "file_table_matches J p4 p6 bv table content \<longleftrightarrow>
     unat (table_num_backends content) = json_array_size J (json_object_get J table ''backends'') \<and>
     unat (table_num_binds content) = json_array_size J (json_object_get J table ''binds'') \<and>
     (\<forall>i < json_array_size J (json_object_get J table ''backends''). \<exists>e a.
        parse_backend J p4 p6 (json_array_get J (json_object_get J table ''backends'') i) = Inr (e, a) \<and>
        table_backend content i = as_backend e) \<and>
     (\<forall>i < json_array_size J (json_object_get J table ''binds''). \<exists>e.
        parse_bind J p4 p6 (json_array_get J (json_object_get J table ''binds'') i) = Inr e \<and>
        table_bind content i = as_bind e) \<and>
     parse_key J ErrHashKey ErrHashKeyLength bv (json_object_get J table ''hash_key'') =
       Inr (table_secure_key content)"

lemma built_file_matches:
  assumes "build_config_file J p4 p6 qsort bv sortable tables = Inr out" "qsort_law qsort"
    and "length sortable = GLB_FMT_MAX_NUM_BACKENDS" "k < json_array_size J tables"
    and "\<And>k. k < json_array_size J tables \<Longrightarrow> acceptable_sizes J (json_array_get J tables k)"
  shows "file_table_matches J p4 p6 bv (json_array_get J tables k) (content_table out k)"
proof -
  let ?t = "json_array_get J tables k"
  obtain s s' t rest where t: "content_table out k = built_table_bytes t @ rest" "built_table_wf t"
    "length s = GLB_FMT_MAX_NUM_BACKENDS" "build_table J p4 p6 qsort bv ?t s = Inr (s', t)"
    by (rule built_file_table [OF assms(1-4)])
  obtain backends binds seed s2 where T: "json_object_get J ?t ''backends'' = Some backends"
    "json_object_get J ?t ''binds'' = Some binds"
    "bt_num_backends t = of_nat (json_array_size J (Some backends))"
    "bt_num_binds t = of_nat (json_array_size J (Some binds))"
    "\<And>i. i < GLB_FMT_MAX_NUM_BACKENDS \<Longrightarrow> i < json_array_size J (Some backends) \<Longrightarrow>
       \<exists>a. parse_backend J p4 p6 (json_array_get J (Some backends) i) = Inr (bt_backends t ! i, a)"
    "\<And>i. i < GLB_FMT_MAX_NUM_BINDS \<Longrightarrow> i < json_array_size J (Some binds) \<Longrightarrow>
       parse_bind J p4 p6 (json_array_get J (Some binds) i) = Inr (bt_binds t ! i)"
    "parse_key J ErrHashKey ErrHashKeyLength bv (json_object_get J ?t ''hash_key'') = Inr (bt_key t)"
    by (rule build_table_Inr [OF t(4) assms(2) t(3)]) blast
  have sizes: "json_array_size J (Some backends) \<le> GLB_FMT_MAX_NUM_BACKENDS"
    "json_array_size J (Some binds) \<le> GLB_FMT_MAX_NUM_BINDS"
    using assms(5) [OF assms(4)] by (simp_all add: acceptable_sizes_def T(1,2))
  then have n: "unat (of_nat (json_array_size J (Some backends)) :: u32) = json_array_size J (Some backends)"
    "unat (of_nat (json_array_size J (Some binds)) :: u32) = json_array_size J (Some binds)"
    by (intro unat_of_nat_u32; simp)+
  have bk: "\<exists>e a. parse_backend J p4 p6 (json_array_get J (Some backends) i) = Inr (e, a) \<and>
      table_backend (built_table_bytes t @ rest) i = as_backend e"
    if "i < json_array_size J (Some backends)" for i
    using T(5) [OF _ that] that sizes(1) table_backend_built [OF t(2), of i rest] by fastforce
  have bn: "\<exists>e. parse_bind J p4 p6 (json_array_get J (Some binds) i) = Inr e \<and>
      table_bind (built_table_bytes t @ rest) i = as_bind e"
    if "i < json_array_size J (Some binds)" for i
    using T(6) [OF _ that] that sizes(2) table_bind_built [OF t(2), of i rest] by fastforce
  show ?thesis
    unfolding file_table_matches_def t(1) T(1,2,7) table_num_backends_built table_num_binds_built [OF t(2)]
      table_secure_key_built [OF t(2)] T(3,4) n
    using bk bn by blast
qed

lemma built_file_num_tables:
  assumes "build_config_file J p4 p6 qsort bv sortable tables = Inr out" "qsort_law qsort"
    and "length sortable = GLB_FMT_MAX_NUM_BACKENDS" "json_array_size J tables \<in> {1..<2 ^ 32}"
  shows "unat (content_num_tables out) = json_array_size J tables"
proof -
  obtain ts where "out = [0x47, 0x4c, 0x42, 0x44] @ bin_file_header_bytes (of_nat (json_array_size J tables)) @
       concat (map built_table_bytes ts)" "\<And>t. t \<in> set ts \<Longrightarrow> built_table_wf t"
    by (rule build_config_file_Inr [OF assms(1-3)]) blast
  then show ?thesis
    using built_file_contents(5) assms(4) unat_of_nat_u32 [of "json_array_size J tables"] by simp
qed

lemma participants_mono_length:
  assumes "set (participants J' p4' p6' table') \<subseteq> set (participants J p4 p6 table)"
  shows "length (participants J' p4' p6' table') \<le> length (participants J p4 p6 table)"
proof -
  have d: "distinct (participants J p4 p6 table)" for J p4 p6 table
    by (simp add: participants_def)
  show ?thesis
    unfolding distinct_card [OF d, symmetric] by (intro card_mono) (simp_all add: assms)
qed

lemma example_file:
  assumes "st \<in> {''active'', ''inactive''}"
  shows "\<exists>out. build_config_file json_lib example_pton (\<lambda>_. None) (sort_key sb_hash) 0
      (replicate 256 \<lparr>sb_index = 0, sb_hash = 0, sb_backend = zero_backend_entry\<rparr>)
      (Some (JArr [example_table st])) = Inr out"
proof -
  obtain ts where "build_tables json_lib example_pton (\<lambda>_. None) (sort_key sb_hash) 0 [Some (example_table st)]
      (replicate 256 \<lparr>sb_index = 0, sb_hash = 0, sb_backend = zero_backend_entry\<rparr>) = Inr ts"
    using build_tables_total [OF qsort_law_sort_key, where tables = "[Some (example_table st)]"]
      example_parsable [OF assms] by fastforce
  then show ?thesis
    by (simp add: build_config_file_def example_members del: build_tables.simps)
qed

lemma example_built:
  assumes "st \<in> {''active'', ''inactive''}"
  shows "\<exists>s t. build_table json_lib example_pton (\<lambda>_. None) (sort_key sb_hash) 0 (Some (example_table st))
      (replicate 256 \<lparr>sb_index = 0, sb_hash = 0, sb_backend = zero_backend_entry\<rparr>) = Inr (s, t)"
  by (rule build_table_total [OF qsort_law_sort_key _ example_parsable [OF assms]]) auto

lemma example_entries:
  assumes "build_table json_lib example_pton (\<lambda>_. None) (sort_key sb_hash) 0 (Some (example_table st))
      (replicate 256 sb) = Inr (s, t)" "st \<in> {''active'', ''inactive''}"
  shows "bt_backends t ! 0 = \<lparr>bk_family = 1, bk_ip = 0x0100000a, bk_state = 1, bk_health = 1\<rparr>"
    "bt_backends t ! 1 = \<lparr>bk_family = 1, bk_ip = 0x0200000a, bk_state = 1, bk_health = 1\<rparr>"
    "bt_backends t ! 2 = \<lparr>bk_family = 1, bk_ip = 0x0300000a, bk_state = (if st = ''active'' then 1 else 2), bk_health = 1\<rparr>"
proof -
  obtain backends binds seed s' where "json_object_get json_lib (Some (example_table st)) ''backends'' = Some backends"
    "bt_backends t = map (entry_at json_lib example_pton (\<lambda>_. None) (Some backends)) [0..<GLB_FMT_MAX_NUM_BACKENDS]"
    by (rule build_table_Inr [OF assms(1) qsort_law_sort_key]) (simp, blast)
  then show "bt_backends t ! 0 = \<lparr>bk_family = 1, bk_ip = 0x0100000a, bk_state = 1, bk_health = 1\<rparr>"
    "bt_backends t ! 1 = \<lparr>bk_family = 1, bk_ip = 0x0200000a, bk_state = 1, bk_health = 1\<rparr>"
    "bt_backends t ! 2 = \<lparr>bk_family = 1, bk_ip = 0x0300000a, bk_state = (if st = ''active'' then 1 else 2), bk_health = 1\<rparr>"
    using example_parse_backend [OF assms(2)] by (auto simp: entry_at_def example_members nth_Cons')
qed

lemma example_scores:
  assumes "ent 0 = \<lparr>bk_family = 1, bk_ip = 0x0100000a, bk_state = a, bk_health = b\<rparr>"
    "ent 1 = \<lparr>bk_family = 1, bk_ip = 0x0200000a, bk_state = c, bk_health = d\<rparr>"
    "ent 2 = \<lparr>bk_family = 1, bk_ip = 0x0300000a, bk_state = e, bk_health = f\<rparr>"
  shows "score test_seed 0xffff ent 0 = 0x9d0c78bbce01714"
    "score test_seed 0xffff ent 1 = 0x452ec40c5b30569a"
    "score test_seed 0xffff ent 2 = 0x69fdeee0a698aa32"
proof -
  have r: "row_hash test_seed 0xffff = [0xf2, 0x23, 0xc0, 0xcc, 0x65, 0x16, 0x16, 0x20]"
  proof -
    have "le_bytes 4 (htonl 0xffff) = [0, 0, 0xff, 0xff]" by code_simp
    then show ?thesis by (simp add: row_hash_def test_siphash)
  qed
  have data:
    "take (8 + 4) ([0xf2, 0x23, 0xc0, 0xcc, 0x65, 0x16, 0x16, 0x20] @ le_bytes 16 (0x0100000a :: ipv6_addr)) =
       [0xf2, 0x23, 0xc0, 0xcc, 0x65, 0x16, 0x16, 0x20, 0xa, 0x0, 0x0, 0x1]"
    "take (8 + 4) ([0xf2, 0x23, 0xc0, 0xcc, 0x65, 0x16, 0x16, 0x20] @ le_bytes 16 (0x0200000a :: ipv6_addr)) =
       [0xf2, 0x23, 0xc0, 0xcc, 0x65, 0x16, 0x16, 0x20, 0xa, 0x0, 0x0, 0x2]"
    "take (8 + 4) ([0xf2, 0x23, 0xc0, 0xcc, 0x65, 0x16, 0x16, 0x20] @ le_bytes 16 (0x0300000a :: ipv6_addr)) =
       [0xf2, 0x23, 0xc0, 0xcc, 0x65, 0x16, 0x16, 0x20, 0xa, 0x0, 0x0, 0x3]"
    by code_simp+
  have swap:
    "bswap_64 (le_word [0x9, 0xd0, 0xc7, 0x8b, 0xbc, 0xe0, 0x17, 0x14]) = 0x9d0c78bbce01714"
    "bswap_64 (le_word [0x45, 0x2e, 0xc4, 0xc, 0x5b, 0x30, 0x56, 0x9a]) = 0x452ec40c5b30569a"
    "bswap_64 (le_word [0x69, 0xfd, 0xee, 0xe0, 0xa6, 0x98, 0xaa, 0x32]) = 0x69fdeee0a698aa32"
    by code_simp+
  show "score test_seed 0xffff ent 0 = 0x9d0c78bbce01714"
    "score test_seed 0xffff ent 1 = 0x452ec40c5b30569a"
    "score test_seed 0xffff ent 2 = 0x69fdeee0a698aa32"
    by (simp_all only: assms score_def backend_hash_def r Let_def backend_entry.simps simp_thms if_True
        data example_siphash swap)
qed

subsection \<open>Properties\<close>

text \<open>
  C3: with two backends to choose from, the row the director reads from a built file names the two
  available backends with the lowest scores, lowest first unless that one is draining or unhealthy
  and the second one is active.
\<close>

theorem rendezvous_rows:
  assumes "build_config_file J inet_pton4 inet_pton6 qsort byteval sortable tables = Inr out" "qsort_law qsort"
    and "length sortable = GLB_FMT_MAX_NUM_BACKENDS" "k < json_array_size J tables" "r < GLB_FMT_TABLE_ENTRIES"
    and "2 \<le> length (participants J inet_pton4 inet_pton6 (json_array_get J tables k))"
  shows "\<exists>seed i0 i1.
    parse_key J ErrSeed ErrSeedLength byteval (json_object_get J (json_array_get J tables k) ''seed'') = Inr seed \<and>
    best_two (score seed r (entry_at J inet_pton4 inet_pton6 (json_object_get J (json_array_get J tables k) ''backends'')))
      (set (participants J inet_pton4 inet_pton6 (json_array_get J tables k))) i0 i1 \<and>
    table_entry_at (content_table out k) r = as_entry (row_entry
      (entry_at J inet_pton4 inet_pton6 (json_object_get J (json_array_get J tables k) ''backends'')) i0 i1)"
  using built_file_rows [OF assms] .

theorem rendezvous_rows_witness:
  "\<exists>out i0 i1. build_config_file json_lib example_pton (\<lambda>_. None) (sort_key sb_hash) 0
      (replicate 256 \<lparr>sb_index = 0, sb_hash = 0, sb_backend = zero_backend_entry\<rparr>)
      (Some (JArr [example_table ''active''])) = Inr out \<and>
    {i0, i1} \<subseteq> {0, 1, 2} \<and> i0 \<noteq> i1 \<and>
    table_entry_at (content_table out 0) 7 = as_entry (row_entry
      (entry_at json_lib example_pton (\<lambda>_. None)
        (json_object_get json_lib (Some (example_table ''active'')) ''backends'')) i0 i1)"
proof -
  obtain out where out: "build_config_file json_lib example_pton (\<lambda>_. None) (sort_key sb_hash) 0
      (replicate 256 \<lparr>sb_index = 0, sb_hash = 0, sb_backend = zero_backend_entry\<rparr>)
      (Some (JArr [example_table ''active''])) = Inr out"
    using example_file [of "''active''"] by auto
  have "json_array_get json_lib (Some (JArr [example_table ''active''])) 0 = Some (example_table ''active'')"
    by (simp add: example_members)
  then show ?thesis
    using rendezvous_rows [OF out qsort_law_sort_key, of 0 7] out example_participants [of "''active''"]
    by (auto simp: example_members best_two_def)
qed





text \<open>
  C14: a JSON document whose tables have all their parts, in a form the parsers accept, and at least
  two backends that are not inactive, is always built: no row of any table fails.
\<close>

theorem build_config_succeeds:
  assumes "qsort_law qsort" "length sortable = GLB_FMT_MAX_NUM_BACKENDS"
    and "\<And>k. k < json_array_size J tables \<Longrightarrow>
           parsable_table J inet_pton4 inet_pton6 byteval (json_array_get J tables k)"
  shows "\<exists>out. build_config_file J inet_pton4 inet_pton6 qsort byteval sortable tables = Inr out"
proof -
  obtain ts where "build_tables J inet_pton4 inet_pton6 qsort byteval (json_tables J tables) sortable = Inr ts"
    using build_tables_total [OF assms(1,2), of "json_tables J tables" J inet_pton4 inet_pton6 byteval] assms(3)
    by (fastforce simp: json_tables_def)
  then show ?thesis by (simp add: build_config_file_def json_tables_def)
qed

theorem build_config_succeeds_witness:
  "\<exists>out. build_config_file json_lib example_pton (\<lambda>_. None) (sort_key sb_hash) 0
      (replicate 256 \<lparr>sb_index = 0, sb_hash = 0, sb_backend = zero_backend_entry\<rparr>)
      (Some (JArr [example_table ''active''])) = Inr out"
  using build_config_succeeds [OF qsort_law_sort_key,
      of "replicate 256 \<lparr>sb_index = 0, sb_hash = 0, sb_backend = zero_backend_entry\<rparr>" json_lib
        "Some (JArr [example_table ''active''])" example_pton "\<lambda>_. None" 0]
    example_parsable [of "''active''"]
  by (auto simp: example_members)


definition example_env :: "json cli_env" where
  "example_env =
     \<lparr>env_root = Some (JObj [(''tables'', JArr [example_table ''active''])]), env_strdup_ok = True,
      env_mkstemp = Some ''/etc/glb/.glb-table-Ab12cd'', env_fdopen_ok = True, env_partial = [],
      env_flushed = [0, 4096], env_rename_ok = True\<rparr>"



end
