(* ===== verification/Redirect.thy ===== *)
theory Redirect
  imports Encap "HOL-Library.Monad_Syntax"
begin

text \<open>
  The netfilter target \<open>GLBREDIRECT\<close> of the proxy hosts
  (\<open>src/glb-redirect/ipt_GLBREDIRECT.c\<close>): it decides for every encapsulated packet whether this host
  takes it or whether it travels to the next hop of its GUE header. The Linux kernel is the record
  \<open>kernel\<close>, an argument of every definition; its documented behaviour is stated as hypotheses where a
  property needs it. Packet buffers are of an abstract type \<open>'s\<close>, sockets of an abstract type \<open>'k\<close>.
  The branches for old kernels (before 5.4) and the \<open>DEBUG\<close> prints are left out. Pointers of the
  helper functions that are never \<open>NULL\<close> are not options; \<open>None\<close> is \<open>NULL\<close> for the others.
\<close>

subsection \<open>The kernel\<close>

text \<open>
  \<open>skb_header_pointer\<close> and \<open>skb_copy_bits\<close> read any part of a packet and fail beyond its end.
  \<open>ip_hdr_read\<close> and \<open>ip_hdr_write\<close> are accesses through a pointer that is computed from \<open>ip_hdr(skb)\<close>;
  they are \<open>None\<close> when they leave the linear part of the buffer. The results of the lookups are
  sockets; \<open>ip_route_me_harder\<close> is true for an error.
\<close>

record ('s, 'k) kernel =
  skb_header_pointer :: "'s \<Rightarrow> nat \<Rightarrow> nat \<Rightarrow> bytes option"
  skb_copy_bits :: "'s \<Rightarrow> nat \<Rightarrow> nat \<Rightarrow> bytes option"
  ip_hdr_read :: "'s \<Rightarrow> nat \<Rightarrow> nat \<Rightarrow> bytes option"
  ip_hdr_write :: "'s \<Rightarrow> nat \<Rightarrow> bytes \<Rightarrow> 's option"
  skb_transport_offset :: "'s \<Rightarrow> nat"
  inet_iif :: "'s \<Rightarrow> int"
  inet_lookup_established :: "u32 \<Rightarrow> u16 \<Rightarrow> u32 \<Rightarrow> u16 \<Rightarrow> int \<Rightarrow> 'k option"
  inet6_lookup_established :: "ipv6_addr \<Rightarrow> u16 \<Rightarrow> ipv6_addr \<Rightarrow> u16 \<Rightarrow> int \<Rightarrow> 'k option"
  inet_lookup_listener :: "'s \<Rightarrow> nat \<Rightarrow> u32 \<Rightarrow> u16 \<Rightarrow> u32 \<Rightarrow> u16 \<Rightarrow> int \<Rightarrow> 'k option"
  inet6_lookup_listener :: "'s \<Rightarrow> nat \<Rightarrow> ipv6_addr \<Rightarrow> u16 \<Rightarrow> ipv6_addr \<Rightarrow> u16 \<Rightarrow> int \<Rightarrow> 'k option"
  sysctl_tcp_syncookies :: "'k \<Rightarrow> int"
  tcp_synq_no_recent_overflow :: "'k \<Rightarrow> bool"
  cookie_v4_check :: "bytes \<Rightarrow> bytes \<Rightarrow> int"
  cookie_v6_check :: "bytes \<Rightarrow> bytes \<Rightarrow> int"
  ip_route_me_harder :: "'s \<Rightarrow> bool"
  csum_replace2 :: "u16 \<Rightarrow> u16 \<Rightarrow> u16 \<Rightarrow> u16"
  csum_replace4 :: "u16 \<Rightarrow> u32 \<Rightarrow> u32 \<Rightarrow> u16"

text \<open>\<open>Undefined\<close> is no verdict: an access outside of the memory the code may touch.\<close>

datatype verdict = NF_DROP | NF_STOLEN | XT_CONTINUE | Undefined

record glbgue_stats =
  total_packets :: u64
  accepted_syn_packets :: u64
  accepted_last_resort_packets :: u64
  accepted_established_packets :: u64
  accepted_syn_cookie_packets :: u64
  forwarded_to_self_packets :: u64
  forwarded_to_alternate_packets :: u64

text \<open>
  What the target changes: the counters of its processor, the reference counts of sockets, the
  packets handed to \<open>ip_local_out\<close> and the packets freed.
\<close>

record ('s, 'k) redirect_state =
  stats :: glbgue_stats
  sk_refcnt :: "'k \<Rightarrow> nat"
  sent :: "'s list"
  freed :: "'s list"

definition bump ::
    "(glbgue_stats \<Rightarrow> glbgue_stats) \<Rightarrow> ('s, 'k) redirect_state \<Rightarrow> ('s, 'k) redirect_state" where
  "bump f st = st\<lparr>stats := f (stats st)\<rparr>"

definition sock_hold :: "'k \<Rightarrow> ('s, 'k) redirect_state \<Rightarrow> ('s, 'k) redirect_state" where
  "sock_hold sk st = st\<lparr>sk_refcnt := (sk_refcnt st)(sk := sk_refcnt st sk + 1)\<rparr>"

definition sock_put :: "'k \<Rightarrow> ('s, 'k) redirect_state \<Rightarrow> ('s, 'k) redirect_state" where
  "sock_put sk st = st\<lparr>sk_refcnt := (sk_refcnt st)(sk := sk_refcnt st sk - 1)\<rparr>"

subsection \<open>Headers\<close>

abbreviation iphdr_saddr :: "bytes \<Rightarrow> u32" where "iphdr_saddr h \<equiv> get_field 12 4 h"
abbreviation iphdr_daddr :: "bytes \<Rightarrow> u32" where "iphdr_daddr h \<equiv> get_field 16 4 h"
abbreviation iphdr_protocol :: "bytes \<Rightarrow> u8" where "iphdr_protocol h \<equiv> get_field 9 1 h"
abbreviation ipv6hdr_nexthdr :: "bytes \<Rightarrow> u8" where "ipv6hdr_nexthdr h \<equiv> get_field 6 1 h"
abbreviation ipv6hdr_saddr :: "bytes \<Rightarrow> ipv6_addr" where "ipv6hdr_saddr h \<equiv> get_field 8 16 h"
abbreviation ipv6hdr_daddr :: "bytes \<Rightarrow> ipv6_addr" where "ipv6hdr_daddr h \<equiv> get_field 24 16 h"
abbreviation th_source :: "bytes \<Rightarrow> u16" where "th_source h \<equiv> get_field 0 2 h"
abbreviation th_dest :: "bytes \<Rightarrow> u16" where "th_dest h \<equiv> get_field 2 2 h"
abbreviation th_flags :: "bytes \<Rightarrow> u8" where "th_flags h \<equiv> get_field 13 1 h"
abbreviation th_fin :: "bytes \<Rightarrow> bool" where "th_fin h \<equiv> bit (th_flags h) 0"
abbreviation th_syn :: "bytes \<Rightarrow> bool" where "th_syn h \<equiv> bit (th_flags h) 1"
abbreviation th_rst :: "bytes \<Rightarrow> bool" where "th_rst h \<equiv> bit (th_flags h) 2"
abbreviation th_ack :: "bytes \<Rightarrow> bool" where "th_ack h \<equiv> bit (th_flags h) 4"

definition iphdr_ihl :: "bytes \<Rightarrow> nat" where
  "iphdr_ihl h = unat (get_field 0 1 h AND (0x0f :: u8))"

definition th_doff :: "bytes \<Rightarrow> nat" where
  "th_doff h = unat (drop_bit 4 (get_field 12 1 h :: u8))"

abbreviation gue_hlen :: "bytes \<Rightarrow> nat" where "gue_hlen h \<equiv> unat (get_field 0 1 h AND (0x1f :: u8))"
abbreviation gue_proto_ctype :: "bytes \<Rightarrow> u8" where "gue_proto_ctype h \<equiv> get_field 1 1 h"

text \<open>The members of \<open>struct glbgue_chained_routing\<close>, of which only \<open>4 * hlen\<close> bytes are filled.\<close>

definition cr_next_hop :: "bytes \<Rightarrow> nat" where
  "cr_next_hop cr = unat (get_field 2 1 cr :: u8)"

definition cr_hop_count :: "bytes \<Rightarrow> nat" where
  "cr_hop_count cr = unat (get_field 3 1 cr :: u8)"

definition cr_hop :: "bytes \<Rightarrow> nat \<Rightarrow> u32 option" where
  "cr_hop cr i = map_option le_word (read_bytes cr (4 + 4 * i) 4)"

abbreviation MAX_HOPS :: nat where "MAX_HOPS \<equiv> 256"
abbreviation sizeof_chained_routing :: nat where "sizeof_chained_routing \<equiv> 4 + 4 * MAX_HOPS"

subsection \<open>Does this host know the flow?\<close>

definition lookup_established ::
    "('s, 'k) kernel \<Rightarrow> 's \<Rightarrow> bytes option \<Rightarrow> bytes option \<Rightarrow> bytes \<Rightarrow> 'k option" where
  "lookup_established K skb iph_v4 iph_v6 th =
     (case iph_v4 of
        Some h \<Rightarrow> inet_lookup_established K (iphdr_saddr h) (th_source th) (iphdr_daddr h) (th_dest th)
                    (inet_iif K skb)
      | None \<Rightarrow>
     (case iph_v6 of
        Some h \<Rightarrow> inet6_lookup_established K (ipv6hdr_saddr h) (th_source th) (ipv6hdr_daddr h)
                    (ntohs (th_dest th)) (inet_iif K skb)
      | None \<Rightarrow> None))"

text \<open>\<open>ip_hdrlen(skb) + __tcp_hdrlen(th)\<close>, with the outer header's length.\<close>

definition listener_doff :: "('s, 'k) kernel \<Rightarrow> 's \<Rightarrow> bytes \<Rightarrow> nat" where
  "listener_doff K skb th =
     (case ip_hdr_read K skb 0 1 of None \<Rightarrow> 0 | Some b \<Rightarrow> iphdr_ihl b * 4) + th_doff th * 4"

definition lookup_listener ::
    "('s, 'k) kernel \<Rightarrow> 's \<Rightarrow> bytes option \<Rightarrow> bytes option \<Rightarrow> bytes \<Rightarrow> 'k option" where
  "lookup_listener K skb iph_v4 iph_v6 th =
     (case iph_v4 of
        Some h \<Rightarrow> inet_lookup_listener K skb (listener_doff K skb th) (iphdr_saddr h) (th_source th)
                    (iphdr_daddr h) (th_dest th) (inet_iif K skb)
      | None \<Rightarrow>
     (case iph_v6 of
        Some h \<Rightarrow> inet6_lookup_listener K skb (listener_doff K skb th) (ipv6hdr_saddr h) (th_source th)
                    (ipv6hdr_daddr h) (th_dest th) (inet_iif K skb)
      | None \<Rightarrow> None))"

definition cookie_check ::
    "('s, 'k) kernel \<Rightarrow> bytes option \<Rightarrow> bytes option \<Rightarrow> bytes \<Rightarrow> int" where
  "cookie_check K iph_v4 iph_v6 th =
     (case iph_v4 of
        Some h \<Rightarrow> cookie_v4_check K h th
      | None \<Rightarrow> (case iph_v6 of Some h \<Rightarrow> cookie_v6_check K h th | None \<Rightarrow> 0))"

text \<open>
  The SYN cookie check: the listener is used only when its reference count can be raised from a
  non-zero value, and released afterwards.
\<close>

definition valid_syncookie ::
    "('s, 'k) kernel \<Rightarrow> 's \<Rightarrow> bytes option \<Rightarrow> bytes option \<Rightarrow> bytes \<Rightarrow> ('s, 'k) redirect_state \<Rightarrow>
     bool \<times> ('s, 'k) redirect_state" where
  "valid_syncookie K skb iph_v4 iph_v6 th st =
     (case lookup_listener K skb iph_v4 iph_v6 th of
        None \<Rightarrow> (False, st)
      | Some listen_sk \<Rightarrow>
          if sk_refcnt st listen_sk = 0 then (False, st)
          else
            let st = sock_hold listen_sk st;
                want_cookie = (sysctl_tcp_syncookies K listen_sk = 2 \<or>
                               \<not> tcp_synq_no_recent_overflow K listen_sk);
                ret = (want_cookie \<and> cookie_check K iph_v4 iph_v6 th > 0)
            in (ret, sock_put listen_sk st))"

definition is_valid_locally ::
    "('s, 'k) kernel \<Rightarrow> 's \<Rightarrow> bytes option \<Rightarrow> bytes option \<Rightarrow> bytes \<Rightarrow> ('s, 'k) redirect_state \<Rightarrow>
     bool \<times> ('s, 'k) redirect_state" where
  "is_valid_locally K skb iph_v4 iph_v6 th st =
     (if iph_v4 = None \<and> iph_v6 = None then (False, st)
      else case lookup_established K skb iph_v4 iph_v6 th of
        Some nsk \<Rightarrow>
          let st = sock_hold nsk st;
              st = bump (\<lambda>s. s\<lparr>accepted_established_packets := accepted_established_packets s + 1\<rparr>) st
          in (True, sock_put nsk st)
      | None \<Rightarrow>
          if th_ack th \<and> \<not> th_fin th \<and> \<not> th_rst th \<and> \<not> th_syn th then
            let (ret, st) = valid_syncookie K skb iph_v4 iph_v6 th st
            in (ret, if ret
                     then bump (\<lambda>s. s\<lparr>accepted_syn_cookie_packets := accepted_syn_cookie_packets s + 1\<rparr>) st
                     else st)
          else (False, st))"

subsection \<open>Forwarding\<close>

definition glbredirect_send_forwarded_skb ::
    "('s, 'k) kernel \<Rightarrow> 's \<Rightarrow> ('s, 'k) redirect_state \<Rightarrow> verdict \<times> ('s, 'k) redirect_state" where
  "glbredirect_send_forwarded_skb K skb st =
     (if ip_route_me_harder K skb then (NF_STOLEN, st\<lparr>freed := freed st @ [skb]\<rparr>)
      else
        (NF_STOLEN,
         bump (\<lambda>s. s\<lparr>forwarded_to_alternate_packets := forwarded_to_alternate_packets s + 1\<rparr>)
           (st\<lparr>sent := sent st @ [skb]\<rparr>)))"

text \<open>
  The writes to a packet that is forwarded: the UDP checksum when there is one, the index of the next
  hop, and the outer addresses.
\<close>

definition rewrite_for_hop :: "('s, 'k) kernel \<Rightarrow> 's \<Rightarrow> nat \<Rightarrow> u32 \<Rightarrow> 's option" where
  "rewrite_for_hop K skb gue_cr_ofs alt =
     do {
       check \<leftarrow> ip_hdr_read K skb (skb_transport_offset K skb + 6) 2;
       next_hop \<leftarrow> ip_hdr_read K skb (gue_cr_ofs + 2) 1;
       saddr \<leftarrow> ip_hdr_read K skb 12 4;
       daddr \<leftarrow> ip_hdr_read K skb 16 4;
       skb \<leftarrow> (if le_word check \<noteq> (0 :: u16)
              then let c = csum_replace2 K (le_word check) (le_word next_hop) (le_word next_hop + 1);
                       c = csum_replace4 K c (le_word saddr) alt
                   in ip_hdr_write K skb (skb_transport_offset K skb + 6) (le_bytes 2 c)
              else Some skb);
       skb \<leftarrow> ip_hdr_write K skb (gue_cr_ofs + 2) (le_bytes 1 (le_word next_hop + (1 :: u8)));
       skb \<leftarrow> ip_hdr_write K skb 12 daddr;
       ip_hdr_write K skb 16 (le_bytes 4 alt)
     }"

definition glbredirect_handle_inner_tcp_generic ::
    "('s, 'k) kernel \<Rightarrow> 's \<Rightarrow> bytes \<Rightarrow> nat \<Rightarrow> bytes option \<Rightarrow> bytes option \<Rightarrow> bytes \<Rightarrow>
     ('s, 'k) redirect_state \<Rightarrow> verdict \<times> ('s, 'k) redirect_state" where
  "glbredirect_handle_inner_tcp_generic K skb glb_routing gue_cr_ofs inner_ip_v4 inner_ip_v6 th st =
     (if inner_ip_v4 = None \<and> inner_ip_v6 = None then (NF_DROP, st)
      else if th_syn th then
        (XT_CONTINUE, bump (\<lambda>s. s\<lparr>accepted_syn_packets := accepted_syn_packets s + 1\<rparr>) st)
      else
        let (valid, st) = is_valid_locally K skb inner_ip_v4 inner_ip_v6 th st in
        if valid then (XT_CONTINUE, st)
        else if cr_next_hop glb_routing \<ge> cr_hop_count glb_routing then
          (XT_CONTINUE,
           bump (\<lambda>s. s\<lparr>accepted_last_resort_packets := accepted_last_resort_packets s + 1\<rparr>) st)
        else
          case (cr_hop glb_routing (cr_next_hop glb_routing), ip_hdr_read K skb 16 4) of
            (Some alt, Some daddr) \<Rightarrow>
              if alt = le_word daddr then
                (XT_CONTINUE, bump (\<lambda>s. s\<lparr>forwarded_to_self_packets := forwarded_to_self_packets s + 1\<rparr>) st)
              else (case rewrite_for_hop K skb gue_cr_ofs alt of
                      None \<Rightarrow> (Undefined, st)
                    | Some skb \<Rightarrow> glbredirect_send_forwarded_skb K skb st)
          | _ \<Rightarrow> (Undefined, st))"

subsection \<open>Inner packets\<close>

text \<open>
  A TCP header with the ports of the packet quoted by an ICMP message, swapped, and zeros; the quoted
  IP headers with their addresses swapped.
\<close>

definition fill_tcp_from_icmp :: "('s, 'k) kernel \<Rightarrow> 's \<Rightarrow> nat \<Rightarrow> bytes option" where
  "fill_tcp_from_icmp K skb icmp_payload_ofs =
     map_option (\<lambda>b. take 2 (drop 2 b) @ take 2 b @ replicate 16 0) (skb_copy_bits K skb icmp_payload_ofs 4)"

definition swap_v6 :: "bytes \<Rightarrow> bytes" where
  "swap_v6 h = take 8 h @ take 16 (drop 24 h) @ take 16 (drop 8 h)"

definition swap_v4 :: "bytes \<Rightarrow> bytes" where
  "swap_v4 h = take 12 h @ take 4 (drop 16 h) @ take 4 (drop 12 h)"

definition glbredirect_handle_inner_ipv6 ::
    "('s, 'k) kernel \<Rightarrow> 's \<Rightarrow> bytes \<Rightarrow> nat \<Rightarrow> nat \<Rightarrow> ('s, 'k) redirect_state \<Rightarrow>
     verdict \<times> ('s, 'k) redirect_state" where
  "glbredirect_handle_inner_ipv6 K skb glb_routing gue_cr_ofs inner_ip_ofs st =
     (case skb_header_pointer K skb inner_ip_ofs 40 of
        None \<Rightarrow> (NF_DROP, st)
      | Some inner_ip_v6 \<Rightarrow>
          let ofs = inner_ip_ofs + 40 in
          if ipv6hdr_nexthdr inner_ip_v6 = 58 then
            case skb_header_pointer K skb ofs 8 of
              None \<Rightarrow> (NF_DROP, st)
            | Some icmp6h \<Rightarrow>
                if get_field 0 1 icmp6h \<noteq> (2 :: u8) then (XT_CONTINUE, st)
                else
                  let inner_ip_ofs = ofs + 8 in
                  (case skb_copy_bits K skb inner_ip_ofs 40 of
                     None \<Rightarrow> (NF_DROP, st)
                   | Some quoted \<Rightarrow>
                       (case fill_tcp_from_icmp K skb (inner_ip_ofs + 40) of
                          None \<Rightarrow> (NF_DROP, st)
                        | Some th \<Rightarrow> glbredirect_handle_inner_tcp_generic K skb glb_routing gue_cr_ofs
                                      None (Some (swap_v6 quoted)) th st))
          else if ipv6hdr_nexthdr inner_ip_v6 = 6 then
            (case skb_header_pointer K skb ofs 20 of
               None \<Rightarrow> (NF_DROP, st)
             | Some th \<Rightarrow> glbredirect_handle_inner_tcp_generic K skb glb_routing gue_cr_ofs
                           None (Some inner_ip_v6) th st)
          else if ipv6hdr_nexthdr inner_ip_v6 = 17 then (XT_CONTINUE, st)
          else (NF_DROP, st))"

definition glbredirect_handle_inner_ipv4 ::
    "('s, 'k) kernel \<Rightarrow> 's \<Rightarrow> bytes \<Rightarrow> nat \<Rightarrow> nat \<Rightarrow> ('s, 'k) redirect_state \<Rightarrow>
     verdict \<times> ('s, 'k) redirect_state" where
  "glbredirect_handle_inner_ipv4 K skb glb_routing gue_cr_ofs inner_ip_ofs st =
     (case skb_header_pointer K skb inner_ip_ofs 20 of
        None \<Rightarrow> (NF_DROP, st)
      | Some inner_ip_v4 \<Rightarrow>
          let ofs = inner_ip_ofs + iphdr_ihl inner_ip_v4 * 4 in
          if iphdr_protocol inner_ip_v4 = 1 then
            case skb_header_pointer K skb ofs 8 of
              None \<Rightarrow> (NF_DROP, st)
            | Some icmph \<Rightarrow>
                if get_field 0 1 icmph \<noteq> (3 :: u8) \<or> get_field 1 1 icmph \<noteq> (4 :: u8) then (XT_CONTINUE, st)
                else
                  let inner_ip_ofs = ofs + 8 in
                  (case skb_copy_bits K skb inner_ip_ofs 20 of
                     None \<Rightarrow> (NF_DROP, st)
                   | Some quoted \<Rightarrow>
                       (case fill_tcp_from_icmp K skb (inner_ip_ofs + iphdr_ihl quoted * 4) of
                          None \<Rightarrow> (NF_DROP, st)
                        | Some th \<Rightarrow> glbredirect_handle_inner_tcp_generic K skb glb_routing gue_cr_ofs
                                      (Some (swap_v4 quoted)) None th st))
          else if iphdr_protocol inner_ip_v4 = 6 then
            (case skb_header_pointer K skb ofs 20 of
               None \<Rightarrow> (NF_DROP, st)
             | Some th \<Rightarrow> glbredirect_handle_inner_tcp_generic K skb glb_routing gue_cr_ofs
                           (Some inner_ip_v4) None th st)
          else if iphdr_protocol inner_ip_v4 = 17 then (XT_CONTINUE, st)
          else (NF_DROP, st))"

subsection \<open>The target\<close>

text \<open>
  The outer headers: the offset of the chained routing data, its bytes, the offset of the inner
  packet and the protocol of the inner packet. \<open>Inl\<close> is the verdict of an early return.
\<close>

definition parse_outer :: "('s, 'k) kernel \<Rightarrow> 's \<Rightarrow> verdict + (nat \<times> bytes \<times> nat \<times> u8)" where
  "parse_outer K skb =
     (case ip_hdr_read K skb 0 20 of
        None \<Rightarrow> Inl Undefined
      | Some outer_ip \<Rightarrow>
          if iphdr_protocol outer_ip \<noteq> 17 then Inl NF_DROP
          else
            let udp_ofs = iphdr_ihl outer_ip * 4;
                gue_ofs = udp_ofs + 8;
                gue_cr_ofs = gue_ofs + 4
            in case skb_header_pointer K skb udp_ofs 8 of
                 None \<Rightarrow> Inl NF_DROP
               | Some uh \<Rightarrow>
              (case skb_header_pointer K skb gue_ofs 4 of
                 None \<Rightarrow> Inl NF_DROP
               | Some gh \<Rightarrow>
                   let cr_len_bytes = gue_hlen gh * 4 in
                   if gue_hlen gh < 1 \<or> cr_len_bytes > sizeof_chained_routing then Inl NF_DROP
                   else (case skb_header_pointer K skb gue_cr_ofs cr_len_bytes of
                           None \<Rightarrow> Inl NF_DROP
                         | Some cr \<Rightarrow>
                             if gue_hlen gh \<noteq> cr_hop_count cr + 1 then Inl NF_DROP
                             else Inr (gue_cr_ofs, cr, gue_cr_ofs + cr_len_bytes, gue_proto_ctype gh))))"

definition glbredirect_tg4 ::
    "('s, 'k) kernel \<Rightarrow> 's \<Rightarrow> ('s, 'k) redirect_state \<Rightarrow> verdict \<times> ('s, 'k) redirect_state" where
  "glbredirect_tg4 K skb st =
     (let st = bump (\<lambda>s. s\<lparr>total_packets := total_packets s + 1\<rparr>) st in
      case parse_outer K skb of
        Inl v \<Rightarrow> (v, st)
      | Inr (gue_cr_ofs, cr, inner_ip_ofs, proto_ctype) \<Rightarrow>
          if proto_ctype = 4 then glbredirect_handle_inner_ipv4 K skb cr gue_cr_ofs inner_ip_ofs st
          else if proto_ctype = 41 then glbredirect_handle_inner_ipv6 K skb cr gue_cr_ofs inner_ip_ofs st
          else (NF_DROP, st))"

text \<open>The check of a rule that uses the target: the error \<open>-EINVAL\<close> or 0.\<close>

definition glbredirect_tg4_check :: "u8 \<Rightarrow> u8 \<Rightarrow> int" where
  "glbredirect_tg4_check proto invflags =
     (if invflags AND 0x40 \<noteq> 0 then - 22 else if proto \<noteq> 17 then - 22 else 0)"

subsection \<open>Statistics and module life cycle\<close>

definition add_stats :: "glbgue_stats \<Rightarrow> glbgue_stats \<Rightarrow> glbgue_stats" where
  "add_stats a b =
     \<lparr>total_packets = total_packets a + total_packets b,
      accepted_syn_packets = accepted_syn_packets a + accepted_syn_packets b,
      accepted_last_resort_packets = accepted_last_resort_packets a + accepted_last_resort_packets b,
      accepted_established_packets = accepted_established_packets a + accepted_established_packets b,
      accepted_syn_cookie_packets = accepted_syn_cookie_packets a + accepted_syn_cookie_packets b,
      forwarded_to_self_packets = forwarded_to_self_packets a + forwarded_to_self_packets b,
      forwarded_to_alternate_packets = forwarded_to_alternate_packets a + forwarded_to_alternate_packets b\<rparr>"

definition zero_stats :: glbgue_stats where
  "zero_stats =
     \<lparr>total_packets = 0, accepted_syn_packets = 0, accepted_last_resort_packets = 0,
      accepted_established_packets = 0, accepted_syn_cookie_packets = 0, forwarded_to_self_packets = 0,
      forwarded_to_alternate_packets = 0\<rparr>"

text \<open>\<open>proc_show\<close>: the lines of the proc file, for the counters of the possible processors.\<close>

definition proc_show :: "glbgue_stats list \<Rightarrow> (string \<times> u64) list" where
  "proc_show percpu_stats =
     (let sum = foldl add_stats zero_stats percpu_stats
      in [(''total_packets'', total_packets sum),
          (''accepted_syn_packets'', accepted_syn_packets sum),
          (''accepted_last_resort_packets'', accepted_last_resort_packets sum),
          (''accepted_established_packets'', accepted_established_packets sum),
          (''accepted_syn_cookie_packets'', accepted_syn_cookie_packets sum),
          (''forwarded_to_self_packets'', forwarded_to_self_packets sum),
          (''forwarded_to_alternate_packets'', forwarded_to_alternate_packets sum)])"

text \<open>
  What the module owns: its counters (\<open>percpu_stats\<close>), the registered target, the proc file. The
  outcome of the allocation and of the registration (0 or a negative error) are inputs.
\<close>

record module_state =
  percpu_stats :: "glbgue_stats list option"
  registered :: bool
  proc_file :: bool

definition glbredirect_tg4_init :: "nat \<Rightarrow> bool \<Rightarrow> int \<Rightarrow> module_state \<Rightarrow> int \<times> module_state" where
  "glbredirect_tg4_init cpus alloc_ok err m =
     (if \<not> alloc_ok then (- 12, m\<lparr>percpu_stats := None\<rparr>)
      else if err < 0 then (err, m\<lparr>percpu_stats := None\<rparr>)
      else (0, m\<lparr>percpu_stats := Some (replicate cpus zero_stats), registered := True, proc_file := True\<rparr>))"

definition glbredirect_tg4_exit :: "module_state \<Rightarrow> module_state" where
  "glbredirect_tg4_exit m = m\<lparr>proc_file := False, registered := False, percpu_stats := None\<rparr>"

subsection \<open>Reference counts\<close>

lemma sk_refcnt_bump [simp]: "sk_refcnt (bump f st) = sk_refcnt st"
  by (simp add: bump_def)

lemma sk_refcnt_hold_put [simp]:
  "sk_refcnt (sock_put sk (sock_hold sk st)) = sk_refcnt st"
  "sk_refcnt (sock_put sk (bump f (sock_hold sk st))) = sk_refcnt st"
  by (auto simp: sock_put_def sock_hold_def bump_def)

lemma sk_refcnt_valid_syncookie:
  "sk_refcnt (snd (valid_syncookie K skb h4 h6 th st)) = sk_refcnt st"
  by (auto simp: valid_syncookie_def Let_def split: option.splits)

lemma sk_refcnt_is_valid_locally:
  "sk_refcnt (snd (is_valid_locally K skb h4 h6 th st)) = sk_refcnt st"
  using sk_refcnt_valid_syncookie [of K skb h4 h6 th st]
  by (auto simp: is_valid_locally_def Let_def split: option.splits prod.splits)

lemma sk_refcnt_send: "sk_refcnt (snd (glbredirect_send_forwarded_skb K skb st)) = sk_refcnt st"
  by (simp add: glbredirect_send_forwarded_skb_def)

lemma sk_refcnt_generic:
  "sk_refcnt (snd (glbredirect_handle_inner_tcp_generic K skb cr ofs h4 h6 th st)) = sk_refcnt st"
  using sk_refcnt_is_valid_locally [of K skb h4 h6 th st]
  by (auto simp: glbredirect_handle_inner_tcp_generic_def Let_def sk_refcnt_send split: option.splits prod.splits)

subsection \<open>The ways a packet takes\<close>

lemma handle_inner_ipv4_rule:
  assumes "P (NF_DROP, st)" "P (XT_CONTINUE, st)"
    and "\<And>h th. P (glbredirect_handle_inner_tcp_generic K skb cr ofs (Some h) None th st)"
  shows "P (glbredirect_handle_inner_ipv4 K skb cr ofs inner st)"
  using assms by (simp add: glbredirect_handle_inner_ipv4_def Let_def split: option.split)

lemma handle_inner_ipv6_rule:
  assumes "P (NF_DROP, st)" "P (XT_CONTINUE, st)"
    and "\<And>h th. P (glbredirect_handle_inner_tcp_generic K skb cr ofs None (Some h) th st)"
  shows "P (glbredirect_handle_inner_ipv6 K skb cr ofs inner st)"
  using assms by (simp add: glbredirect_handle_inner_ipv6_def Let_def split: option.split)

text \<open>A property of every result of the target, from the results of its parts.\<close>

lemma tg4_rule:
  fixes st :: "('s, 'k) redirect_state"
  defines "st1 \<equiv> bump (\<lambda>s. s\<lparr>total_packets := total_packets s + 1\<rparr>) st"
  assumes "\<And>v. parse_outer K skb = Inl v \<Longrightarrow> P (v, st1)" "P (NF_DROP, st1)" "P (XT_CONTINUE, st1)"
    and "\<And>ofs cr n p h4 h6 th. parse_outer K skb = Inr (ofs, cr, n, p) \<Longrightarrow> h4 \<noteq> None \<or> h6 \<noteq> None \<Longrightarrow>
           P (glbredirect_handle_inner_tcp_generic K skb cr ofs h4 h6 th st1)"
  shows "P (glbredirect_tg4 K skb st)"
proof (cases "parse_outer K skb")
  case (Inl v)
  then show ?thesis using assms(2) by (simp add: glbredirect_tg4_def st1_def)
next
  case (Inr r)
  then obtain ofs cr n p where r: "parse_outer K skb = Inr (ofs, cr, n, p)"
    by (cases r) auto
  have "P (glbredirect_handle_inner_ipv4 K skb cr ofs n st1)"
    by (rule handle_inner_ipv4_rule [where P = P, OF assms(3,4)]) (rule assms(5) [OF r], simp)
  moreover have "P (glbredirect_handle_inner_ipv6 K skb cr ofs n st1)"
    by (rule handle_inner_ipv6_rule [where P = P, OF assms(3,4)]) (rule assms(5) [OF r], simp)
  ultimately show ?thesis
    using assms(3) unfolding glbredirect_tg4_def Let_def st1_def [symmetric] r by simp
qed

lemma sk_refcnt_tg4: "sk_refcnt (snd (glbredirect_tg4 K skb st)) = sk_refcnt st"
  by (rule tg4_rule [where P = "\<lambda>r. sk_refcnt (snd r) = sk_refcnt st"]) (simp_all add: sk_refcnt_generic)

subsection \<open>Accounting\<close>

text \<open>What happens to a packet, with its effect on the counters and on the packets sent and freed.\<close>

datatype 's outcome = Passed verdict | TakenSyn | TakenEstablished | TakenCookie | TakenLastResort
  | TakenSelf | Forwarded 's | Unroutable 's

fun outcome_verdict :: "'s outcome \<Rightarrow> verdict" where
  "outcome_verdict (Passed v) = v"
| "outcome_verdict (Forwarded p) = NF_STOLEN"
| "outcome_verdict (Unroutable p) = NF_STOLEN"
| "outcome_verdict _ = XT_CONTINUE"

fun account :: "'s outcome \<Rightarrow> glbgue_stats \<Rightarrow> glbgue_stats" where
  "account (Passed v) s = s"
| "account TakenSyn s = s\<lparr>accepted_syn_packets := accepted_syn_packets s + 1\<rparr>"
| "account TakenEstablished s = s\<lparr>accepted_established_packets := accepted_established_packets s + 1\<rparr>"
| "account TakenCookie s = s\<lparr>accepted_syn_cookie_packets := accepted_syn_cookie_packets s + 1\<rparr>"
| "account TakenLastResort s = s\<lparr>accepted_last_resort_packets := accepted_last_resort_packets s + 1\<rparr>"
| "account TakenSelf s = s\<lparr>forwarded_to_self_packets := forwarded_to_self_packets s + 1\<rparr>"
| "account (Forwarded p) s = s\<lparr>forwarded_to_alternate_packets := forwarded_to_alternate_packets s + 1\<rparr>"
| "account (Unroutable p) s = s"

definition apply_outcome :: "'s outcome \<Rightarrow> ('s, 'k) redirect_state \<Rightarrow> ('s, 'k) redirect_state" where
  "apply_outcome oc st =
     st\<lparr>stats := account oc (stats st),
        sent := sent st @ (case oc of Forwarded p \<Rightarrow> [p] | _ \<Rightarrow> []),
        freed := freed st @ (case oc of Unroutable p \<Rightarrow> [p] | _ \<Rightarrow> [])\<rparr>"

lemma put_hold [simp]: "sock_put sk (bump f (sock_hold sk st)) = bump f st" "sock_put sk (sock_hold sk st) = st"
  by (simp_all add: sock_put_def sock_hold_def bump_def)

text \<open>Whether a host takes a packet because it knows the flow, and as what it is counted.\<close>

definition cookie_ok ::
    "('s, 'k) kernel \<Rightarrow> 's \<Rightarrow> bytes option \<Rightarrow> bytes option \<Rightarrow> bytes \<Rightarrow> ('k \<Rightarrow> nat) \<Rightarrow> bool" where
  "cookie_ok K skb h4 h6 th refcnt \<longleftrightarrow>
     (case lookup_listener K skb h4 h6 th of
        None \<Rightarrow> False
      | Some sk \<Rightarrow> refcnt sk \<noteq> 0 \<and> (sysctl_tcp_syncookies K sk = 2 \<or> \<not> tcp_synq_no_recent_overflow K sk) \<and>
          cookie_check K h4 h6 th > 0)"

definition known_as ::
    "('s, 'k) kernel \<Rightarrow> 's \<Rightarrow> bytes option \<Rightarrow> bytes option \<Rightarrow> bytes \<Rightarrow> ('k \<Rightarrow> nat) \<Rightarrow> 's outcome option" where
  "known_as K skb h4 h6 th refcnt =
     (if lookup_established K skb h4 h6 th \<noteq> None then Some TakenEstablished
      else if th_ack th \<and> \<not> th_fin th \<and> \<not> th_rst th \<and> \<not> th_syn th \<and> cookie_ok K skb h4 h6 th refcnt
      then Some TakenCookie else None)"

lemma account_fun:
  "account TakenSyn = (\<lambda>s. s\<lparr>accepted_syn_packets := accepted_syn_packets s + 1\<rparr>)"
  "account TakenEstablished = (\<lambda>s. s\<lparr>accepted_established_packets := accepted_established_packets s + 1\<rparr>)"
  "account TakenCookie = (\<lambda>s. s\<lparr>accepted_syn_cookie_packets := accepted_syn_cookie_packets s + 1\<rparr>)"
  "account TakenLastResort = (\<lambda>s. s\<lparr>accepted_last_resort_packets := accepted_last_resort_packets s + 1\<rparr>)"
  "account TakenSelf = (\<lambda>s. s\<lparr>forwarded_to_self_packets := forwarded_to_self_packets s + 1\<rparr>)"
  by (rule ext, simp)+

lemma valid_syncookie_eq: "valid_syncookie K skb h4 h6 th st = (cookie_ok K skb h4 h6 th (sk_refcnt st), st)"
  by (simp add: valid_syncookie_def cookie_ok_def Let_def split: option.split)

lemma is_valid_locally_eq:
  assumes "h4 \<noteq> None \<or> h6 \<noteq> None"
  shows "is_valid_locally K skb h4 h6 th st =
    (case known_as K skb h4 h6 th (sk_refcnt st) of
       None \<Rightarrow> (False, st) | Some oc \<Rightarrow> (True, bump (account oc) st))"
proof -
  have na: "(h4 = None \<and> h6 = None) = False" using assms by auto
  show ?thesis
    unfolding is_valid_locally_def known_as_def na if_False valid_syncookie_eq account_fun
    by (cases "lookup_established K skb h4 h6 th"; cases "cookie_ok K skb h4 h6 th (sk_refcnt st)")
       (simp_all add: Let_def account_fun)
qed

definition decide ::
    "('s, 'k) kernel \<Rightarrow> 's \<Rightarrow> bytes \<Rightarrow> nat \<Rightarrow> bytes option \<Rightarrow> bytes option \<Rightarrow> bytes \<Rightarrow> ('k \<Rightarrow> nat) \<Rightarrow> 's outcome" where
  "decide K skb cr ofs h4 h6 th refcnt =
     (if th_syn th then TakenSyn
      else case known_as K skb h4 h6 th refcnt of
        Some oc \<Rightarrow> oc
      | None \<Rightarrow>
          if cr_next_hop cr \<ge> cr_hop_count cr then TakenLastResort
          else case (cr_hop cr (cr_next_hop cr), ip_hdr_read K skb 16 4) of
            (Some alt, Some daddr) \<Rightarrow>
              if alt = le_word daddr then TakenSelf
              else (case rewrite_for_hop K skb ofs alt of
                      None \<Rightarrow> Passed Undefined
                    | Some p \<Rightarrow> if ip_route_me_harder K p then Unroutable p else Forwarded p)
          | _ \<Rightarrow> Passed Undefined)"

lemma apply_outcome_bump:
  "oc \<in> {TakenSyn, TakenEstablished, TakenCookie, TakenLastResort, TakenSelf} \<Longrightarrow>
   apply_outcome oc st = bump (account oc) st"
  "apply_outcome (Passed v) st = st"
  by (auto simp: apply_outcome_def bump_def)

lemma known_as_Some: "known_as K skb h4 h6 th r = Some oc \<Longrightarrow> oc = TakenEstablished \<or> oc = TakenCookie"
  by (auto simp: known_as_def split: if_splits)

lemma handle_generic_eq:
  assumes "h4 \<noteq> None \<or> h6 \<noteq> None"
  shows "glbredirect_handle_inner_tcp_generic K skb cr ofs h4 h6 th st =
    (outcome_verdict (decide K skb cr ofs h4 h6 th (sk_refcnt st)),
     apply_outcome (decide K skb cr ofs h4 h6 th (sk_refcnt st)) st)"
proof (cases "th_syn th \<or> known_as K skb h4 h6 th (sk_refcnt st) \<noteq> None")
  case True
  then show ?thesis
    using assms known_as_Some [of K skb h4 h6 th "sk_refcnt st"]
    by (cases "th_syn th")
       (auto simp: glbredirect_handle_inner_tcp_generic_def decide_def is_valid_locally_eq [OF assms]
         apply_outcome_bump account_fun)
next
  case False
  then have v: "is_valid_locally K skb h4 h6 th st = (False, st)" "\<not> th_syn th"
    "known_as K skb h4 h6 th (sk_refcnt st) = None"
    by (simp_all add: is_valid_locally_eq [OF assms])
  have s: "glbredirect_send_forwarded_skb K p st =
      (outcome_verdict oc, apply_outcome oc st)"
    if "oc = (if ip_route_me_harder K p then Unroutable p else Forwarded p)" for p oc
    using that by (simp add: glbredirect_send_forwarded_skb_def apply_outcome_def bump_def)
  have na: "(h4 = None \<and> h6 = None) = False" using assms by auto
  show ?thesis
    unfolding glbredirect_handle_inner_tcp_generic_def decide_def v na Let_def prod.case if_False option.case
    by (cases "cr_hop cr (cr_next_hop cr)"; cases "ip_hdr_read K skb 16 4")
       (auto simp: v apply_outcome_bump account_fun s split: option.splits)
qed

lemma tg4_accounted:
  fixes st :: "('s, 'k) redirect_state"
  defines "st1 \<equiv> bump (\<lambda>s. s\<lparr>total_packets := total_packets s + 1\<rparr>) st"
  shows "\<exists>oc. glbredirect_tg4 K skb st = (outcome_verdict oc, apply_outcome oc st1)"
proof -
  define P where "P r \<longleftrightarrow> (\<exists>oc. r = (outcome_verdict oc, apply_outcome oc st1))"
    for r :: "verdict \<times> ('s, 'k) redirect_state"
  have "P (v, st1)" for v
    unfolding P_def by (intro exI [of _ "Passed v"]) (simp add: apply_outcome_bump)
  moreover have "P (glbredirect_handle_inner_tcp_generic K skb cr ofs h4 h6 th st1)"
    if "h4 \<noteq> None \<or> h6 \<noteq> None" for cr ofs h4 h6 th
    unfolding P_def by (intro exI) (rule handle_generic_eq [OF that])
  ultimately have "P (glbredirect_tg4 K skb st)"
    unfolding st1_def by (intro tg4_rule [where P = P])
  then show ?thesis unfolding P_def .
qed

subsection \<open>Packet buffers\<close>

text \<open>
  What the module relies on of a packet buffer, for its bytes from the outer IP header on and the
  length of its linear part: reads and writes at offsets.
\<close>

definition skb_laws :: "('s, 'k) kernel \<Rightarrow> ('s \<Rightarrow> bytes) \<Rightarrow> ('s \<Rightarrow> nat) \<Rightarrow> bool" where
  "skb_laws K contents linear \<longleftrightarrow>
     (\<forall>s ofs n. skb_header_pointer K s ofs n = read_bytes (contents s) ofs n) \<and>
     (\<forall>s ofs n. skb_copy_bits K s ofs n = read_bytes (contents s) ofs n) \<and>
     (\<forall>s. linear s \<le> length (contents s)) \<and>
     (\<forall>s ofs n. ofs + n \<le> linear s \<longrightarrow> ip_hdr_read K s ofs n = read_bytes (contents s) ofs n) \<and>
     (\<forall>s ofs xs. ofs + length xs \<le> linear s \<longrightarrow>
        (\<exists>s'. ip_hdr_write K s ofs xs = Some s' \<and> contents s' = write_bytes (contents s) ofs xs \<and>
              linear s' = linear s \<and> skb_transport_offset K s' = skb_transport_offset K s))"

lemma skb_lawsD:
  assumes "skb_laws K contents linear"
  shows "skb_header_pointer K s ofs n = read_bytes (contents s) ofs n"
    "skb_copy_bits K s ofs n = read_bytes (contents s) ofs n"
    "linear s \<le> length (contents s)"
    "ofs + n \<le> linear s \<Longrightarrow> ip_hdr_read K s ofs n = read_bytes (contents s) ofs n"
    "ofs + length xs \<le> linear s \<Longrightarrow>
       \<exists>s'. ip_hdr_write K s ofs xs = Some s' \<and> contents s' = write_bytes (contents s) ofs xs \<and>
         linear s' = linear s \<and> skb_transport_offset K s' = skb_transport_offset K s"
  using assms unfolding skb_laws_def by blast+

text \<open>A GUE packet as a proxy receives it, from its outer IP header on.\<close>

definition gue_packet :: "pdnet_ipv4_hdr \<Rightarrow> pdnet_udp_hdr \<Rightarrow> glb_gue_hdr \<Rightarrow> u32 list \<Rightarrow> bytes \<Rightarrow> bytes" where
  "gue_packet ip udp gue hops inner =
     pdnet_ipv4_hdr_bytes ip @ pdnet_udp_hdr_bytes udp @ glb_gue_hdr_bytes gue @ concat (map (le_bytes 4) hops) @ inner"

definition gue_packet_wf :: "pdnet_ipv4_hdr \<Rightarrow> glb_gue_hdr \<Rightarrow> u32 list \<Rightarrow> bool" where
  "gue_packet_wf ip gue hops \<longleftrightarrow> ip4_ihl ip = 5 \<and> ip4_next_proto ip = 17 \<and> length hops \<le> 30 \<and>
     gue_version_control_hlen gue = of_nat (1 + length hops) \<and> gue_hop_count gue = of_nat (length hops)"

definition routing_bytes :: "glb_gue_hdr \<Rightarrow> u32 list \<Rightarrow> bytes" where
  "routing_bytes gue hops = drop 4 (glb_gue_hdr_bytes gue) @ concat (map (le_bytes 4) hops)"

lemma length_hops [simp]: "length (concat (map (le_bytes 4) hops)) = 4 * length hops"
  by (induction hops) auto

lemma read_bytes_mid:
  "length a = ofs \<Longrightarrow> length b = n \<Longrightarrow> read_bytes (a @ b @ c) ofs n = Some b"
  by (simp add: read_bytes_def)

lemma unat_small_u8: "n < 256 \<Longrightarrow> unat (of_nat n :: u8) = n"
  by (simp add: unsigned_of_nat take_bit_nat_eq_self)

subsection \<open>Parsing a GUE packet\<close>

lemma pack_nibbles_and: "pack_nibbles lo hi AND 0x0f = ucast lo"
proof -
  have "pack_nibbles lo hi AND 0x0f = take_bit 4 (pack_nibbles lo hi)"
    unfolding take_bit_eq_mask by (simp add: mask_eq_exp_minus_1)
  also have "\<dots> = ucast lo"
    by (rule bit_word_eqI) (auto simp: pack_nibbles_def bit_simps dest: bit_imp_le_length)
  finally show ?thesis .
qed

lemma iphdr_ihl_bytes [simp]: "iphdr_ihl (pdnet_ipv4_hdr_bytes ip @ xs) = unat (ip4_ihl ip)"
  by (simp add: iphdr_ihl_def pdnet_ipv4_hdr_bytes_def get_field_def pack_nibbles_and unat_ucast_up)

lemma unat_and_31: "unat (w AND 0x1f :: u8) = unat w mod 32"
proof -
  have "w AND 0x1f = take_bit 5 w"
    unfolding take_bit_eq_mask by (simp add: mask_eq_exp_minus_1)
  then have "unat (w AND 0x1f) = take_bit 5 (unat w)"
    by (simp only: unsigned_take_bit_eq)
  then show ?thesis by (simp add: take_bit_eq_mod)
qed

lemma routing_fields [simp]:
  "cr_next_hop (routing_bytes gue hops) = unat (gue_next_hop gue)"
  "cr_hop_count (routing_bytes gue hops) = unat (gue_hop_count gue)"
  "length (routing_bytes gue hops) = 4 + 4 * length hops"
  by (simp_all add: cr_next_hop_def cr_hop_count_def routing_bytes_def glb_gue_hdr_bytes_def get_field_def)

lemma read_hop: "i < length hops \<Longrightarrow> read_bytes (pre @ concat (map (le_bytes 4) hops) @ post) (length pre + 4 * i) 4 =
    Some (le_bytes 4 (hops ! i))"
proof (induction hops arbitrary: pre i)
  case Nil
  then show ?case by simp
next
  case (Cons h hops)
  show ?case
  proof (cases i)
    case 0
    then show ?thesis by (simp add: read_bytes_def)
  next
    case (Suc j)
    then show ?thesis using Cons.IH [of j "pre @ le_bytes 4 h"] Cons.prems by (simp add: add.assoc)
  qed
qed

lemma cr_hop_routing: "i < length hops \<Longrightarrow> cr_hop (routing_bytes gue hops) i = Some (hops ! i)"
  using read_hop [of i hops "drop 4 (glb_gue_hdr_bytes gue)" "[]"]
  by (simp add: cr_hop_def routing_bytes_def le_word_le_bytes_full)

lemma gue_packet_split:
  "gue_packet ip udp gue hops inner =
     (pdnet_ipv4_hdr_bytes ip @ pdnet_udp_hdr_bytes udp @ take 4 (glb_gue_hdr_bytes gue)) @ routing_bytes gue hops @ inner"
  unfolding gue_packet_def routing_bytes_def append_assoc
  by (metis append_assoc append_take_drop_id)

lemma length_gue_packet: "length (gue_packet ip udp gue hops inner) = 36 + 4 * length hops + length inner"
  by (simp add: gue_packet_def)

lemma parse_outer_gue:
  assumes "skb_laws K contents linear" "contents skb = gue_packet ip udp gue hops inner"
    and "gue_packet_wf ip gue hops" "20 \<le> linear skb"
  shows "parse_outer K skb = Inr (32, routing_bytes gue hops, 36 + 4 * length hops, gue_protocol gue)"
proof -
  note wf = assms(3) [unfolded gue_packet_wf_def]
  note L = skb_lawsD [OF assms(1)]
  have ip: "ip_hdr_read K skb 0 20 = Some (pdnet_ipv4_hdr_bytes ip)"
    using assms(4) by (simp add: L(4) assms(2) gue_packet_def read_bytes_def)
  have ihl: "iphdr_ihl (pdnet_ipv4_hdr_bytes ip) = 5"
    using iphdr_ihl_bytes [of ip "[]"] wf by simp
  have proto: "iphdr_protocol (pdnet_ipv4_hdr_bytes ip) = 17"
    using wf by (simp add: pdnet_ipv4_hdr_bytes_def get_field_def)
  have udp: "skb_header_pointer K skb (5 * 4) 8 = Some (pdnet_udp_hdr_bytes udp)"
    unfolding L(1) assms(2) gue_packet_def by (rule read_bytes_mid) simp_all
  have gue: "skb_header_pointer K skb (5 * 4 + 8) 4 = Some (take 4 (glb_gue_hdr_bytes gue))"
    using read_bytes_mid [of "pdnet_ipv4_hdr_bytes ip @ pdnet_udp_hdr_bytes udp" 28 "take 4 (glb_gue_hdr_bytes gue)" 4
        "routing_bytes gue hops @ inner"]
    by (simp add: L(1) assms(2) gue_packet_split)
  have cr: "skb_header_pointer K skb (5 * 4 + 8 + 4) ((1 + length hops) * 4) = Some (routing_bytes gue hops)"
    unfolding L(1) assms(2) gue_packet_split by (rule read_bytes_mid) simp_all
  have n: "unat (of_nat (length hops) :: u8) = length hops" "unat (of_nat (1 + length hops) :: u8) = 1 + length hops"
    using wf by (intro unat_small_u8; simp)+
  have hlen: "gue_hlen (take 4 (glb_gue_hdr_bytes gue)) = 1 + length hops"
    "gue_proto_ctype (take 4 (glb_gue_hdr_bytes gue)) = gue_protocol gue"
    using wf n(2) by (simp_all add: glb_gue_hdr_bytes_def get_field_def unat_and_31)
  have count: "cr_hop_count (routing_bytes gue hops) = length hops"
    using wf n by simp
  have c: "(1 + length hops < 1 \<or> sizeof_chained_routing < (1 + length hops) * 4) = False"
    using wf by simp
  show ?thesis
    unfolding parse_outer_def ip option.case Let_def ihl proto udp gue hlen cr count c by simp
qed

subsection \<open>Rewriting a GUE packet for its next hop\<close>

definition ip_head :: "pdnet_ipv4_hdr \<Rightarrow> bytes" where
  "ip_head ip = take 12 (pdnet_ipv4_hdr_bytes ip)"

definition udp_head :: "pdnet_udp_hdr \<Rightarrow> bytes" where
  "udp_head udp = take 6 (pdnet_udp_hdr_bytes udp)"

definition gue_head :: "glb_gue_hdr \<Rightarrow> bytes" where
  "gue_head gue = take 6 (glb_gue_hdr_bytes gue)"

lemma heads [simp]:
  "length (ip_head ip) = 12" "length (udp_head udp) = 6" "length (gue_head gue) = 6"
  "ip_head (ip\<lparr>ip4_src_addr := a, ip4_dst_addr := b\<rparr>) = ip_head ip"
  "udp_head (udp\<lparr>udp_checksum := c\<rparr>) = udp_head udp"
  "gue_head (gue\<lparr>gue_next_hop := n\<rparr>) = gue_head gue"
  by (simp_all add: ip_head_def udp_head_def gue_head_def pdnet_ipv4_hdr_bytes_def pdnet_udp_hdr_bytes_def
      glb_gue_hdr_bytes_def)

lemma gue_packet_parts:
  "gue_packet ip udp gue hops inner =
     ip_head ip @ le_bytes 4 (ip4_src_addr ip) @ le_bytes 4 (ip4_dst_addr ip) @
     udp_head udp @ le_bytes 2 (udp_checksum udp) @ gue_head gue @ [gue_next_hop gue] @
     [gue_hop_count gue] @ concat (map (le_bytes 4) hops) @ inner"
  by (simp add: gue_packet_def ip_head_def udp_head_def gue_head_def pdnet_ipv4_hdr_bytes_def
      pdnet_udp_hdr_bytes_def glb_gue_hdr_bytes_def)

definition next_checksum :: "('s, 'k) kernel \<Rightarrow> pdnet_ipv4_hdr \<Rightarrow> pdnet_udp_hdr \<Rightarrow> glb_gue_hdr \<Rightarrow> u32 \<Rightarrow> u16" where
  "next_checksum K ip udp gue alt =
     (if udp_checksum udp = 0 then 0
      else csum_replace4 K (csum_replace2 K (udp_checksum udp) (ucast (gue_next_hop gue)) (ucast (gue_next_hop gue) + 1))
             (ip4_src_addr ip) alt)"

text \<open>The packet as the next hop receives it.\<close>

definition forwarded_packet ::
    "('s, 'k) kernel \<Rightarrow> pdnet_ipv4_hdr \<Rightarrow> pdnet_udp_hdr \<Rightarrow> glb_gue_hdr \<Rightarrow> u32 list \<Rightarrow> bytes \<Rightarrow> u32 \<Rightarrow> bytes" where
  "forwarded_packet K ip udp gue hops inner alt =
     gue_packet (ip\<lparr>ip4_src_addr := ip4_dst_addr ip, ip4_dst_addr := alt\<rparr>)
       (udp\<lparr>udp_checksum := next_checksum K ip udp gue alt\<rparr>)
       (gue\<lparr>gue_next_hop := gue_next_hop gue + 1\<rparr>) hops inner"

lemma gue_packet_reads:
  "read_bytes (gue_packet ip udp gue hops inner) 12 4 = Some (le_bytes 4 (ip4_src_addr ip))"
  "read_bytes (gue_packet ip udp gue hops inner) 16 4 = Some (le_bytes 4 (ip4_dst_addr ip))"
  "read_bytes (gue_packet ip udp gue hops inner) 26 2 = Some (le_bytes 2 (udp_checksum udp))"
  "read_bytes (gue_packet ip udp gue hops inner) 34 1 = Some [gue_next_hop gue]"
  unfolding gue_packet_parts by (simp_all add: read_bytes_def)

lemma gue_packet_writes:
  "write_bytes (gue_packet ip udp gue hops inner) 26 (le_bytes 2 c) = gue_packet ip (udp\<lparr>udp_checksum := c\<rparr>) gue hops inner"
  "write_bytes (gue_packet ip udp gue hops inner) 34 [n] = gue_packet ip udp (gue\<lparr>gue_next_hop := n\<rparr>) hops inner"
  "write_bytes (gue_packet ip udp gue hops inner) 12 (le_bytes 4 a) = gue_packet (ip\<lparr>ip4_src_addr := a\<rparr>) udp gue hops inner"
  "write_bytes (gue_packet ip udp gue hops inner) 16 (le_bytes 4 a) = gue_packet (ip\<lparr>ip4_dst_addr := a\<rparr>) udp gue hops inner"
  unfolding gue_packet_parts
  by (simp_all add: write_bytes_def) (simp_all add: ip_head_def pdnet_ipv4_hdr_bytes_def)

lemma rewrite_gue:
  assumes "skb_laws K contents linear" "contents skb = gue_packet ip udp gue hops inner"
    and "36 \<le> linear skb" "skb_transport_offset K skb = 20"
  obtains skb' where "rewrite_for_hop K skb 32 alt = Some skb'"
    "contents skb' = forwarded_packet K ip udp gue hops inner alt" "linear skb' = linear skb"
proof -
  note L = skb_lawsD [OF assms(1)]
  let ?c = "next_checksum K ip udp gue alt"
  have r: "ip_hdr_read K skb 12 4 = Some (le_bytes 4 (ip4_src_addr ip))"
    "ip_hdr_read K skb 16 4 = Some (le_bytes 4 (ip4_dst_addr ip))"
    "ip_hdr_read K skb 26 2 = Some (le_bytes 2 (udp_checksum udp))"
    "ip_hdr_read K skb 34 1 = Some [gue_next_hop gue]"
    using assms(3) by (simp_all add: L(4) assms(2) gue_packet_reads gue_packet_reads [simplified])
  obtain s1 where s1: "(if udp_checksum udp \<noteq> 0 then ip_hdr_write K skb 26 (le_bytes 2 ?c) else Some skb) = Some s1"
    "contents s1 = gue_packet ip (udp\<lparr>udp_checksum := ?c\<rparr>) gue hops inner" "linear s1 = linear skb"
  proof (cases "udp_checksum udp = 0")
    case True
    then have "?c = udp_checksum udp" by (simp add: next_checksum_def)
    then have "contents skb = gue_packet ip (udp\<lparr>udp_checksum := ?c\<rparr>) gue hops inner"
      unfolding assms(2) by (cases udp) (simp only: pdnet_udp_hdr.update_convs pdnet_udp_hdr.select_convs)
    then show ?thesis using True that [of skb] by simp
  next
    case False
    then show ?thesis
      using that L(5) [of 26 "le_bytes 2 ?c" skb] assms(2,3) by (auto simp: gue_packet_writes)
  qed
  obtain s2 where s2: "ip_hdr_write K s1 34 [gue_next_hop gue + 1] = Some s2"
    "contents s2 = gue_packet ip (udp\<lparr>udp_checksum := ?c\<rparr>) (gue\<lparr>gue_next_hop := gue_next_hop gue + 1\<rparr>) hops inner"
    "linear s2 = linear skb"
    using L(5) [of 34 "[gue_next_hop gue + 1]" s1] s1 assms(3) by (auto simp: gue_packet_writes)
  obtain s3 where s3: "ip_hdr_write K s2 12 (le_bytes 4 (ip4_dst_addr ip)) = Some s3"
    "contents s3 = gue_packet (ip\<lparr>ip4_src_addr := ip4_dst_addr ip\<rparr>) (udp\<lparr>udp_checksum := ?c\<rparr>)
       (gue\<lparr>gue_next_hop := gue_next_hop gue + 1\<rparr>) hops inner"
    "linear s3 = linear skb"
    using L(5) [of 12 "le_bytes 4 (ip4_dst_addr ip)" s2] s2 assms(3) by (auto simp: gue_packet_writes)
  obtain s4 where s4: "ip_hdr_write K s3 16 (le_bytes 4 alt) = Some s4"
    "contents s4 = gue_packet (ip\<lparr>ip4_src_addr := ip4_dst_addr ip, ip4_dst_addr := alt\<rparr>) (udp\<lparr>udp_checksum := ?c\<rparr>)
       (gue\<lparr>gue_next_hop := gue_next_hop gue + 1\<rparr>) hops inner"
    "linear s4 = linear skb"
    using L(5) [of 16 "le_bytes 4 alt" s3] s3 assms(3) by (auto simp: gue_packet_writes)
  have "rewrite_for_hop K skb 32 alt = Some s4"
    using s1(1) unfolding rewrite_for_hop_def assms(4)
    by (simp add: r r [simplified] s2 s3 s4 le_word_le_bytes_full next_checksum_def split: if_splits)
  then show ?thesis using that s4 by (simp add: forwarded_packet_def)
qed

subsection \<open>A TCP packet at a proxy\<close>

text \<open>An inner IPv4 packet that carries TCP: IP header, options, TCP header, payload.\<close>

definition inner_tcp4 :: "bytes \<Rightarrow> bytes \<Rightarrow> bytes \<Rightarrow> bytes \<Rightarrow> bool" where
  "inner_tcp4 inner iph th rest \<longleftrightarrow> (\<exists>options. inner = iph @ options @ th @ rest \<and> length iph = 20 \<and>
     length th = 20 \<and> iphdr_protocol iph = 6 \<and> 20 + length options = 4 * iphdr_ihl iph)"

lemma tg4_gue_tcp4:
  assumes "skb_laws K contents linear" "contents skb = gue_packet ip udp gue hops inner"
    and "gue_packet_wf ip gue hops" "36 \<le> linear skb" "gue_protocol gue = 4" "inner_tcp4 inner iph th rest"
  shows "glbredirect_tg4 K skb st =
    (let oc = decide K skb (routing_bytes gue hops) 32 (Some iph) None th (sk_refcnt st)
     in (outcome_verdict oc, apply_outcome oc (bump (\<lambda>s. s\<lparr>total_packets := total_packets s + 1\<rparr>) st)))"
proof -
  note L = skb_lawsD [OF assms(1)]
  let ?n = "36 + 4 * length hops"
  obtain options where inner: "inner = iph @ options @ th @ rest" "length iph = 20" "length th = 20"
    "iphdr_protocol iph = 6" "20 + length options = 4 * iphdr_ihl iph"
    using assms(6) unfolding inner_tcp4_def by blast
  define pre where "pre = pdnet_ipv4_hdr_bytes ip @ pdnet_udp_hdr_bytes udp @ glb_gue_hdr_bytes gue @ concat (map (le_bytes 4) hops)"
  have pkt: "contents skb = pre @ inner" "length pre = ?n"
    by (simp_all add: assms(2) pre_def gue_packet_def)
  have h: "skb_header_pointer K skb ?n 20 = Some iph"
    unfolding L(1) pkt(1) inner(1) by (rule read_bytes_mid) (simp_all add: pkt(2) inner(2))
  have t: "skb_header_pointer K skb (?n + iphdr_ihl iph * 4) 20 = Some th"
    using read_bytes_mid [of "pre @ iph @ options" "?n + iphdr_ihl iph * 4" th 20 rest] inner(2,3,5)
    by (simp add: L(1) pkt inner(1))
  have "glbredirect_tg4 K skb st =
    glbredirect_handle_inner_tcp_generic K skb (routing_bytes gue hops) 32 (Some iph) None th
      (bump (\<lambda>s. s\<lparr>total_packets := total_packets s + 1\<rparr>) st)"
    using parse_outer_gue [OF assms(1-3)] assms(4,5) inner(4)
    by (simp add: glbredirect_tg4_def glbredirect_handle_inner_ipv4_def Let_def h t inner(4) [simplified])
  then show ?thesis by (simp add: handle_generic_eq Let_def)
qed

lemma decide_gue:
  assumes "skb_laws K contents linear" "contents skb = gue_packet ip udp gue hops inner"
    and "gue_packet_wf ip gue hops" "36 \<le> linear skb" "skb_transport_offset K skb = 20"
    and "\<not> th_syn th" "known_as K skb h4 h6 th refcnt = None"
  shows "unat (gue_next_hop gue) \<ge> length hops \<Longrightarrow>
      decide K skb (routing_bytes gue hops) 32 h4 h6 th refcnt = TakenLastResort"
    and "unat (gue_next_hop gue) < length hops \<Longrightarrow> hops ! unat (gue_next_hop gue) = ip4_dst_addr ip \<Longrightarrow>
      decide K skb (routing_bytes gue hops) 32 h4 h6 th refcnt = TakenSelf"
    and "unat (gue_next_hop gue) < length hops \<Longrightarrow> hops ! unat (gue_next_hop gue) \<noteq> ip4_dst_addr ip \<Longrightarrow>
      \<exists>p. contents p = forwarded_packet K ip udp gue hops inner (hops ! unat (gue_next_hop gue)) \<and>
        decide K skb (routing_bytes gue hops) 32 h4 h6 th refcnt =
          (if ip_route_me_harder K p then Unroutable p else Forwarded p)"
proof -
  have count: "unat (gue_hop_count gue) = length hops"
    using assms(3) by (auto simp: gue_packet_wf_def intro!: unat_small_u8)
  have d: "ip_hdr_read K skb 16 4 = Some (le_bytes 4 (ip4_dst_addr ip))"
    using assms(4) by (simp add: skb_lawsD(4) [OF assms(1)] assms(2) gue_packet_reads)
  show "unat (gue_next_hop gue) \<ge> length hops \<Longrightarrow>
      decide K skb (routing_bytes gue hops) 32 h4 h6 th refcnt = TakenLastResort"
    using assms(6,7) by (simp add: decide_def count)
  show "unat (gue_next_hop gue) < length hops \<Longrightarrow> hops ! unat (gue_next_hop gue) = ip4_dst_addr ip \<Longrightarrow>
      decide K skb (routing_bytes gue hops) 32 h4 h6 th refcnt = TakenSelf"
    using assms(6,7) by (simp add: decide_def count cr_hop_routing d le_word_le_bytes_full)
  assume n: "unat (gue_next_hop gue) < length hops" "hops ! unat (gue_next_hop gue) \<noteq> ip4_dst_addr ip"
  obtain p where "rewrite_for_hop K skb 32 (hops ! unat (gue_next_hop gue)) = Some p"
    "contents p = forwarded_packet K ip udp gue hops inner (hops ! unat (gue_next_hop gue))"
    by (rule rewrite_gue [OF assms(1,2,4,5)])
  then show "\<exists>p. contents p = forwarded_packet K ip udp gue hops inner (hops ! unat (gue_next_hop gue)) \<and>
        decide K skb (routing_bytes gue hops) 32 h4 h6 th refcnt =
          (if ip_route_me_harder K p then Unroutable p else Forwarded p)"
    using assms(6,7) n by (intro exI [of _ p]) (simp add: decide_def count cr_hop_routing d le_word_le_bytes_full)
qed

end
