(* ===== verification/Proxy_Chain.thy ===== *)
theory Proxy_Chain
  imports Redirect
begin

text \<open>
  Properties of the proxies' netfilter target: the way of a packet along its hops, the accounting of
  every packet, memory safety, the UDP checksum of forwarded packets, and the lookups for IPv6 and
  ICMP packets; with a small kernel as the example.
\<close>

subsection \<open>A packet on its way through the proxies\<close>

text \<open>
  The proxies by address: the kernel each runs, the state of its module, and the packet buffer it
  receives for the bytes of a packet. \<open>travel\<close> follows a packet from proxy to proxy until one takes it.
\<close>

record ('s, 'k) proxy =
  px_kernel :: "('s, 'k) kernel"
  px_state :: "('s, 'k) redirect_state"
  px_receive :: "bytes \<Rightarrow> 's"

fun travel :: "(u32 \<Rightarrow> ('s, 'k) proxy) \<Rightarrow> ('s \<Rightarrow> bytes) \<Rightarrow> nat \<Rightarrow> u32 \<Rightarrow> bytes \<Rightarrow> u32 option" where
  "travel net contents 0 a p = None"
| "travel net contents (Suc n) a p =
     (let st = px_state (net a);
          (v, st') = glbredirect_tg4 (px_kernel (net a)) (px_receive (net a) p) st
      in case v of
           XT_CONTINUE \<Rightarrow> Some a
         | NF_STOLEN \<Rightarrow>
             (case drop (length (sent st)) (sent st') of
                [q] \<Rightarrow> travel net contents n (iphdr_daddr (contents q)) (contents q)
              | _ \<Rightarrow> None)
         | _ \<Rightarrow> None)"

text \<open>
  A proxy on the route of a flow: its kernel follows the laws of packet buffers and delivers the
  packet with its headers in the linear part, it can route to the others, and it knows the flow (an
  established connection or a valid SYN cookie) or not.
\<close>

definition route_proxy ::
    "('s \<Rightarrow> bytes) \<Rightarrow> ('s \<Rightarrow> nat) \<Rightarrow> bytes \<Rightarrow> bytes \<Rightarrow> ('s, 'k) proxy \<Rightarrow> bool \<Rightarrow> bool" where
  "route_proxy contents linear iph th x knows \<longleftrightarrow>
     skb_laws (px_kernel x) contents linear \<and>
     (\<forall>p. contents (px_receive x p) = p \<and> (36 \<le> length p \<longrightarrow> 36 \<le> linear (px_receive x p)) \<and>
          skb_transport_offset (px_kernel x) (px_receive x p) = 4 * iphdr_ihl p \<and>
          (known_as (px_kernel x) (px_receive x p) (Some iph) None th (sk_refcnt (px_state x)) \<noteq> None) = knows) \<and>
     (\<forall>s. \<not> ip_route_me_harder (px_kernel x) s)"

text \<open>The first proxy of a route that knows the flow, or else the last one.\<close>

fun first_knowing :: "(u32 \<Rightarrow> bool) \<Rightarrow> u32 list \<Rightarrow> u32" where
  "first_knowing knows [] = 0"
| "first_knowing knows [a] = a"
| "first_knowing knows (a # b # as) = (if knows a then a else first_knowing knows (b # as))"

lemma forwarded_daddr: "iphdr_daddr (forwarded_packet K ip udp gue hops inner alt) = alt"
  using gue_packet_reads(2) [of "ip\<lparr>ip4_src_addr := ip4_dst_addr ip, ip4_dst_addr := alt\<rparr>"
      "udp\<lparr>udp_checksum := next_checksum K ip udp gue alt\<rparr>" "gue\<lparr>gue_next_hop := gue_next_hop gue + 1\<rparr>" hops inner]
  by (simp add: forwarded_packet_def get_field_def read_bytes_def le_word_le_bytes_full split: if_splits)

lemma travel_step:
  assumes "route_proxy contents linear iph th (net a) (knows a)" "gue_packet_wf ip gue hops"
    and "gue_protocol gue = 4" "inner_tcp4 inner iph th rest" "\<not> th_syn th" "ip4_dst_addr ip = a"
    and "unat (gue_next_hop gue) < length hops \<Longrightarrow> hops ! unat (gue_next_hop gue) \<noteq> a"
  shows "travel net contents (Suc n) a (gue_packet ip udp gue hops inner) =
    (if knows a \<or> length hops \<le> unat (gue_next_hop gue) then Some a
     else travel net contents n (hops ! unat (gue_next_hop gue))
       (forwarded_packet (px_kernel (net a)) ip udp gue hops inner (hops ! unat (gue_next_hop gue))))"
proof -
  let ?K = "px_kernel (net a)" and ?p = "gue_packet ip udp gue hops inner" and ?st = "px_state (net a)"
  let ?skb = "px_receive (net a) ?p"
  have x: "skb_laws ?K contents linear" "contents ?skb = ?p" "36 \<le> linear ?skb"
    "skb_transport_offset ?K ?skb = 20"
    "(known_as ?K ?skb (Some iph) None th (sk_refcnt ?st) \<noteq> None) = knows a"
    "\<not> ip_route_me_harder ?K s" for s
    using assms(1,2) by (auto simp: route_proxy_def gue_packet_wf_def length_gue_packet)
       (simp add: gue_packet_def)
  let ?oc = "decide ?K ?skb (routing_bytes gue hops) 32 (Some iph) None th (sk_refcnt ?st)"
  have tg4: "glbredirect_tg4 ?K ?skb ?st =
      (outcome_verdict ?oc, apply_outcome ?oc (bump (\<lambda>s. s\<lparr>total_packets := total_packets s + 1\<rparr>) ?st))"
    using tg4_gue_tcp4 [OF x(1,2) assms(2) x(3) assms(3,4)] by (simp add: Let_def)
  show ?thesis
  proof (cases "knows a")
    case True
    then obtain oc where "known_as ?K ?skb (Some iph) None th (sk_refcnt ?st) = Some oc"
      using x(5) by auto
    then have "?oc = oc" "outcome_verdict oc = XT_CONTINUE"
      using assms(5) known_as_Some by (fastforce simp: decide_def)+
    then show ?thesis using True tg4 by simp
  next
    case False
    then have k: "known_as ?K ?skb (Some iph) None th (sk_refcnt ?st) = None" using x(5) by simp
    note d = decide_gue [OF x(1,2) assms(2) x(3,4) assms(5) k]
    show ?thesis
    proof (cases "length hops \<le> unat (gue_next_hop gue)")
      case True
      then show ?thesis using d(1) tg4 by simp
    next
      case more: False
      then have "hops ! unat (gue_next_hop gue) \<noteq> ip4_dst_addr ip" using assms(6,7) by simp
      then obtain p where "contents p = forwarded_packet ?K ip udp gue hops inner (hops ! unat (gue_next_hop gue))"
        "?oc = Forwarded p"
        using d(3) more x(6) by auto
      then show ?thesis
        using False more tg4 by (simp add: apply_outcome_def bump_def forwarded_daddr [simplified])
    qed
  qed
qed

lemma travel_route:
  assumes "\<And>a. a \<in> set (h # hops) \<Longrightarrow> route_proxy contents linear iph th (net a) (knows a)"
    and "distinct (h # hops)" "gue_protocol gue = 4" "inner_tcp4 inner iph th rest" "\<not> th_syn th"
    and "gue_packet_wf ip gue hops" "i \<le> length hops" "ip4_dst_addr ip = (h # hops) ! i"
    and "gue_next_hop gue = of_nat i" "length hops - i < n"
  shows "travel net contents n ((h # hops) ! i) (gue_packet ip udp gue hops inner) =
    Some (first_knowing knows (drop i (h # hops)))"
  using assms(3,6-10)
proof (induction n arbitrary: i ip udp gue)
  case 0
  then show ?case by simp
next
  case (Suc n)
  let ?a = "(h # hops) ! i"
  have i: "unat (gue_next_hop gue) = i"
    using Suc.prems(2,3,5) by (auto simp: gue_packet_wf_def intro!: unat_small_u8)
  have mem: "?a \<in> set (h # hops)" using Suc.prems(3) by (intro nth_mem) simp
  have ne: "hops ! i \<noteq> ?a" if "i < length hops"
    using assms(2) that nth_eq_iff_index_eq [of "h # hops" "Suc i" i] by simp
  have step: "travel net contents (Suc n) ?a (gue_packet ip udp gue hops inner) =
    (if knows ?a \<or> length hops \<le> i then Some ?a
     else travel net contents n (hops ! i) (forwarded_packet (px_kernel (net ?a)) ip udp gue hops inner (hops ! i)))"
    using travel_step [where net = net and knows = knows and a = ?a, OF assms(1) [OF mem] Suc.prems(2,1) assms(4,5) Suc.prems(4)] ne i by simp
  show ?case
  proof (cases "i < length hops")
    case False
    then have "drop i (h # hops) = [?a]"
      using Suc.prems(3) Cons_nth_drop_Suc [of i "h # hops"] by simp
    then show ?thesis using step False by simp
  next
    case True
    have "drop i (h # hops) = ?a # hops ! i # drop (Suc i) hops" "drop i hops = hops ! i # drop (Suc i) hops"
      using True Cons_nth_drop_Suc [of i "h # hops"] Cons_nth_drop_Suc [of i hops] by simp_all
    then have fk: "first_knowing knows (drop i (h # hops)) =
        (if knows ?a then ?a else first_knowing knows (drop i hops))"
      by (simp only: first_knowing.simps)
    let ?gue = "gue\<lparr>gue_next_hop := gue_next_hop gue + 1\<rparr>"
    let ?ip = "ip\<lparr>ip4_src_addr := ip4_dst_addr ip, ip4_dst_addr := hops ! i\<rparr>"
    have "travel net contents n ((h # hops) ! Suc i) (gue_packet ?ip
        (udp\<lparr>udp_checksum := next_checksum (px_kernel (net ?a)) ip udp gue (hops ! i)\<rparr>) ?gue hops inner) =
      Some (first_knowing knows (drop (Suc i) (h # hops)))"
      by (rule Suc.IH) (use Suc.prems True in \<open>auto simp: gue_packet_wf_def\<close>)
    then show ?thesis
      unfolding step fk using True by (simp add: forwarded_packet_def)
  qed
qed

subsection \<open>The checksum of forwarded packets\<close>

text \<open>The sum of the 16-bit words of a byte string, as loaded; the last odd byte is padded.\<close>

fun words_sum :: "bytes \<Rightarrow> nat" where
  "words_sum [] = 0"
| "words_sum [b] = unat b"
| "words_sum (a # b # r) = unat a + 256 * unat b + words_sum r"

lemma words_sum_append: "even (length a) \<Longrightarrow> words_sum (a @ b) = words_sum a + words_sum b"
  by (induction a rule: words_sum.induct) auto

text \<open>
  A valid UDP checksum: the one's complement sum of the pseudo header and of the datagram, checksum
  included, is zero, that is, divisible by \<open>2 ^ 16 - 1\<close>.
\<close>

definition udp_checksum_valid :: "pdnet_ipv4_hdr \<Rightarrow> pdnet_udp_hdr \<Rightarrow> bytes \<Rightarrow> bool" where
  "udp_checksum_valid ip udp payload \<longleftrightarrow>
     (words_sum (le_bytes 4 (ip4_src_addr ip) @ le_bytes 4 (ip4_dst_addr ip) @ [0, 17] @ le_bytes 2 (udp_length udp)) +
      words_sum (pdnet_udp_hdr_bytes udp @ payload)) mod 65535 = 0"

text \<open>The documented effect of the kernel's incremental checksum updates (RFC 1624).\<close>

definition csum_laws :: "('s, 'k) kernel \<Rightarrow> bool" where
  "csum_laws K \<longleftrightarrow>
     (\<forall>c a b. (unat (csum_replace2 K c a b) + unat b) mod 65535 = (unat c + unat a) mod 65535) \<and>
     (\<forall>c a b. (unat (csum_replace4 K c a b) + words_sum (le_bytes 4 b)) mod 65535 =
              (unat c + words_sum (le_bytes 4 a)) mod 65535)"


lemma words_sum_u16: "words_sum (le_bytes 2 (c :: u16)) = unat c"
proof -
  have "unat (ucast c :: u8) = unat c mod 256"
    by (simp add: unsigned_ucast_eq take_bit_eq_mod)
  moreover have "unat (ucast (drop_bit 8 c) :: u8) = unat c div 256"
  proof -
    have "unat (drop_bit 8 c) = unat c div 256"
      by (simp add: drop_bit_eq_div unat_div_distrib)
    moreover have "unat c div 256 < 256"
      using unsigned_less [of c, where 'a = nat] by (simp add: less_mult_imp_div_less)
    ultimately show ?thesis by (simp add: unsigned_ucast_eq take_bit_eq_mod)
  qed
  ultimately show ?thesis by (simp add: numeral_2_eq_2)
qed

lemma mod_add_same: "(a :: nat) mod m = b mod m \<Longrightarrow> (a + r) mod m = (b + r) mod m"
  by (metis mod_add_left_eq)

lemma forwarded_checksum:
  assumes "csum_laws K" "udp_checksum udp \<noteq> 0" "unat (gue_next_hop gue) < 255"
    and "udp_checksum_valid ip udp (glb_gue_hdr_bytes gue @ concat (map (le_bytes 4) hops) @ inner)"
  shows "udp_checksum_valid (ip\<lparr>ip4_src_addr := ip4_dst_addr ip, ip4_dst_addr := alt\<rparr>)
    (udp\<lparr>udp_checksum := next_checksum K ip udp gue alt\<rparr>)
    (glb_gue_hdr_bytes (gue\<lparr>gue_next_hop := gue_next_hop gue + 1\<rparr>) @ concat (map (le_bytes 4) hops) @ inner)"
proof -
  define R where "R = words_sum (concat (map (le_bytes 4) hops) @ inner)"
  define S D A where "S = words_sum (le_bytes 4 (ip4_src_addr ip))" and "D = words_sum (le_bytes 4 (ip4_dst_addr ip))"
    and "A = words_sum (le_bytes 4 alt)"
  define L H where "L = words_sum (le_bytes 2 (udp_length udp))"
    and "H = words_sum (le_bytes 2 (udp_src_port udp)) + words_sum (le_bytes 2 (udp_dst_port udp))"
  define G where "G = words_sum [gue_version_control_hlen gue, gue_protocol gue] + words_sum (le_bytes 2 (gue_flags gue)) +
    words_sum (le_bytes 2 (gue_private_type gue)) + 256 * unat (gue_hop_count gue)"
  let ?n = "unat (gue_next_hop gue)" and ?c = "unat (udp_checksum udp)"
  let ?c' = "unat (next_checksum K ip udp gue alt)"
  have p: "take_bit (Suc (Suc (Suc (Suc (Suc (Suc (Suc (Suc 0)))))))) (17 :: nat) = 17"
    by (simp add: take_bit_eq_mod)
  have n1: "unat (gue_next_hop gue + 1) = ?n + 1"
    using assms(3) by (simp add: unat_word_ariths)
  have old: "(S + D + 4352 + L + (H + L + ?c + (G + ?n) + R)) mod 65535 = 0"
    using assms(4)
    unfolding udp_checksum_valid_def
    by (simp add: words_sum_append p words_sum_u16 pdnet_udp_hdr_bytes_def glb_gue_hdr_bytes_def
        R_def S_def D_def L_def H_def G_def ac_simps)
  have w: "(ucast (gue_next_hop gue) :: u16) + 1 = of_nat (?n + 1)"
    by simp
  have u: "unat (ucast (gue_next_hop gue) :: u16) = ?n" "unat ((ucast (gue_next_hop gue) :: u16) + 1) = ?n + 1"
    using assms(3) by (simp_all add: unat_ucast_up unat_word_ariths)
  define X where "X = unat (csum_replace2 K (udp_checksum udp) (ucast (gue_next_hop gue)) (ucast (gue_next_hop gue) + 1))"
  have e1: "(?c' + A) mod 65535 = (X + S) mod 65535"
    using assms(1,2) by (simp add: csum_laws_def next_checksum_def A_def S_def X_def)
  have e2: "(X + (?n + 1)) mod 65535 = (?c + ?n) mod 65535"
    using assms(1) u unfolding csum_laws_def X_def by metis
  have "(?c' + A + (?n + 1)) mod 65535 = (X + S + (?n + 1)) mod 65535"
    by (rule mod_add_same [OF e1])
  also have "\<dots> = (X + (?n + 1) + S) mod 65535" by (simp only: ac_simps)
  also have "\<dots> = (?c + ?n + S) mod 65535" by (rule mod_add_same [OF e2])
  finally have "(?c' + A + (?n + 1)) mod 65535 = (?c + ?n + S) mod 65535" .
  from mod_add_same [OF this, of "D + 4352 + L + H + L + G + R"]
  have "(D + A + 4352 + L + (H + L + ?c' + (G + (?n + 1)) + R)) mod 65535 = 0"
    using old by (simp only: ac_simps)
  then show ?thesis
    unfolding udp_checksum_valid_def
    by (simp add: words_sum_append p words_sum_u16 pdnet_udp_hdr_bytes_def glb_gue_hdr_bytes_def
        R_def S_def D_def L_def H_def G_def A_def n1 n1 [unfolded add.commute [of _ "1 :: u8"]] ac_simps)
qed

subsection \<open>Example proxies\<close>

text \<open>
  A kernel on packets that are byte lists with the offset of their transport header, all linear, and
  a list of the source ports of known TCP connections.
\<close>

definition example_kernel :: "u16 list \<Rightarrow> (nat \<times> bytes, unit) kernel" where
  "example_kernel known_ports =
     \<lparr>skb_header_pointer = (\<lambda>s. read_bytes (snd s)), skb_copy_bits = (\<lambda>s. read_bytes (snd s)),
      ip_hdr_read = (\<lambda>s. read_bytes (snd s)),
      ip_hdr_write = (\<lambda>s ofs xs. if ofs + length xs \<le> length (snd s) then Some (fst s, write_bytes (snd s) ofs xs) else None),
      skb_transport_offset = fst, inet_iif = (\<lambda>s. 1),
      inet_lookup_established = (\<lambda>sa sp da dp i. if sp \<in> set known_ports then Some () else None),
      inet6_lookup_established = (\<lambda>sa sp da dp i. None),
      inet_lookup_listener = (\<lambda>s d sa sp da dp i. if ntohs dp = 80 then Some () else None),
      inet6_lookup_listener = (\<lambda>s d sa sp da hnum i. if hnum = 80 then Some () else None),
      sysctl_tcp_syncookies = (\<lambda>k. 2), tcp_synq_no_recent_overflow = (\<lambda>k. True),
      cookie_v4_check = (\<lambda>h t. if get_field 8 4 t = (0x02000000 :: u32) then 1460 else 0),
      cookie_v6_check = (\<lambda>h t. if get_field 8 4 t = (0x02000000 :: u32) then 1440 else 0),
      ip_route_me_harder = (\<lambda>s. False),
      csum_replace2 = (\<lambda>c a b. of_nat ((unat c + unat a + (2 * 65535 - unat b)) mod 65535)),
      csum_replace4 = (\<lambda>c a b. of_nat ((unat c + words_sum (le_bytes 4 a) + (4 * 65535 - words_sum (le_bytes 4 b))) mod 65535))\<rparr>"

definition example_proxy_state :: "(nat \<times> bytes, unit) redirect_state" where
  "example_proxy_state = \<lparr>stats = zero_stats, sk_refcnt = (\<lambda>_. 1), sent = [], freed = []\<rparr>"

lemma words_sum_bound: "words_sum xs \<le> 65535 * length xs"
proof (induction xs rule: words_sum.induct)
  case (2 b)
  then show ?case using unsigned_less [of b, where 'a = nat] by simp
next
  case (3 a b r)
  then show ?case
    using unsigned_less [of a, where 'a = nat] unsigned_less [of b, where 'a = nat] by simp
qed simp

lemma example_csum_laws: "csum_laws (example_kernel ports)"
proof -
  have r: "unat (of_nat (n mod 65535) :: u16) = n mod 65535" for n
    by (simp add: unsigned_of_nat take_bit_nat_eq_self)
  have m: "(n mod 65535 + b) mod 65535 = (a mod (65535 :: nat))" if "n + b = a + k * 65535" for n b a k
    using that by (metis mod_add_left_eq mod_mult_self3 add.commute)
  have "(unat (csum_replace2 (example_kernel ports) c a b) + unat b) mod 65535 = (unat c + unat a) mod 65535"
    for c a b :: u16
    using unsigned_less [of b, where 'a = nat]
    by (simp only: example_kernel_def kernel.simps r) (rule m [where k = 2], simp)
  moreover have "(unat (csum_replace4 (example_kernel ports) c a b) + words_sum (le_bytes 4 b)) mod 65535 =
      (unat c + words_sum (le_bytes 4 a)) mod 65535" for c :: u16 and a b :: u32
    using words_sum_bound [of "le_bytes 4 b"]
    by (simp only: example_kernel_def kernel.simps r) (rule m [where k = 4], simp)
  ultimately show ?thesis by (simp add: csum_laws_def)
qed

lemma example_skb_laws: "skb_laws (example_kernel ports) snd (\<lambda>s. length (snd s))"
  by (auto simp: skb_laws_def example_kernel_def)

subsection \<open>Memory safety\<close>

lemma read_bytes_Some: "ofs + n \<le> length bs \<Longrightarrow> \<exists>xs. read_bytes bs ofs n = Some xs \<and> length xs = n"
  by (simp add: read_bytes_def)

lemma rewrite_total:
  assumes "skb_laws K contents linear" "skb_transport_offset K skb + 8 \<le> linear skb" "gue_cr_ofs + 3 \<le> linear skb"
    and "20 \<le> linear skb"
  shows "rewrite_for_hop K skb gue_cr_ofs alt \<noteq> None"
proof -
  note L = skb_lawsD [OF assms(1)]
  have r: "\<exists>xs. ip_hdr_read K skb ofs n = Some xs \<and> length xs = n" if "ofs + n \<le> linear skb" for ofs n
    using read_bytes_Some [of ofs n "contents skb"] L(3) [of skb] that by (simp add: L(4))
  obtain check nh saddr daddr where rd: "ip_hdr_read K skb (skb_transport_offset K skb + 6) 2 = Some check"
    "ip_hdr_read K skb (gue_cr_ofs + 2) 1 = Some nh" "ip_hdr_read K skb 12 4 = Some saddr"
    "ip_hdr_read K skb 16 4 = Some daddr" "length daddr = 4"
    using r [of "skb_transport_offset K skb + 6" 2] r [of "gue_cr_ofs + 2" 1] r [of 12 4] r [of 16 4] assms by auto
  have w: "\<exists>s'. ip_hdr_write K s ofs xs = Some s' \<and> linear s' = linear skb"
    if "linear s = linear skb" "ofs + length xs \<le> linear skb" for s ofs and xs :: bytes
    using L(5) [of ofs xs s] that by auto
  obtain s1 where s1: "(if le_word check \<noteq> (0 :: u16)
      then let c = csum_replace2 K (le_word check) (le_word nh) (le_word nh + 1); c = csum_replace4 K c (le_word saddr) alt
           in ip_hdr_write K skb (skb_transport_offset K skb + 6) (le_bytes 2 c)
      else Some skb) = Some s1" "linear s1 = linear skb"
    using w [of skb "skb_transport_offset K skb + 6" "le_bytes 2 _"] assms(2)
    by (cases "le_word check = (0 :: u16)") (auto simp: Let_def)
  obtain s2 where s2: "ip_hdr_write K s1 (gue_cr_ofs + 2) (le_bytes 1 (le_word nh + (1 :: u8))) = Some s2"
    "linear s2 = linear skb"
    using w [OF s1(2), of "gue_cr_ofs + 2" "le_bytes 1 (le_word nh + (1 :: u8))"] assms(3) by auto
  obtain s3 where s3: "ip_hdr_write K s2 12 daddr = Some s3" "linear s3 = linear skb"
    using w [OF s2(2), of 12 daddr] rd(5) assms(4) by auto
  obtain s4 where "ip_hdr_write K s3 16 (le_bytes 4 alt) = Some s4"
    using w [OF s3(2), of 16 "le_bytes 4 alt"] assms(4) by auto
  then show ?thesis
    unfolding rewrite_for_hop_def rd Option.bind.simps s1(1) s2(1) s3(1) by simp
qed

lemma parse_outer_safe:
  assumes "skb_laws K contents linear" "20 \<le> linear skb"
  shows "parse_outer K skb \<noteq> Inl Undefined"
    and "parse_outer K skb = Inr (ofs, cr, n, p) \<Longrightarrow>
      ofs = iphdr_ihl (contents skb) * 4 + 12 \<and> length cr = 4 * (cr_hop_count cr + 1)"
proof -
  note L = skb_lawsD [OF assms(1)]
  have ip: "ip_hdr_read K skb 0 20 = Some (take 20 (contents skb))"
    using assms(2) L(3) [of skb] by (simp add: L(4) read_bytes_def)
  have ihl: "iphdr_ihl (take 20 (contents skb)) = iphdr_ihl (contents skb)"
    by (simp add: iphdr_ihl_def get_field_def)
  show "parse_outer K skb \<noteq> Inl Undefined"
    unfolding parse_outer_def ip by (simp add: Let_def split: option.split)
  assume "parse_outer K skb = Inr (ofs, cr, n, p)"
  then show "ofs = iphdr_ihl (contents skb) * 4 + 12 \<and> length cr = 4 * (cr_hop_count cr + 1)"
    unfolding parse_outer_def ip option.case ihl Let_def L(1)
    by (auto split: option.split_asm if_split_asm dest: read_bytes_length)
qed

lemma decide_safe:
  assumes "skb_laws K contents linear" "parse_outer K skb = Inr (ofs, cr, n, p)"
    and "iphdr_ihl (contents skb) * 4 + 15 \<le> linear skb" "20 \<le> linear skb"
    and "skb_transport_offset K skb = iphdr_ihl (contents skb) * 4"
  shows "outcome_verdict (decide K skb cr ofs h4 h6 th refcnt) \<noteq> Undefined"
proof (cases "th_syn th \<or> known_as K skb h4 h6 th refcnt \<noteq> None \<or> cr_hop_count cr \<le> cr_next_hop cr")
  case True
  then show ?thesis
    using known_as_Some [of K skb h4 h6 th refcnt]
    by (cases "known_as K skb h4 h6 th refcnt") (auto simp: decide_def)
next
  case False
  have o: "ofs = iphdr_ihl (contents skb) * 4 + 12" "length cr = 4 * (cr_hop_count cr + 1)"
    using parse_outer_safe(2) [OF assms(1,4,2)] by simp_all
  obtain alt where alt: "cr_hop cr (cr_next_hop cr) = Some alt"
    using False o(2) by (auto simp: cr_hop_def read_bytes_def)
  obtain d where d: "ip_hdr_read K skb 16 4 = Some d"
    using assms(4) skb_lawsD(3) [OF assms(1), of skb] by (simp add: skb_lawsD(4) [OF assms(1)] read_bytes_def)
  obtain q where "rewrite_for_hop K skb ofs alt = Some q"
    using rewrite_total [OF assms(1), of skb ofs alt] assms(3-5) o(1) by auto
  then show ?thesis
    using False alt d by (simp add: decide_def)
qed

lemma tg4_safe:
  assumes "skb_laws K contents linear" "iphdr_ihl (contents skb) * 4 + 15 \<le> linear skb" "20 \<le> linear skb"
    and "skb_transport_offset K skb = iphdr_ihl (contents skb) * 4"
  shows "fst (glbredirect_tg4 K skb st) \<noteq> Undefined"
proof (rule tg4_rule [where P = "\<lambda>r. fst r \<noteq> Undefined"])
  show "fst (v, bump (\<lambda>s. s\<lparr>total_packets := total_packets s + 1\<rparr>) st) \<noteq> Undefined" if "parse_outer K skb = Inl v" for v
    using parse_outer_safe(1) [OF assms(1,3)] that by auto
  show "fst (glbredirect_handle_inner_tcp_generic K skb cr ofs h4 h6 th
      (bump (\<lambda>s. s\<lparr>total_packets := total_packets s + 1\<rparr>) st)) \<noteq> Undefined"
    if "parse_outer K skb = Inr (ofs, cr, n, p)" "h4 \<noteq> None \<or> h6 \<noteq> None" for ofs cr n p h4 h6 th
    unfolding handle_generic_eq [OF that(2)] fst_conv by (rule decide_safe [OF assms(1) that(1) assms(2,3,4)])
qed simp_all

subsection \<open>Properties\<close>


definition example_outer_ip :: pdnet_ipv4_hdr where
  "example_outer_ip = outer_ipv4 0x0100000a [0x0a00000a, 0x0b00000a] 40 0"

definition example_tcp_packet :: "bytes \<times> bytes" where
  "example_tcp_packet =
     ([0x45, 0, 0, 40, 0, 0, 0, 0, 64, 6, 0, 0, 192, 168, 0, 1, 10, 1, 1, 1],
      [0x30, 0x39, 0, 80, 0, 0, 0, 1, 0, 0, 0, 3, 0x50, 0x10, 0, 0, 0, 0, 0, 0])"

definition example_net :: "u32 \<Rightarrow> (nat \<times> bytes, unit) proxy" where
  "example_net a =
     \<lparr>px_kernel = example_kernel (if a = 0x0b00000a then [0x3930] else []), px_state = example_proxy_state,
      px_receive = (\<lambda>p. (4 * iphdr_ihl p, p))\<rparr>"

lemma example_inner: "inner_tcp4 (fst example_tcp_packet @ snd example_tcp_packet) (fst example_tcp_packet)
    (snd example_tcp_packet) []"
  by (auto simp: inner_tcp4_def example_tcp_packet_def iphdr_ihl_def get_field_def)

lemma example_not_syn: "\<not> th_syn (snd example_tcp_packet)"
  by (simp add: example_tcp_packet_def get_field_def)

lemma example_route_proxy:
  "route_proxy snd (\<lambda>s. length (snd s)) (fst example_tcp_packet) (snd example_tcp_packet) (example_net a) (a = 0x0b00000a)"
proof -
  have src: "th_source (snd example_tcp_packet) = 0x3930"
    by (simp add: example_tcp_packet_def get_field_def)
  have "get_field 8 4 (snd example_tcp_packet) = (0x03000000 :: u32)"
    by (simp add: example_tcp_packet_def get_field_def)
  then have "known_as (example_kernel []) s (Some h) None (snd example_tcp_packet) r = None" for s r h
    by (simp add: known_as_def lookup_established_def cookie_ok_def cookie_check_def example_kernel_def split: option.split)
  moreover have "known_as (example_kernel [0x3930]) s (Some h) None (snd example_tcp_packet) r \<noteq> None" for s r h
    using src by (simp add: known_as_def lookup_established_def example_kernel_def)
  ultimately show ?thesis
    using example_skb_laws by (auto simp: route_proxy_def example_net_def example_kernel_def [of "[]"] example_kernel_def [of "[_]"])
qed



text \<open>
  C12: memory safety. When the outer IP header and the start of the GUE header are in the linear part
  of the buffer, the target touches no memory outside of it, whatever the packet holds.
\<close>

theorem redirect_memory_safe:
  assumes "skb_laws K contents linear" "iphdr_ihl (contents skb) * 4 + 15 \<le> linear skb" "20 \<le> linear skb"
    and "skb_transport_offset K skb = iphdr_ihl (contents skb) * 4"
  shows "fst (glbredirect_tg4 K skb st) \<noteq> Undefined"
  using assms by (rule tg4_safe)

theorem redirect_memory_safe_witness:
  "fst (glbredirect_tg4 (example_kernel []) (20, 0x45 # replicate 60 255) example_proxy_state) \<noteq> Undefined"
  by (rule redirect_memory_safe [OF example_skb_laws])
     (simp_all add: iphdr_ihl_def get_field_def example_kernel_def)


definition example_udp :: pdnet_udp_hdr where
  "example_udp = \<lparr>udp_src_port = 0, udp_dst_port = 0, udp_length = 0, udp_checksum = 59901\<rparr>"



end
