(* ===== verification/Xdp_Encap.thy ===== *)
theory Xdp_Encap
  imports Encap
begin

text \<open>
  The XDP director, \<open>src/glb-director-xdp/bpf/glb_encap.c\<close>: the program that the kernel runs on each
  received packet. The BPF maps it reads are a record of partial functions (\<open>bpf_map_lookup_elem\<close> is
  application, \<open>NULL\<close> is \<open>None\<close>); \<open>bpf_xdp_adjust_head\<close> is a parameter. The parser and the flow hash
  are those of \<open>packet_parsing.h\<close> in raw mode with \<open>EBPF_VERIFIER_GUARD\<close>. The theorems relate the
  packets it sends to those of the DPDK director, and its counters to what happened to the packets.
\<close>

unbundle bit_operations_syntax

subsection \<open>Maps and counters\<close>

record glb_bind =
  bind_ipv4 :: u32
  bind_ipv6 :: ipv6_addr
  bind_proto :: u16
  bind_port :: u16

record glb_global_stats =
  Processed :: u64
  UnknownFormat :: u64
  NoMatchingBind :: u64
  Matched :: u64
  Encapsulated :: u64
  EncapsulatedBytes :: u64
  ErrorTable :: u64
  ErrorSecret :: u64
  ErrorHashConfig :: u64
  ErrorMissingRow :: u64
  ErrorCreatingSpace :: u64
  ErrorMissingGatewayMAC :: u64
  ErrorMissingSourceAddress :: u64

type_synonym bpf_table = "u32 \<rightharpoonup> u32 \<times> u32"

record bpf_maps =
  config_bits :: "u32 \<rightharpoonup> bytes"
  glb_binds :: "glb_bind \<rightharpoonup> u32"
  glb_tables :: "u32 \<rightharpoonup> bpf_table"
  glb_table_secrets :: "u32 \<rightharpoonup> bytes"
  glb_global_packet_counters :: "u32 \<rightharpoonup> glb_global_stats"

datatype xdp_action = XDP_DROP | XDP_PASS | XDP_TX

text \<open>A value of \<open>config_bits\<close> read as \<open>glb_director_hash_fields\<close>: four bytes, tested for nonzero.\<close>

definition xdp_hash_fields :: "bytes \<Rightarrow> glb_director_hash_fields" where
  "xdp_hash_fields bs =
     \<lparr>hf_src_addr = (get_field 0 1 bs :: u8) \<noteq> 0, hf_dst_addr = (get_field 1 1 bs :: u8) \<noteq> 0,
      hf_src_port = (get_field 2 1 bs :: u8) \<noteq> 0, hf_dst_port = (get_field 3 1 bs :: u8) \<noteq> 0\<rparr>"

subsection \<open>The outer headers\<close>

definition compute_ipv4_checksum :: "bytes \<Rightarrow> u16" where
  "compute_ipv4_checksum iph =
     (let iph16 = (\<lambda>i. ucast (get_field (2 * i) 2 iph :: u16) :: u64);
          csum = iph16 0 + iph16 1 + iph16 2 + iph16 3 + iph16 4 +
                 iph16 5 + iph16 6 + iph16 7 + iph16 8 + iph16 9;
          csum = (csum AND 0xffff) + drop_bit 16 csum
      in ucast (NOT csum))"

text \<open>
  The four fixed headers, and the three conditional stores of the remaining hops. \<open>data\<close> is the
  memory from \<open>eth_hdr\<close> to \<open>data_end\<close>.
\<close>

definition xdp_store_hops :: "'p glb_route_context \<Rightarrow> nat \<Rightarrow> bytes \<Rightarrow> bytes" where
  "xdp_store_hops rc remaining_hop_count data =
     (let hops = sizeof_eth + sizeof_ipv4 + sizeof_udp + sizeof_gue;
          data = (if remaining_hop_count \<ge> 1 \<and> hops + 4 * 1 \<le> length data
                  then write_bytes data hops (le_bytes 4 (ipv4_hops rc ! 1)) else data);
          data = (if remaining_hop_count \<ge> 2 \<and> hops + 4 * 2 \<le> length data
                  then write_bytes data (hops + 4) (le_bytes 4 (ipv4_hops rc ! 2)) else data)
      in if remaining_hop_count \<ge> 3 \<and> hops + 4 * 3 \<le> length data
         then write_bytes data (hops + 8) (le_bytes 4 (ipv4_hops rc ! 3)) else data)"

definition glb_encapsulate_packet_xdp ::
    "bpf_maps \<Rightarrow> bytes \<Rightarrow> 'p glb_route_context \<Rightarrow> glb_global_stats \<Rightarrow>
     xdp_action \<times> bytes \<times> glb_global_stats" where
  "glb_encapsulate_packet_xdp maps data rc g_stats =
     (let flow_hash = flow_hash_hint rc;
          inner_ip_total_length = unat (ip_total_length rc);
          first_hop_ip = ipv4_hops rc ! 0;
          remaining_hop_count = (ucast (hop_count rc) - 1 :: u32);
          hops_len = 4 * unat remaining_hop_count
      in case config_bits maps 0 of
        None \<Rightarrow> (XDP_DROP, data, g_stats\<lparr>ErrorMissingGatewayMAC := ErrorMissingGatewayMAC g_stats + 1\<rparr>)
      | Some gw_mac \<Rightarrow>
        let eth_hdr = \<lparr>eth_dst_addr = get_field 0 6 gw_mac, eth_src_addr = orig_dst_mac rc,
                       eth_ether_type = htons PDNET_ETHER_TYPE_IPV4\<rparr>;
            data = write_bytes data 0 (pdnet_ethernet_hdr_bytes eth_hdr)
        in if sizeof_eth + sizeof_ipv4 > length data then (XDP_DROP, data, g_stats)
        else case config_bits maps 1 of
          None \<Rightarrow> (XDP_DROP, data,
                    g_stats\<lparr>ErrorMissingSourceAddress := ErrorMissingSourceAddress g_stats + 1\<rparr>)
        | Some src_ip \<Rightarrow>
          let ipv4_hdr = \<lparr>ip4_ihl = PDNET_IPV4_HEADER_LEN, ip4_version = PDNET_IPV4_VERSION,
                ip4_ecn = 0, ip4_dscp = 0,
                ip4_total_length = htons (of_nat (sizeof_ipv4 + sizeof_udp + sizeof_gue +
                                                  hops_len + inner_ip_total_length)),
                ip4_identification = 0,
                ip4_fragment_offset = htons PDNET_IPV4_FLAG_DF,
                ip4_time_to_live = PDNET_IPV4_DEFAULT_TTL,
                ip4_next_proto = PDNET_IP_PROTO_UDP, ip4_checksum = 0,
                ip4_src_addr = get_field 0 4 src_ip, ip4_dst_addr = first_hop_ip\<rparr>;
              data = write_bytes data sizeof_eth (pdnet_ipv4_hdr_bytes ipv4_hdr);
              data = write_bytes data (sizeof_eth + 10)
                       (le_bytes 2 (compute_ipv4_checksum (drop sizeof_eth data)))
          in if sizeof_eth + sizeof_ipv4 + sizeof_udp > length data then (XDP_DROP, data, g_stats)
          else
            let udp_hdr = \<lparr>udp_src_port = htons (0x8000 OR (ucast (pkt_hash rc XOR ucast flow_hash) AND 0x7fff)),
                  udp_dst_port = htons GLB_GUE_PORT,
                  udp_length = htons (of_nat (sizeof_udp + sizeof_gue + hops_len + inner_ip_total_length)),
                  udp_checksum = 0\<rparr>;
                data = write_bytes data (sizeof_eth + sizeof_ipv4) (pdnet_udp_hdr_bytes udp_hdr)
            in if sizeof_eth + sizeof_ipv4 + sizeof_udp + sizeof_gue > length data
               then (XDP_DROP, data, g_stats)
            else
              let gue_hdr = \<lparr>gue_version_control_hlen = 1 + ucast remaining_hop_count,
                    gue_protocol = gue_ipproto rc, gue_flags = 0, gue_private_type = 0,
                    gue_next_hop = 0, gue_hop_count = ucast remaining_hop_count\<rparr>;
                  data = write_bytes data (sizeof_eth + sizeof_ipv4 + sizeof_udp) (glb_gue_hdr_bytes gue_hdr)
              in if sizeof_eth + sizeof_ipv4 + sizeof_udp + sizeof_gue + hops_len > length data
                 then (XDP_DROP, data, g_stats)
              else
                (XDP_TX, xdp_store_hops rc (unat remaining_hop_count) data,
                 g_stats\<lparr>Encapsulated := Encapsulated g_stats + 1,
                         EncapsulatedBytes := EncapsulatedBytes g_stats +
                           ucast (ntohs (ip4_total_length ipv4_hdr)) + of_nat sizeof_eth\<rparr>))"

subsection \<open>The program\<close>

definition xdp_bind_of :: "'p glb_route_context \<Rightarrow> glb_bind" where
  "xdp_bind_of rc =
     \<lparr>bind_ipv4 = (if ether_type rc = PDNET_ETHER_TYPE_IPV4 then get_union_ipv4 (dst_addr rc) else 0),
      bind_ipv6 = (if ether_type rc = PDNET_ETHER_TYPE_IPV4 then 0 else dst_addr rc),
      bind_proto = ucast (original_ipproto rc), bind_port = dst_port rc\<rparr>"

definition xdp_row_index :: "u64 \<Rightarrow> u32" where
  "xdp_row_index hash = ucast (hash AND 0xffff)"

text \<open>
  The routing part of \<open>xdp_glb_director_process\<close>: from the table identifier to the hops. No context
  is the early return of \<open>XDP_PASS\<close>.
\<close>

definition xdp_route ::
    "bpf_maps \<Rightarrow> u32 \<Rightarrow> 'p glb_route_context \<Rightarrow> glb_global_stats \<Rightarrow>
     glb_global_stats \<times> 'p glb_route_context option" where
  "xdp_route maps table_id rc g_stats =
     (case glb_tables maps table_id of
        None \<Rightarrow> (g_stats\<lparr>ErrorTable := ErrorTable g_stats + 1\<rparr>, None)
      | Some table \<Rightarrow>
      case glb_table_secrets maps table_id of
        None \<Rightarrow> (g_stats\<lparr>ErrorSecret := ErrorSecret g_stats + 1\<rparr>, None)
      | Some secret \<Rightarrow>
      case config_bits maps 3 of
        None \<Rightarrow> (g_stats\<lparr>ErrorHashConfig := ErrorHashConfig g_stats + 1\<rparr>, None)
      | Some hf_cfg \<Rightarrow>
      let hash = glb_compute_hash True rc secret (xdp_hash_fields hf_cfg) in
      case table (xdp_row_index hash) of
        None \<Rightarrow> (g_stats\<lparr>ErrorMissingRow := ErrorMissingRow g_stats + 1\<rparr>, None)
      | Some (primary, secondary) \<Rightarrow>
      let rc = rc\<lparr>pkt_hash := hash, ipv4_hops := (ipv4_hops rc)[0 := primary, 1 := secondary],
                 hop_count := 2\<rparr> in
      case config_bits maps 4 of
        None \<Rightarrow> (g_stats\<lparr>ErrorHashConfig := ErrorHashConfig g_stats + 1\<rparr>, None)
      | Some hf_cfg_alt \<Rightarrow>
      let alt = xdp_hash_fields hf_cfg_alt in
      if hf_dst_addr alt \<or> hf_dst_port alt \<or> hf_src_addr alt \<or> hf_src_port alt then
        let hash = glb_compute_hash True rc secret alt in
        case table (xdp_row_index hash) of
          None \<Rightarrow> (g_stats\<lparr>ErrorMissingRow := ErrorMissingRow g_stats + 1\<rparr>, None)
        | Some (primary, secondary) \<Rightarrow>
            (g_stats, Some (rc\<lparr>ipv4_hops := (ipv4_hops rc)[2 := primary, 3 := secondary], hop_count := 4\<rparr>))
      else (g_stats, Some rc))"

text \<open>The context after \<open>memset\<close>, with \<open>packet_start\<close> and \<open>packet_end\<close> set.\<close>

definition xdp_context :: "bytes \<Rightarrow> bytes glb_route_context" where
  "xdp_context data =
     \<lparr>linearisation_space_offset = 0, packet_data = data, ether_type = 0, orig_dst_mac = 0,
      ip_total_length = 0, src_addr = 0, dst_addr = 0, src_port = 0, dst_port = 0,
      flow_hash_hint = 0, gue_ipproto = 0, original_ipproto = 0, hop_count = 0,
      ipv4_hops = replicate GLB_MAX_HOPS 0, pkt_hash = 0\<rparr>"

text \<open>From the parsed packet on; \<open>g_stats\<close> already counts the packet as processed.\<close>

definition xdp_match ::
    "(bytes \<Rightarrow> int \<Rightarrow> bytes option) \<Rightarrow> bpf_maps \<Rightarrow> bytes \<Rightarrow> glb_global_stats \<Rightarrow>
     xdp_action \<times> bytes \<times> glb_global_stats" where
  "xdp_match bpf_xdp_adjust_head maps data g_stats =
     (case glb_extract_packet_fields safely_get_header_raw (xdp_context data) of
        None \<Rightarrow> (XDP_PASS, data, g_stats\<lparr>UnknownFormat := UnknownFormat g_stats + 1\<rparr>)
      | Some rc \<Rightarrow>
      case glb_binds maps (xdp_bind_of rc) of
        None \<Rightarrow> (XDP_PASS, data, g_stats\<lparr>NoMatchingBind := NoMatchingBind g_stats + 1\<rparr>)
      | Some table_id \<Rightarrow>
      let g_stats = g_stats\<lparr>Matched := Matched g_stats + 1\<rparr> in
      case xdp_route maps table_id rc g_stats of
        (g_stats, None) \<Rightarrow> (XDP_PASS, data, g_stats)
      | (g_stats, Some rc) \<Rightarrow>
      case bpf_xdp_adjust_head data (int sizeof_eth - int (ROUTE_CONTEXT_ENCAP_SIZE rc)) of
        None \<Rightarrow> (XDP_DROP, data, g_stats\<lparr>ErrorCreatingSpace := ErrorCreatingSpace g_stats + 1\<rparr>)
      | Some data \<Rightarrow>
      if ROUTE_CONTEXT_ENCAP_SIZE rc > length data then (XDP_DROP, data, g_stats)
      else glb_encapsulate_packet_xdp maps data rc g_stats)"

definition xdp_glb_director_process ::
    "(bytes \<Rightarrow> int \<Rightarrow> bytes option) \<Rightarrow> bpf_maps \<Rightarrow> bytes \<Rightarrow> xdp_action \<times> bytes \<times> bpf_maps" where
  "xdp_glb_director_process bpf_xdp_adjust_head maps data =
     (case glb_global_packet_counters maps 0 of
        None \<Rightarrow> (XDP_PASS, data, maps)
      | Some g_stats \<Rightarrow>
          let (action, data, g_stats) =
                xdp_match bpf_xdp_adjust_head maps data (g_stats\<lparr>Processed := Processed g_stats + 1\<rparr>)
          in (action, data,
              maps\<lparr>glb_global_packet_counters := (glb_global_packet_counters maps)(0 \<mapsto> g_stats)\<rparr>))"

text \<open>
  Tail calls: a program array maps an index to a program, and a successful tail call does not return.
  \<open>xdpcap_exit\<close> exposes the packet to the program installed for the action, if any.
\<close>

type_synonym xdp_program = "bytes \<Rightarrow> bpf_maps \<Rightarrow> xdp_action \<times> bytes \<times> bpf_maps"

definition xdpcap_exit ::
    "(xdp_action \<rightharpoonup> xdp_program) \<Rightarrow> bytes \<Rightarrow> bpf_maps \<Rightarrow> xdp_action \<Rightarrow> xdp_action \<times> bytes \<times> bpf_maps" where
  "xdpcap_exit hook_map ctx maps action =
     (case hook_map action of Some prog \<Rightarrow> prog ctx maps | None \<Rightarrow> (action, ctx, maps))"

definition xdp_glb_director ::
    "(xdp_action \<rightharpoonup> xdp_program) \<Rightarrow> (bytes \<Rightarrow> int \<Rightarrow> bytes option) \<Rightarrow> xdp_program" where
  "xdp_glb_director xdpcap_hook bpf_xdp_adjust_head ctx maps =
     (let (action, ctx, maps) = xdp_glb_director_process bpf_xdp_adjust_head maps ctx
      in xdpcap_exit xdpcap_hook ctx maps action)"

text \<open>The root program of \<open>tailcall.c\<close> runs the first program installed in its array.\<close>

fun xdp_root_loop :: "(nat \<rightharpoonup> xdp_program) \<Rightarrow> nat list \<Rightarrow> xdp_program" where
  "xdp_root_loop root_array [] ctx maps = (XDP_PASS, ctx, maps)"
| "xdp_root_loop root_array (i # is) ctx maps =
     (case root_array i of Some prog \<Rightarrow> prog ctx maps | None \<Rightarrow> xdp_root_loop root_array is ctx maps)"

definition ROOT_ARRAY_SIZE :: nat where
  "ROOT_ARRAY_SIZE = 3"

definition xdp_root :: "(nat \<rightharpoonup> xdp_program) \<Rightarrow> xdp_program" where
  "xdp_root root_array = xdp_root_loop root_array [0..<ROOT_ARRAY_SIZE]"

definition xdp_passer :: xdp_program where
  "xdp_passer ctx maps = (XDP_PASS, ctx, maps)"

subsection \<open>The packet that leaves\<close>

lemma write_bytes_after:
  "off = length xs \<Longrightarrow> write_bytes (xs @ ys) off zs = xs @ zs @ drop (length zs) ys"
  by (simp add: write_bytes_def)

lemma compute_ipv4_checksum_header:
  "compute_ipv4_checksum (pdnet_ipv4_hdr_bytes h @ rest) = compute_ipv4_checksum (pdnet_ipv4_hdr_bytes h)"
  by (simp add: compute_ipv4_checksum_def get_field_append Let_def)

lemma xdp_store_hops_eq:
  assumes "length hdrs = 50" "k \<le> 3" "k < length (ipv4_hops rc)" "4 * k \<le> length rest"
  shows "xdp_store_hops rc k (hdrs @ rest) =
    hdrs @ concat (map (le_bytes 4) (take k (tl (ipv4_hops rc)))) @ drop (4 * k) rest"
proof -
  let ?h = "\<lambda>i. le_bytes 4 (ipv4_hops rc ! i)"
  have w: "write_bytes (hdrs @ rest) 50 (?h 1) = hdrs @ ?h 1 @ drop 4 rest"
    "write_bytes (hdrs @ ?h 1 @ drop 4 rest) 54 (?h 2) = hdrs @ ?h 1 @ ?h 2 @ drop 8 rest"
    "write_bytes (hdrs @ ?h 1 @ ?h 2 @ drop 8 rest) 58 (?h 3) = hdrs @ ?h 1 @ ?h 2 @ ?h 3 @ drop 12 rest"
    using write_bytes_after [of 50 hdrs rest "?h 1"]
      write_bytes_after [of 54 "hdrs @ ?h 1" "drop 4 rest" "?h 2"]
      write_bytes_after [of 58 "hdrs @ ?h 1 @ ?h 2" "drop 8 rest" "?h 3"] assms(1)
    by simp_all
  consider "k = 0" | "k = 1" | "k = 2" | "k = 3"
    using assms(2) by linarith
  then show ?thesis
  proof cases
    case 1 then show ?thesis by (simp add: xdp_store_hops_def)
  next
    case 2
    then obtain a b hs where "ipv4_hops rc = a # b # hs"
      using assms(3) by (cases "ipv4_hops rc"; cases "tl (ipv4_hops rc)") auto
    then show ?thesis using 2 w assms(1,4) by (simp add: xdp_store_hops_def Let_def)
  next
    case 3
    then obtain a b c hs where "ipv4_hops rc = a # b # c # hs"
      using assms(3) by (auto simp: length_Suc_conv Suc_le_length_iff eval_nat_numeral less_eq_Suc_le)
    then show ?thesis using 3 w assms(1,4) by (simp add: xdp_store_hops_def Let_def numeral_2_eq_2)
  next
    case 4
    then obtain a b c d hs where "ipv4_hops rc = a # b # c # d # hs"
      using assms(3) by (auto simp: length_Suc_conv Suc_le_length_iff eval_nat_numeral less_eq_Suc_le)
    then show ?thesis using 4 w assms(1,4)
      by (simp add: xdp_store_hops_def Let_def numeral_2_eq_2 numeral_3_eq_3)
  qed
qed

text \<open>The headers the program leaves in front of the inner packet, for hops \<open>hops\<close>.\<close>

definition xdp_headers :: "mac_addr \<Rightarrow> u32 \<Rightarrow> u32 list \<Rightarrow> 'p glb_route_context \<Rightarrow> bytes" where
  "xdp_headers gw src hops rc =
     pdnet_ethernet_hdr_bytes \<lparr>eth_dst_addr = gw, eth_src_addr = orig_dst_mac rc,
       eth_ether_type = htons PDNET_ETHER_TYPE_IPV4\<rparr> @
     pdnet_ipv4_hdr_bytes (outer_ipv4 src hops (ip_total_length rc)
       (compute_ipv4_checksum (pdnet_ipv4_hdr_bytes (outer_ipv4 src hops (ip_total_length rc) 0)))) @
     pdnet_udp_hdr_bytes (outer_udp hops (pkt_hash rc) (flow_hash_hint rc) (ip_total_length rc) 0) @
     glb_gue_hdr_bytes (outer_gue hops (gue_ipproto rc)) @
     concat (map (le_bytes 4) (tl hops))"

lemma glb_encapsulate_packet_xdp_TX:
  assumes hops: "hops = take (unat (hop_count rc)) (ipv4_hops rc)"
    and n: "1 \<le> unat (hop_count rc)" "unat (hop_count rc) \<le> length (ipv4_hops rc)"
      "length (ipv4_hops rc) \<le> GLB_MAX_HOPS"
    and cfg: "config_bits maps 0 = Some gw" "config_bits maps 1 = Some src"
    and room: "ROUTE_CONTEXT_ENCAP_SIZE rc \<le> length data"
  shows "glb_encapsulate_packet_xdp maps data rc st =
    (XDP_TX, xdp_headers (get_field 0 6 gw) (get_field 0 4 src) hops rc @
             drop (ROUTE_CONTEXT_ENCAP_SIZE rc) data,
     st\<lparr>Encapsulated := Encapsulated st + 1,
        EncapsulatedBytes := EncapsulatedBytes st +
          ucast (of_nat (32 + 4 * length hops + unat (ip_total_length rc)) :: u16) + 14\<rparr>)"
proof -
  obtain k where k: "unat (hop_count rc) = Suc k" using n(1) by (cases "unat (hop_count rc)") auto
  obtain h hs where hs: "ipv4_hops rc = h # hs" using n(2) k by (cases "ipv4_hops rc") auto
  have kl: "k \<le> length hs" "k \<le> 3" using n(2,3) k hs by (simp_all add: GLB_MAX_HOPS_def)
  have u: "unat (ucast (hop_count rc) - 1 :: u32) = k"
    using unat_hop_count_minus_1 [of "hop_count rc"] k by simp
  then have u8: "ucast (ucast (hop_count rc) - 1 :: u32) = (of_nat k :: u8)"
    by (metis of_nat_unat)
  have hops': "hops = h # take k hs" using hops k hs by simp
  have sz: "ROUTE_CONTEXT_ENCAP_SIZE rc = 50 + 4 * k"
    using k by (simp add: ROUTE_CONTEXT_ENCAP_SIZE_def)
  let ?e = "pdnet_ethernet_hdr_bytes \<lparr>eth_dst_addr = get_field 0 6 gw, eth_src_addr = orig_dst_mac rc,
       eth_ether_type = htons PDNET_ETHER_TYPE_IPV4\<rparr>"
  let ?i = "outer_ipv4 (get_field 0 4 src) hops (ip_total_length rc)"
  let ?u = "pdnet_udp_hdr_bytes (outer_udp hops (pkt_hash rc) (flow_hash_hint rc) (ip_total_length rc) 0)"
  let ?g = "glb_gue_hdr_bytes (outer_gue hops (gue_ipproto rc))"
  let ?ck = "compute_ipv4_checksum (pdnet_ipv4_hdr_bytes (?i 0))"
  have ip: "\<lparr>ip4_ihl = PDNET_IPV4_HEADER_LEN, ip4_version = PDNET_IPV4_VERSION,
      ip4_ecn = 0, ip4_dscp = 0,
      ip4_total_length = htons (of_nat (sizeof_ipv4 + sizeof_udp + sizeof_gue + 4 * k +
        unat (ip_total_length rc))),
      ip4_identification = 0, ip4_fragment_offset = htons PDNET_IPV4_FLAG_DF,
      ip4_time_to_live = PDNET_IPV4_DEFAULT_TTL, ip4_next_proto = PDNET_IP_PROTO_UDP,
      ip4_checksum = 0, ip4_src_addr = get_field 0 4 src, ip4_dst_addr = h\<rparr> = ?i 0"
    using kl by (simp add: outer_ipv4_def hops' min_absorb2 algebra_simps)
  have udp: "pdnet_udp_hdr_bytes
      \<lparr>udp_src_port = htons (0x8000 OR (ucast (pkt_hash rc XOR ucast (flow_hash_hint rc)) AND 0x7fff)),
       udp_dst_port = htons GLB_GUE_PORT,
       udp_length = htons (of_nat (sizeof_udp + sizeof_gue + 4 * k + unat (ip_total_length rc))),
       udp_checksum = 0\<rparr> = ?u"
    using kl by (simp add: outer_udp_def hops' min_absorb2 algebra_simps)
  have gue: "glb_gue_hdr_bytes \<lparr>gue_version_control_hlen = 1 + of_nat k, gue_protocol = gue_ipproto rc,
       gue_flags = 0, gue_private_type = 0, gue_next_hop = 0, gue_hop_count = of_nat k\<rparr> = ?g"
    using kl by (simp add: outer_gue_def hops' min_absorb2)
  have w: "write_bytes data 0 ?e = ?e @ drop 14 data"
    "write_bytes (?e @ drop 14 data) 14 (pdnet_ipv4_hdr_bytes (?i 0)) =
       ?e @ pdnet_ipv4_hdr_bytes (?i 0) @ drop 34 data"
    "write_bytes (?e @ pdnet_ipv4_hdr_bytes (?i 0) @ drop 34 data) (14 + 10) (le_bytes 2 ?ck) =
       ?e @ pdnet_ipv4_hdr_bytes (?i ?ck) @ drop 34 data"
    "write_bytes (?e @ pdnet_ipv4_hdr_bytes (?i ?ck) @ drop 34 data) (14 + 20) ?u =
       ?e @ pdnet_ipv4_hdr_bytes (?i ?ck) @ ?u @ drop 42 data"
    "write_bytes (?e @ pdnet_ipv4_hdr_bytes (?i ?ck) @ ?u @ drop 42 data) (14 + 20 + 8) ?g =
       ?e @ pdnet_ipv4_hdr_bytes (?i ?ck) @ ?u @ ?g @ drop 50 data"
    using write_bytes_after [of 0 "[]" data ?e] write_bytes_after [of 14 ?e "drop 14 data"]
      store_ip_cksum [of _ "?i 0" "drop 34 data" ?ck]
      write_bytes_after [of 34 "?e @ pdnet_ipv4_hdr_bytes (?i ?ck)" "drop 34 data" ?u]
      write_bytes_after [of 42 "?e @ pdnet_ipv4_hdr_bytes (?i ?ck) @ ?u" "drop 42 data" ?g]
    by simp_all
  have st: "xdp_store_hops rc k (?e @ pdnet_ipv4_hdr_bytes (?i ?ck) @ ?u @ ?g @ drop 50 data) =
      (?e @ pdnet_ipv4_hdr_bytes (?i ?ck) @ ?u @ ?g) @ concat (map (le_bytes 4) (tl hops)) @
      drop (50 + 4 * k) data"
    using xdp_store_hops_eq [of "?e @ pdnet_ipv4_hdr_bytes (?i ?ck) @ ?u @ ?g" k rc "drop 50 data"] kl
      room sz hs hops' by (simp add: add.commute)
  have ck: "compute_ipv4_checksum (drop 14 (?e @ pdnet_ipv4_hdr_bytes (?i 0) @ drop 34 data)) = ?ck"
    by (simp add: compute_ipv4_checksum_header)
  have nt: "ntohs (ip4_total_length (?i 0)) = of_nat (32 + 4 * length hops + unat (ip_total_length rc))"
    by (simp add: outer_ipv4_def)
  have len: "length ?e = 14" by simp
  show ?thesis
    unfolding glb_encapsulate_packet_xdp_def Let_def u u8 hs nth_Cons_0 cfg option.case ip udp gue w ck st
      xdp_headers_def sz nt
    using room sz by simp
qed

subsection \<open>Maps that hold a configuration\<close>

definition hash_fields_any :: "glb_director_hash_fields \<Rightarrow> bool" where
  "hash_fields_any hf \<longleftrightarrow> hf_dst_addr hf \<or> hf_dst_port hf \<or> hf_src_addr hf \<or> hf_src_port hf"

definition config_loaded :: "glb_director_config \<Rightarrow> bpf_maps \<Rightarrow> bool" where
  "config_loaded cfg maps \<longleftrightarrow>
     map_option (get_field 0 6) (config_bits maps 0) = Some (gateway_ether_addr cfg) \<and>
     map_option (get_field 0 4) (config_bits maps 1) = Some (local_ip_addr cfg) \<and>
     map_option xdp_hash_fields (config_bits maps 3) = Some (hash_fields cfg) \<and>
     map_option xdp_hash_fields (config_bits maps 4) =
       Some (if use_alt_hash_fields cfg then alt_hash_fields cfg else zero_hash_fields)"

definition table_loaded :: "bytes \<Rightarrow> nat \<Rightarrow> bpf_maps \<Rightarrow> bool" where
  "table_loaded raw i maps \<longleftrightarrow>
     (\<exists>rows. glb_tables maps (of_nat i) = Some rows \<and>
        (\<forall>r < GLB_FMT_TABLE_ENTRIES. rows (of_nat r) =
           Some (row_hops (content_table raw i) r ! 0, row_hops (content_table raw i) r ! 1))) \<and>
     glb_table_secrets maps (of_nat i) = Some (table_secure_key (content_table raw i))"

text \<open>
  The hash configurations on which both directors agree: the eBPF build rejects an empty selection of
  fields, and takes an all-false alternative selection for none.
\<close>

definition hash_config_ok :: "glb_director_config \<Rightarrow> bool" where
  "hash_config_ok cfg \<longleftrightarrow> hash_fields_any (hash_fields cfg) \<and>
     (use_alt_hash_fields cfg \<longrightarrow> hash_fields_any (alt_hash_fields cfg))"

lemma hash_fields_any_nonempty: "hash_fields_any hf \<longleftrightarrow> hash_fields_nonempty hf"
  by (auto simp: hash_fields_any_def hash_fields_nonempty_def)

lemma xdp_row_index_row_of:
  assumes "is_ip_ether_type (ether_type rc)" "hash_fields_any hf"
  shows "xdp_row_index (glb_compute_hash True rc (table_secure_key table) hf) = of_nat (row_of table hf rc)"
proof -
  have "glb_compute_hash True rc (table_secure_key table) hf =
      le_word (siphash (hash_input hf rc) (table_secure_key table))"
    using assms by (intro glb_compute_hash_siphash) (simp_all add: hash_fields_any_nonempty)
  then show ?thesis
    by (simp add: xdp_row_index_def row_of_def)
qed

lemma xdp_route_eq:
  assumes ip: "is_ip_ether_type (ether_type rc)" and h: "length (ipv4_hops rc) = GLB_MAX_HOPS"
    and cfg: "config_loaded cfg maps" "hash_config_ok cfg" and t: "table_loaded raw i maps"
  defines "table \<equiv> content_table raw i"
  shows "xdp_route maps (of_nat i) rc st =
    (st, Some (rc\<lparr>pkt_hash := le_word (siphash (hash_input (hash_fields cfg) rc) (table_secure_key table)),
             ipv4_hops := packet_hops cfg table rc @ drop (length (packet_hops cfg table rc)) (ipv4_hops rc),
             hop_count := of_nat (length (packet_hops cfg table rc))\<rparr>))"
proof -
  obtain a b c d where hs: "ipv4_hops rc = [a, b, c, d]"
    using h by (auto simp: GLB_MAX_HOPS_def eval_nat_numeral length_Suc_conv)
  obtain hf alt where b: "config_bits maps 3 = Some hf" "xdp_hash_fields hf = hash_fields cfg"
    "config_bits maps 4 = Some alt"
    "xdp_hash_fields alt = (if use_alt_hash_fields cfg then alt_hash_fields cfg else zero_hash_fields)"
    using cfg(1) by (auto simp: config_loaded_def)
  obtain rows where r: "glb_tables maps (of_nat i) = Some rows"
    "glb_table_secrets maps (of_nat i) = Some (table_secure_key table)"
    "\<And>r. r < GLB_FMT_TABLE_ENTRIES \<Longrightarrow> rows (of_nat r) = Some (row_hops table r ! 0, row_hops table r ! 1)"
    using t unfolding table_loaded_def table_def by blast
  have row: "rows (xdp_row_index (glb_compute_hash True rc' (table_secure_key table) hf')) =
      Some (row_hops table (row_of table hf' rc') ! 0, row_hops table (row_of table hf' rc') ! 1)"
    if "hash_fields_any hf'" "is_ip_ether_type (ether_type rc')" for hf' and rc' :: "'a glb_route_context"
    using that r(3) [OF row_of_less] by (simp add: xdp_row_index_row_of)
  have ha: "hash_fields_any (hash_fields cfg)" and
    "use_alt_hash_fields cfg \<Longrightarrow> hash_fields_any (alt_hash_fields cfg)"
    using cfg(2) by (simp_all add: hash_config_ok_def)
  then have alt: "hash_fields_any (xdp_hash_fields alt) \<longleftrightarrow> use_alt_hash_fields cfg"
    "use_alt_hash_fields cfg \<Longrightarrow> xdp_hash_fields alt = alt_hash_fields cfg"
    using b(4) by (auto simp: hash_fields_any_def zero_hash_fields_def)
  have hash: "glb_compute_hash True rc (table_secure_key table) (hash_fields cfg) =
      le_word (siphash (hash_input (hash_fields cfg) rc) (table_secure_key table))"
    using ip ha by (intro glb_compute_hash_siphash) (simp_all add: hash_fields_any_nonempty)
  let ?hops = "row_hops table (row_of table (hash_fields cfg) rc)"
  let ?rc = "rc\<lparr>pkt_hash := le_word (siphash (hash_input (hash_fields cfg) rc) (table_secure_key table)),
       ipv4_hops := [?hops ! 0, ?hops ! 1, c, d], hop_count := 2\<rparr>"
  have unf: "xdp_route maps (of_nat i) rc st =
      (if use_alt_hash_fields cfg then
         case rows (xdp_row_index (glb_compute_hash True ?rc (table_secure_key table) (xdp_hash_fields alt))) of
           None \<Rightarrow> (st\<lparr>ErrorMissingRow := ErrorMissingRow st + 1\<rparr>, None)
         | Some (p, s) \<Rightarrow> (st, Some (?rc\<lparr>ipv4_hops := [?hops ! 0, ?hops ! 1, p, s], hop_count := 4\<rparr>))
       else (st, Some ?rc))"
    unfolding xdp_route_def Let_def b(1,3) r(1,2) option.case hash_fields_any_def [symmetric] alt(1)
      b(2) row [OF ha ip, unfolded hash] prod.case hs hash
    by (simp add: numeral_2_eq_2 numeral_3_eq_3 cong: option.case_cong prod.case_cong if_cong)
  show ?thesis
  proof (cases "use_alt_hash_fields cfg")
    case True
    then have "rows (xdp_row_index (glb_compute_hash True ?rc (table_secure_key table) (xdp_hash_fields alt))) =
        Some (row_hops table (row_of table (alt_hash_fields cfg) rc) ! 0,
              row_hops table (row_of table (alt_hash_fields cfg) rc) ! 1)"
      using row [of "xdp_hash_fields alt" ?rc] alt ip by simp
    then show ?thesis
      unfolding unf using True by (simp add: hs packet_hops_def row_hops_def Let_def)
  next
    case False
    then show ?thesis unfolding unf by (simp add: hs packet_hops_def row_hops_def Let_def)
  qed
qed

subsection \<open>Parsing does not depend on the memory of the context\<close>

lemma raw_get_frame:
  "safely_get_header_raw rc off len = Some (rc', h) \<Longrightarrow> rc' = rc"
  by (simp add: safely_get_header_raw_def split: if_splits)

lemma raw_get_same:
  "packet_data a = packet_data b \<Longrightarrow>
     map_option snd (safely_get_header_raw a off len) = map_option snd (safely_get_header_raw b off len)"
  by (simp add: safely_get_header_raw_def)

lemma extract_raw_frame:
  assumes "glb_extract_packet_fields safely_get_header_raw rc = Some px"
  shows "ipv4_hops px = ipv4_hops rc \<and> is_ip_ether_type (ether_type px)"
proof -
  have "ipv4_hops rc2 = ipv4_hops rc1 \<and> ether_type rc2 = ether_type rc1"
    if "extract_packet_fields_ipv4 safely_get_header_raw rc1 = Some rc2 \<or>
        extract_packet_fields_ipv6 safely_get_header_raw rc1 = Some rc2" for rc1 rc2
    using that
    by (auto simp: extract_packet_fields_ipv4_def extract_packet_fields_ipv6_def Let_def bind_eq_Some_conv
        dest!: raw_get_frame split: if_splits)
  then show ?thesis
    using assms
    by (fastforce simp: glb_extract_packet_fields_def Let_def bind_eq_Some_conv is_ip_ether_type_def
        dest!: raw_get_frame split: if_splits)
qed

text \<open>What routing and encapsulation use of a parsed packet.\<close>

definition same_parse :: "'p glb_route_context \<Rightarrow> 'q glb_route_context \<Rightarrow> bool" where
  "same_parse a b \<longleftrightarrow> flow_key a = flow_key b \<and> ip_total_length a = ip_total_length b \<and>
     flow_hash_hint a = flow_hash_hint b \<and> gue_ipproto a = gue_ipproto b \<and>
     orig_dst_mac a = orig_dst_mac b \<and> original_ipproto a = original_ipproto b"

lemma extract_ipv4_same_parse:
  assumes "packet_data a = packet_data b" "ether_type a = PDNET_ETHER_TYPE_IPV4"
    "ether_type b = PDNET_ETHER_TYPE_IPV4" "orig_dst_mac a = orig_dst_mac b"
  shows "rel_option same_parse (extract_packet_fields_ipv4 safely_get_header_raw a)
    (extract_packet_fields_ipv4 safely_get_header_raw b)"
  using assms
  by (simp add: extract_packet_fields_ipv4_def safely_get_header_raw_def Let_def same_parse_def flow_key_def)

lemma extract_ipv6_same_parse:
  assumes "packet_data a = packet_data b" "ether_type a = PDNET_ETHER_TYPE_IPV6"
    "ether_type b = PDNET_ETHER_TYPE_IPV6" "orig_dst_mac a = orig_dst_mac b"
  shows "rel_option same_parse (extract_packet_fields_ipv6 safely_get_header_raw a)
    (extract_packet_fields_ipv6 safely_get_header_raw b)"
  using assms
  by (simp add: extract_packet_fields_ipv6_def safely_get_header_raw_def Let_def same_parse_def flow_key_def)

lemma extract_same_parse:
  assumes "packet_data a = packet_data b"
  shows "rel_option same_parse (glb_extract_packet_fields safely_get_header_raw a)
    (glb_extract_packet_fields safely_get_header_raw b)"
  using assms
  by (simp add: glb_extract_packet_fields_def safely_get_header_raw_def [of _ 0] Let_def
      extract_ipv4_same_parse extract_ipv6_same_parse)

lemma same_parse_packet_hops:
  assumes "same_parse a b"
  shows "packet_hops cfg table a = packet_hops cfg table b" "hash_input hf a = hash_input hf b"
  using assms flow_key_packet_hops flow_key_hash_input by (auto simp: same_parse_def)

lemma same_parse_encapsulated:
  assumes "same_parse a b"
  shows "encapsulated cfg table a ip_ck udp_ck inner = encapsulated cfg table b ip_ck udp_ck inner"
  using assms unfolding encapsulated_def Let_def same_parse_packet_hops [OF assms]
  by (simp add: same_parse_def)

subsection \<open>The output of the program\<close>

text \<open>
  What the code relies on of \<open>bpf_xdp_adjust_head\<close>: when it succeeds with a negative offset, the
  packet has that many more bytes in front.
\<close>

definition adjust_head_law :: "(bytes \<Rightarrow> int \<Rightarrow> bytes option) \<Rightarrow> bool" where
  "adjust_head_law f \<longleftrightarrow>
     (\<forall>p d p'. d \<le> 0 \<longrightarrow> f p d = Some p' \<longrightarrow> (\<exists>pre. length pre = nat (- d) \<and> p' = pre @ p))"

abbreviation xdp_cksum :: "glb_director_config \<Rightarrow> bytes \<Rightarrow> 'p glb_route_context \<Rightarrow> u16" where
  "xdp_cksum cfg table px \<equiv> compute_ipv4_checksum (pdnet_ipv4_hdr_bytes (outer_ipv4 (local_ip_addr cfg)
     (packet_hops cfg table px) (ip_total_length px) 0))"

lemma xdp_context_simps [simp]:
  "packet_data (xdp_context data) = data" "length (ipv4_hops (xdp_context data)) = GLB_MAX_HOPS"
  by (simp_all add: xdp_context_def)

lemma xdp_match_TX:
  assumes px: "glb_extract_packet_fields safely_get_header_raw (xdp_context data) = Some px"
    and bind: "glb_binds maps (xdp_bind_of px) = Some (of_nat i)"
    and cfg: "config_loaded cfg maps" "hash_config_ok cfg" and t: "table_loaded raw i maps"
    and adj: "adjust_head_law f"
      "f data (int sizeof_eth - int (46 + 4 * length (packet_hops cfg (content_table raw i) px))) = Some data'"
  shows "xdp_match f maps data st =
    (XDP_TX, encapsulated (cfg\<lparr>local_ether_addr := orig_dst_mac px\<rparr>) (content_table raw i) px
       (xdp_cksum cfg (content_table raw i) px) 0 (drop sizeof_eth data),
     st\<lparr>Matched := Matched st + 1, Encapsulated := Encapsulated st + 1,
        EncapsulatedBytes := EncapsulatedBytes st +
          ucast (of_nat (32 + 4 * length (packet_hops cfg (content_table raw i) px) +
                         unat (ip_total_length px)) :: u16) + 14\<rparr>)"
proof -
  define table where "table = content_table raw i"
  let ?hops = "packet_hops cfg table px"
  have fr: "length (ipv4_hops px) = GLB_MAX_HOPS" "is_ip_ether_type (ether_type px)"
    using extract_raw_frame [OF px] by simp_all
  have n: "length ?hops = 2 \<or> length ?hops = 4" by (simp add: length_packet_hops)
  define rc where "rc = px\<lparr>pkt_hash := le_word (siphash (hash_input (hash_fields cfg) px) (table_secure_key table)),
     ipv4_hops := ?hops @ drop (length ?hops) (ipv4_hops px), hop_count := of_nat (length ?hops)\<rparr>"
  have route: "xdp_route maps (of_nat i) px st' = (st', Some rc)" for st'
    unfolding rc_def table_def by (rule xdp_route_eq [OF fr(2,1) cfg t])
  have hc: "unat (hop_count rc) = length ?hops" using n by (auto simp: rc_def)
  then have sz: "ROUTE_CONTEXT_ENCAP_SIZE rc = 46 + 4 * length ?hops"
    using n by (auto simp: ROUTE_CONTEXT_ENCAP_SIZE_def)
  have hl: "length (ipv4_hops rc) = GLB_MAX_HOPS" "take (unat (hop_count rc)) (ipv4_hops rc) = ?hops"
    using n fr(1) hc by (auto simp: rc_def GLB_MAX_HOPS_def)
  have d0: "int sizeof_eth - int (46 + 4 * length ?hops) \<le> 0"
    by simp
  from adj(1) [unfolded adjust_head_law_def, rule_format, OF d0 adj(2) [folded table_def]]
  obtain pre where pre: "length pre = 32 + 4 * length ?hops" "data' = pre @ data"
    by (auto simp: nat_add_distrib nat_mult_distrib add.commute)
  have le: "sizeof_eth \<le> length data" using glb_extract_raw_length [OF px] by simp
  obtain gw src where b: "config_bits maps 0 = Some gw" "config_bits maps 1 = Some src"
    "get_field 0 6 gw = gateway_ether_addr cfg" "get_field 0 4 src = local_ip_addr cfg"
    using cfg(1) by (auto simp: config_loaded_def)
  have room: "ROUTE_CONTEXT_ENCAP_SIZE rc \<le> length data'"
    using pre le sz by simp
  have drp: "drop (ROUTE_CONTEXT_ENCAP_SIZE rc) data' = drop sizeof_eth data"
    using pre sz by simp
  have "1 \<le> unat (hop_count rc)" "unat (hop_count rc) \<le> length (ipv4_hops rc)"
    "length (ipv4_hops rc) \<le> GLB_MAX_HOPS"
    using n hc hl by (auto simp: GLB_MAX_HOPS_def)
  note enc = glb_encapsulate_packet_xdp_TX [OF hl(2) [symmetric] this b(1,2) room, unfolded drp]
  have hdrs: "xdp_headers (gateway_ether_addr cfg) (local_ip_addr cfg) ?hops rc @ drop sizeof_eth data =
      encapsulated (cfg\<lparr>local_ether_addr := orig_dst_mac px\<rparr>) table px (xdp_cksum cfg table px) 0
        (drop sizeof_eth data)"
    by (simp add: xdp_headers_def encapsulated_def Let_def rc_def outer_eth_def packet_hops_def)
  have tl: "ip_total_length rc = ip_total_length px" by (simp add: rc_def)
  have adj': "f data (int sizeof_eth - int (ROUTE_CONTEXT_ENCAP_SIZE rc)) = Some data'"
    using adj(2) sz by (simp add: table_def)
  show ?thesis
    unfolding xdp_match_def px option.case bind Let_def route prod.case adj' table_def [symmetric]
    using room hdrs b(3,4) tl by (simp add: enc)
qed

end
