(* ===== verification/Xdp_Director.thy ===== *)
theory Xdp_Director
  imports Xdp_Encap
begin

text \<open>
  What the XDP director guarantees: its packets are those of the DPDK director, its counters account
  for every packet, packets it does not send are left alone. The last part is the header checksum,
  which is computed with a single folding step.
\<close>

unbundle bit_operations_syntax

subsection \<open>The header checksum\<close>

text \<open>
  The sum of the ten 16-bit words of a header; a receiver accepts the header when the sum is a
  multiple of \<open>0xffff\<close>, that is when its ones' complement sum is zero.
\<close>

definition header_sum :: "bytes \<Rightarrow> nat" where
  "header_sum h = sum_list (map (\<lambda>i. unat (get_field (2 * i) 2 h :: u16)) [0, 1, 2, 3, 4, 5, 6, 7, 8, 9])"

definition header_checksum_valid :: "bytes \<Rightarrow> bool" where
  "header_checksum_valid h \<longleftrightarrow> header_sum h mod 0xffff = 0"

lemma header_sum_expand:
  "header_sum h = unat (get_field 0 2 h :: u16) + unat (get_field 2 2 h :: u16) + unat (get_field 4 2 h :: u16) +
     unat (get_field 6 2 h :: u16) + unat (get_field 8 2 h :: u16) + unat (get_field 10 2 h :: u16) +
     unat (get_field 12 2 h :: u16) + unat (get_field 14 2 h :: u16) + unat (get_field 16 2 h :: u16) +
     unat (get_field 18 2 h :: u16)"
  by (simp add: header_sum_def)

lemma header_sum_checksum:
  "header_sum (pdnet_ipv4_hdr_bytes (h\<lparr>ip4_checksum := c\<rparr>)) =
     header_sum (pdnet_ipv4_hdr_bytes (h\<lparr>ip4_checksum := 0\<rparr>)) + unat c"
proof -
  obtain pre post where b: "\<And>c. pdnet_ipv4_hdr_bytes (h\<lparr>ip4_checksum := c\<rparr>) = pre @ le_bytes 2 c @ post"
    "length pre = 10" "length post = 8"
  proof
    show "pdnet_ipv4_hdr_bytes (h\<lparr>ip4_checksum := c\<rparr>) = take 10 (pdnet_ipv4_hdr_bytes h) @ le_bytes 2 c @
        (le_bytes 4 (ip4_src_addr h) @ le_bytes 4 (ip4_dst_addr h))" for c
      by (simp add: pdnet_ipv4_hdr_bytes_def)
  qed simp_all
  have f: "(get_field i 2 (pre @ le_bytes 2 c @ post) :: u16) =
      (if i < 10 then get_field i 2 pre else if i = 10 then c else get_field (i - 12) 2 post)"
    if "i \<in> {0, 2, 4, 6, 8, 10, 12, 14, 16, 18}" for i c
    using that b(2) by (auto simp: get_field_append get_field_head take_bit_word_eq_self)
  show ?thesis
    unfolding b(1) header_sum_expand by (simp add: f)
qed

lemma header_sum_le: "header_sum h \<le> 10 * 0xffff"
proof -
  have "unat x \<le> 0xffff" for x :: u16
    using unsigned_less [of x, where ?'a = nat] by simp
  then have "sum_list (map (\<lambda>i. unat (get_field (2 * i) 2 h :: u16)) xs) \<le> length xs * 0xffff" for xs
    by (induction xs) (simp_all add: add_mono)
  from this [of "[0, 1, 2, 3, 4, 5, 6, 7, 8, 9]"] show ?thesis by (simp add: header_sum_def)
qed

lemma unat_not_u16: "unat (NOT x) = 0xffff - unat (x :: u16)"
proof -
  have "NOT x = - 1 - x" by (simp add: not_eq_complement)
  moreover have "unat (- 1 - x) = unat (- 1 :: u16) - unat x"
    by (rule unat_sub) simp
  moreover have "unat (- 1 :: u16) = 0xffff" by (simp add: unsigned_minus_1_eq_mask mask_eq_exp_minus_1)
  ultimately show ?thesis by simp
qed

text \<open>The checksum as arithmetic: one folding step, then the complement of the low 16 bits.\<close>

lemma compute_ipv4_checksum_arith:
  "unat (compute_ipv4_checksum h) = 0xffff - (header_sum h mod 0x10000 + header_sum h div 0x10000) mod 0x10000"
proof -
  define S where "S = header_sum h"
  have S: "S \<le> 655350" using header_sum_le [of h] by (simp add: S_def)
  define f where "f = (of_nat (S mod 0x10000 + S div 0x10000) :: u64)"
  have uc: "of_nat (unat x) = (ucast x :: u64)" for x :: u16 by simp
  have sum: "ucast (get_field (2 * 0) 2 h :: u16) + ucast (get_field (2 * 1) 2 h :: u16) +
      ucast (get_field (2 * 2) 2 h :: u16) + ucast (get_field (2 * 3) 2 h :: u16) +
      ucast (get_field (2 * 4) 2 h :: u16) + ucast (get_field (2 * 5) 2 h :: u16) +
      ucast (get_field (2 * 6) 2 h :: u16) + ucast (get_field (2 * 7) 2 h :: u16) +
      ucast (get_field (2 * 8) 2 h :: u16) + ucast (get_field (2 * 9) 2 h :: u16) = (of_nat S :: u64)"
    unfolding S_def header_sum_expand of_nat_add uc by simp
  have uS: "unat (of_nat S :: u64) = S" using S by (simp add: unat_of_nat)
  have lo: "(of_nat S :: u64) AND 0xffff = of_nat (S mod 0x10000)"
  proof -
    have "(of_nat S :: u64) AND 0xffff = take_bit 16 (of_nat S)"
      unfolding take_bit_eq_mask by (simp add: mask_eq_exp_minus_1)
    also have "\<dots> = of_nat (take_bit 16 S)" by (simp add: take_bit_of_nat)
    finally show ?thesis by (simp add: take_bit_eq_mod)
  qed
  have hi: "drop_bit 16 (of_nat S :: u64) = of_nat (S div 0x10000)"
  proof -
    have u: "unat (drop_bit 16 (of_nat S :: u64)) = S div 0x10000"
      using uS by (simp add: drop_bit_eq_div unat_div)
    show ?thesis unfolding u [symmetric] by simp
  qed
  have "compute_ipv4_checksum h = ucast (NOT f)"
    unfolding compute_ipv4_checksum_def Let_def sum lo hi f_def by simp
  also have "\<dots> = NOT (ucast f)"
    by (rule bit_word_eqI) (simp add: bit_simps)
  also have "ucast f = (of_nat (S mod 0x10000 + S div 0x10000) :: u16)"
    unfolding f_def by (rule bit_word_eqI) (simp add: bit_simps del: of_nat_add)
  finally have "unat (compute_ipv4_checksum h) = unat (NOT (of_nat (S mod 0x10000 + S div 0x10000) :: u16))"
    by simp
  also have "\<dots> = 0xffff - (S mod 0x10000 + S div 0x10000) mod 0x10000"
    by (simp add: unat_not_u16 unat_of_nat del: of_nat_add)
  finally show ?thesis by (simp add: S_def)
qed

text \<open>The checksum is right exactly when the single folding step leaves no further carry.\<close>

lemma computed_checksum_valid_iff:
  defines "S h \<equiv> header_sum (pdnet_ipv4_hdr_bytes (h\<lparr>ip4_checksum := 0\<rparr>))"
  shows "header_checksum_valid (pdnet_ipv4_hdr_bytes
      (h\<lparr>ip4_checksum := compute_ipv4_checksum (pdnet_ipv4_hdr_bytes (h\<lparr>ip4_checksum := 0\<rparr>))\<rparr>)) \<longleftrightarrow>
    S h mod 0x10000 + S h div 0x10000 \<le> 0xffff"
proof -
  define lo hi where "lo = S h mod 0x10000" and "hi = S h div 0x10000"
  have s: "S h = hi * 0x10000 + lo" by (simp add: lo_def hi_def)
  have b: "lo < 0x10000" "hi \<le> 9"
    using header_sum_le [of "pdnet_ipv4_hdr_bytes (h\<lparr>ip4_checksum := 0\<rparr>)"] by (simp_all add: lo_def hi_def S_def)
  have "header_checksum_valid (pdnet_ipv4_hdr_bytes
      (h\<lparr>ip4_checksum := compute_ipv4_checksum (pdnet_ipv4_hdr_bytes (h\<lparr>ip4_checksum := 0\<rparr>))\<rparr>)) \<longleftrightarrow>
    (S h + (0xffff - (lo + hi) mod 0x10000)) mod 0xffff = 0"
    unfolding header_checksum_valid_def lo_def hi_def S_def compute_ipv4_checksum_arith [symmetric]
    by (subst header_sum_checksum) (rule refl)
  also have "\<dots> \<longleftrightarrow> lo + hi \<le> 0xffff"
  proof (cases "lo + hi \<le> 0xffff")
    case True
    then have m: "(lo + hi) mod 0x10000 = lo + hi" by simp
    have "S h + (0xffff - (lo + hi)) = (hi + 1) * 0xffff"
      using True s by (simp add: algebra_simps)
    then show ?thesis using True unfolding m by (simp only: mod_mult_self2_is_0) simp
  next
    case False
    have m: "(lo + hi) mod 0x10000 = lo + hi - 0x10000"
      using False b by (subst le_mod_geq) simp_all
    have "S h + (0xffff - (lo + hi - 0x10000)) = (hi + 2) * 0xffff + 1"
      using False b s by (simp add: algebra_simps)
    then show ?thesis using False unfolding m by (simp only: mod_mult_self3) simp
  qed
  finally show ?thesis by (simp add: lo_def hi_def)
qed

subsection \<open>Accounting\<close>

definition internal_errors :: "glb_global_stats \<Rightarrow> u64" where
  "internal_errors st = ErrorTable st + ErrorSecret st + ErrorHashConfig st + ErrorMissingRow st +
     ErrorCreatingSpace st + ErrorMissingGatewayMAC st + ErrorMissingSourceAddress st"

text \<open>The balance of the counters, in the arithmetic of 64-bit counters.\<close>

definition stats_consistent :: "glb_global_stats \<Rightarrow> bool" where
  "stats_consistent st \<longleftrightarrow>
     Processed st = UnknownFormat st + NoMatchingBind st + Matched st \<and>
     Matched st = Encapsulated st + internal_errors st"

text \<open>The part of the counters that routing and encapsulation leave alone.\<close>

definition admission :: "glb_global_stats \<Rightarrow> u64 \<times> u64 \<times> u64 \<times> u64" where
  "admission st = (Processed st, UnknownFormat st, NoMatchingBind st, Matched st)"

lemma xdp_route_None:
  assumes "xdp_route maps t rc st = (st', None)"
  shows "admission st' = admission st \<and> Encapsulated st' = Encapsulated st \<and>
    internal_errors st' = internal_errors st + 1"
  using assms
  by (auto simp: xdp_route_def Let_def admission_def internal_errors_def split: option.splits if_splits)

lemma xdp_route_Some:
  assumes "xdp_route maps t rc st = (st', Some rc')"
  shows "st' = st \<and> length (ipv4_hops rc') = length (ipv4_hops rc) \<and>
    (unat (hop_count rc') = 2 \<or> unat (hop_count rc') = 4)"
  using assms by (auto simp: xdp_route_def Let_def split: option.splits if_splits)

lemma encapsulate_xdp_counted:
  assumes n: "1 \<le> unat (hop_count rc)" "unat (hop_count rc) \<le> length (ipv4_hops rc)"
      "length (ipv4_hops rc) \<le> GLB_MAX_HOPS"
    and room: "ROUTE_CONTEXT_ENCAP_SIZE rc \<le> length data"
    and res: "glb_encapsulate_packet_xdp maps data rc st = (a, data', st')"
  shows "admission st' = admission st \<and> a \<noteq> XDP_PASS \<and>
    Encapsulated st' = Encapsulated st + (if a = XDP_TX then 1 else 0) \<and>
    internal_errors st' = internal_errors st + (if a = XDP_TX then 0 else 1)"
proof (cases "config_bits maps 0")
  case None
  then show ?thesis
    using res by (auto simp: glb_encapsulate_packet_xdp_def admission_def internal_errors_def)
next
  case gw: (Some gw)
  have len: "50 \<le> length data"
    using room by (simp add: ROUTE_CONTEXT_ENCAP_SIZE_def)
  show ?thesis
  proof (cases "config_bits maps 1")
    case None
    then show ?thesis
      using res gw len by (auto simp: glb_encapsulate_packet_xdp_def admission_def internal_errors_def Let_def)
  next
    case (Some src)
    then show ?thesis
      using res glb_encapsulate_packet_xdp_TX [OF refl n gw Some room, of st]
      by (auto simp: admission_def internal_errors_def)
  qed
qed

lemma adjust_head_room:
  assumes "adjust_head_law f" "f data (int sizeof_eth - int n) = Some data'" "sizeof_eth \<le> length data"
    "sizeof_eth \<le> n"
  shows "n \<le> length data'"
proof -
  have d0: "int sizeof_eth - int n \<le> 0" using assms(4) by simp
  from assms(1) [unfolded adjust_head_law_def, rule_format, OF d0 assms(2)]
  show ?thesis using assms(3,4) by auto
qed

lemma xdp_match_counted:
  assumes adj: "adjust_head_law f" and res: "xdp_match f maps data st = (a, data', st')"
  shows "Processed st' = Processed st \<and>
    UnknownFormat st' + NoMatchingBind st' + Matched st' =
      UnknownFormat st + NoMatchingBind st + Matched st + 1 \<and>
    Matched st' - (Encapsulated st' + internal_errors st') = Matched st - (Encapsulated st + internal_errors st) \<and>
    Encapsulated st' = Encapsulated st + (if a = XDP_TX then 1 else 0) \<and>
    (a = XDP_PASS \<longrightarrow> data' = data)"
proof (cases "glb_extract_packet_fields safely_get_header_raw (xdp_context data)")
  case None
  then show ?thesis using res by (auto simp: xdp_match_def internal_errors_def)
next
  case px: (Some px)
  show ?thesis
  proof (cases "glb_binds maps (xdp_bind_of px)")
    case None
    then show ?thesis using res px by (auto simp: xdp_match_def internal_errors_def)
  next
    case bind: (Some t)
    let ?st = "st\<lparr>Matched := Matched st + 1\<rparr>"
    have ad: "Processed st2 = Processed st \<and> UnknownFormat st2 = UnknownFormat st \<and>
        NoMatchingBind st2 = NoMatchingBind st \<and> Matched st2 = Matched st + 1"
      if "admission st2 = admission ?st" for st2
      using that by (simp add: admission_def)
    obtain st1 r where route: "xdp_route maps t px ?st = (st1, r)" by fastforce
    show ?thesis
    proof (cases r)
      case None
      have "a = XDP_PASS" "data' = data" "st' = st1"
        using res px bind route None by (simp_all add: xdp_match_def)
      then show ?thesis
        using xdp_route_None [OF route [unfolded None]] ad [of st1] by (simp add: internal_errors_def)
    next
      case (Some rc)
      note rt = xdp_route_Some [OF route [unfolded Some]]
      have h: "length (ipv4_hops rc) = GLB_MAX_HOPS" using rt extract_raw_frame [OF px] by simp
      have n: "1 \<le> unat (hop_count rc)" "unat (hop_count rc) \<le> length (ipv4_hops rc)"
        "length (ipv4_hops rc) \<le> GLB_MAX_HOPS"
        using rt h by (auto simp: GLB_MAX_HOPS_def)
      let ?d = "int sizeof_eth - int (ROUTE_CONTEXT_ENCAP_SIZE rc)"
      show ?thesis
      proof (cases "f data ?d")
        case None
        then show ?thesis
          using res px bind route Some rt by (auto simp: xdp_match_def internal_errors_def)
      next
        case data1: (Some data1)
        have le: "sizeof_eth \<le> length data" using glb_extract_raw_length [OF px] by simp
        have room: "ROUTE_CONTEXT_ENCAP_SIZE rc \<le> length data1"
          by (rule adjust_head_room [OF adj data1 le]) (simp add: ROUTE_CONTEXT_ENCAP_SIZE_def)
        have "glb_encapsulate_packet_xdp maps data1 rc ?st = (a, data', st')"
          using res px bind route Some rt data1 room by (simp add: xdp_match_def)
        from encapsulate_xdp_counted [OF n room this] ad [of st'] show ?thesis
          by (simp add: internal_errors_def)
      qed
    qed
  qed
qed

text \<open>A sequence of packets, processed one after the other.\<close>

fun xdp_run :: "(bytes \<Rightarrow> int \<Rightarrow> bytes option) \<Rightarrow> bpf_maps \<Rightarrow> bytes list \<Rightarrow> bpf_maps" where
  "xdp_run f maps [] = maps"
| "xdp_run f maps (p # ps) = xdp_run f (snd (snd (xdp_glb_director_process f maps p))) ps"

lemma xdp_process_counters:
  assumes "adjust_head_law f" and "glb_global_packet_counters maps 0 = Some st"
    and "xdp_glb_director_process f maps data = (a, data', maps')"
  obtains st' where "glb_global_packet_counters maps' 0 = Some st'"
    "Processed st' = Processed st + 1"
    "UnknownFormat st' + NoMatchingBind st' + Matched st' =
      UnknownFormat st + NoMatchingBind st + Matched st + 1"
    "Matched st' - (Encapsulated st' + internal_errors st') = Matched st - (Encapsulated st + internal_errors st)"
    "Encapsulated st' = Encapsulated st + (if a = XDP_TX then 1 else 0)"
    "a = XDP_PASS \<longrightarrow> data' = data"
    "maps'\<lparr>glb_global_packet_counters := glb_global_packet_counters maps\<rparr> = maps"
proof -
  let ?st = "st\<lparr>Processed := Processed st + 1\<rparr>"
  obtain st' where m: "xdp_match f maps data ?st = (a, data', st')"
    "maps' = maps\<lparr>glb_global_packet_counters := (glb_global_packet_counters maps)(0 \<mapsto> st')\<rparr>"
    using assms(2,3) by (auto simp: xdp_glb_director_process_def split: prod.splits)
  have ie: "internal_errors ?st = internal_errors st" by (simp add: internal_errors_def)
  show ?thesis
  proof (rule that)
    show "Matched st' - (Encapsulated st' + internal_errors st') = Matched st - (Encapsulated st + internal_errors st)"
      using xdp_match_counted [OF assms(1) m(1), THEN conjunct2, THEN conjunct2, THEN conjunct1, unfolded ie]
      by simp
  qed (use xdp_match_counted [OF assms(1) m(1)] m(2) in simp_all)
qed

lemma xdp_process_consistent:
  assumes "adjust_head_law f" and "glb_global_packet_counters maps 0 = Some st" and "stats_consistent st"
  shows "\<exists>st'. glb_global_packet_counters (snd (snd (xdp_glb_director_process f maps data))) 0 = Some st' \<and>
    stats_consistent st' \<and> Processed st' = Processed st + 1"
proof -
  obtain a data' maps' where r: "xdp_glb_director_process f maps data = (a, data', maps')"
    by (metis prod_cases3)
  from xdp_process_counters [OF assms(1,2) r] obtain st' where
    "glb_global_packet_counters maps' 0 = Some st'" "Processed st' = Processed st + 1"
    "UnknownFormat st' + NoMatchingBind st' + Matched st' =
      UnknownFormat st + NoMatchingBind st + Matched st + 1"
    "Matched st' - (Encapsulated st' + internal_errors st') = Matched st - (Encapsulated st + internal_errors st)"
    by blast
  then show ?thesis
    using assms(3) r by (auto simp: stats_consistent_def)
qed

subsection \<open>Example maps\<close>

definition example_adjust_head :: "bytes \<Rightarrow> int \<Rightarrow> bytes option" where
  "example_adjust_head p d = Some (replicate (nat (- d)) 0 @ p)"

lemma example_adjust_head_law: "adjust_head_law example_adjust_head"
  by (auto simp: adjust_head_law_def example_adjust_head_def)

definition xdp_zero_stats :: glb_global_stats where
  "xdp_zero_stats =
     \<lparr>Processed = 0, UnknownFormat = 0, NoMatchingBind = 0, Matched = 0, Encapsulated = 0,
      EncapsulatedBytes = 0, ErrorTable = 0, ErrorSecret = 0, ErrorHashConfig = 0, ErrorMissingRow = 0,
      ErrorCreatingSpace = 0, ErrorMissingGatewayMAC = 0, ErrorMissingSourceAddress = 0\<rparr>"

definition example_xdp_config :: glb_director_config where
  "example_xdp_config = (zero_director_config 1)\<lparr>hash_fields := zero_hash_fields\<lparr>hf_src_addr := True\<rparr>,
     gateway_ether_addr := 0, local_ip_addr := 0\<rparr>"

definition example_maps :: bpf_maps where
  "example_maps =
     (let table = content_table (raw_config example_ctx) 0
      in \<lparr>config_bits = [0 \<mapsto> replicate 6 0, 1 \<mapsto> replicate 6 0, 3 \<mapsto> [1, 0, 0, 0, 0, 0], 4 \<mapsto> replicate 6 0],
          glb_binds = (\<lambda>_. Some 0),
          glb_tables = [0 \<mapsto> (\<lambda>r. Some (row_hops table (unat r) ! 0, row_hops table (unat r) ! 1))],
          glb_table_secrets = [0 \<mapsto> table_secure_key table],
          glb_global_packet_counters = [0 \<mapsto> xdp_zero_stats]\<rparr>)"

lemma example_maps_loaded:
  "config_loaded example_xdp_config example_maps" "hash_config_ok example_xdp_config"
  "table_loaded (raw_config example_ctx) 0 example_maps"
  "glb_global_packet_counters example_maps 0 = Some xdp_zero_stats" "stats_consistent xdp_zero_stats"
proof -
  have r: "replicate 6 (0 :: u8) = [0, 0, 0, 0, 0, 0]" by (simp add: numeral_eq_Suc)
  show "config_loaded example_xdp_config example_maps"
    by (simp add: config_loaded_def example_xdp_config_def example_maps_def Let_def xdp_hash_fields_def
        get_field_def r zero_hash_fields_def zero_director_config_def)
  show "hash_config_ok example_xdp_config"
    by (simp add: hash_config_ok_def hash_fields_any_def example_xdp_config_def zero_director_config_def)
  show "table_loaded (raw_config example_ctx) 0 example_maps"
    by (auto simp: table_loaded_def example_maps_def Let_def unat_of_nat)
qed (simp_all add: example_maps_def Let_def xdp_zero_stats_def stats_consistent_def internal_errors_def)

subsection \<open>Properties\<close>

text \<open>
  C6: both directors send the same packet. With the settings and the table loaded into the maps, and
  with the bind of the packet mapped to the table, the XDP program transmits the packet that the DPDK
  director sends for this table: same hops, same outer headers, same inner packet. It differs in the
  Ethernet source (the address the packet was sent to), in the UDP checksum (zero) and in how the IP
  header checksum is computed.
\<close>

theorem xdp_sends_dpdk_packet:
  assumes "mbuf_laws ops contents" and "length (ipv4_hops rc0) = GLB_MAX_HOPS"
    and "glb_encapsulate_packet_dpdk ops ck contents cfg rc0 ctx pkt i = (True, pkt')"
    and "config_loaded cfg maps" and "hash_config_ok cfg" and "table_loaded (raw_config ctx) i maps"
    and "glb_global_packet_counters maps 0 = Some st"
    and "\<And>px. glb_extract_packet_fields safely_get_header_raw (xdp_context (contents (mbuf_data pkt))) = Some px \<Longrightarrow>
           glb_binds maps (xdp_bind_of px) = Some (of_nat i)"
    and "adjust_head_law f" and "\<And>d. f (contents (mbuf_data pkt)) d \<noteq> None"
  shows "\<exists>(px :: bytes glb_route_context) ip_ck udp_ck maps'.
    contents (mbuf_data pkt') = encapsulated cfg (content_table (raw_config ctx) i) px ip_ck udp_ck
      (drop sizeof_eth (contents (mbuf_data pkt))) \<and>
    xdp_glb_director_process f maps (contents (mbuf_data pkt)) =
      (XDP_TX, encapsulated (cfg\<lparr>local_ether_addr := orig_dst_mac px\<rparr>) (content_table (raw_config ctx) i) px
         (xdp_cksum cfg (content_table (raw_config ctx) i) px) 0
         (drop sizeof_eth (contents (mbuf_data pkt))), maps')"
proof -
  let ?data = "contents (mbuf_data pkt)" and ?table = "content_table (raw_config ctx) i"
  obtain qx ip_ck udp_ck where q:
    "glb_extract_packet_fields safely_get_header_raw (raw_context ?data rc0) = Some qx"
    "contents (mbuf_data pkt') = encapsulated cfg ?table qx ip_ck udp_ck (drop sizeof_eth ?data)"
    using dpdk_output [OF assms(1-3)] by metis
  have "packet_data (raw_context ?data rc0) = packet_data (xdp_context ?data)"
    by (simp add: raw_context_def)
  from extract_same_parse [OF this] q(1) obtain px where
    px: "glb_extract_packet_fields safely_get_header_raw (xdp_context ?data) = Some px" "same_parse qx px"
    by (auto simp: option_rel_Some1)
  obtain data' where "f ?data (int sizeof_eth - int (46 + 4 * length (packet_hops cfg ?table px))) = Some data'"
    using assms(10) by blast
  note tx = xdp_match_TX [OF px(1) assms(8) [OF px(1)] assms(4-6,9) this]
  show ?thesis
    using q(2) same_parse_encapsulated [OF px(2), of cfg ?table]
    by (intro exI [of _ px]) (auto simp: xdp_glb_director_process_def assms(7) tx)
qed

theorem xdp_sends_dpdk_packet_witness:
  "\<exists>pkt' px ip_ck udp_ck maps'.
    glb_encapsulate_packet_dpdk example_mbuf_ops example_cksum_ops snd example_xdp_config
      (example_context (0, [])) example_ctx
      \<lparr>mbuf_data = (128, example_tcp4), mbuf_l2_len = 0, mbuf_l3_len = 0, mbuf_packet_type = 0,
       mbuf_ol_flags = 0\<rparr> 0 = (True, pkt') \<and>
    snd (mbuf_data pkt') = encapsulated example_xdp_config (content_table (raw_config example_ctx) 0)
      (px :: bytes glb_route_context) ip_ck udp_ck (drop sizeof_eth example_tcp4) \<and>
    xdp_glb_director_process example_adjust_head example_maps example_tcp4 =
      (XDP_TX, encapsulated (example_xdp_config\<lparr>local_ether_addr := orig_dst_mac px\<rparr>)
         (content_table (raw_config example_ctx) 0) px
         (xdp_cksum example_xdp_config (content_table (raw_config example_ctx) 0) px) 0
         (drop sizeof_eth example_tcp4), maps')"
proof -
  have na: "\<not> use_alt_hash_fields example_xdp_config"
    by (simp add: example_xdp_config_def zero_director_config_def)
  obtain pkt' where ok: "glb_encapsulate_packet_dpdk example_mbuf_ops example_cksum_ops snd
      example_xdp_config (example_context (0, [])) example_ctx
      \<lparr>mbuf_data = (128, example_tcp4), mbuf_l2_len = 0, mbuf_l3_len = 0, mbuf_packet_type = 0,
       mbuf_ol_flags = 0\<rparr> 0 = (True, pkt' :: (nat \<times> bytes) rte_mbuf)"
    using example_dpdk_ok [OF na] by blast
  have b: "glb_binds example_maps k = Some (of_nat 0)" "example_adjust_head p d \<noteq> None" for k p d
    by (simp_all add: example_maps_def Let_def example_adjust_head_def)
  from xdp_sends_dpdk_packet [OF example_mbuf_laws _ ok example_maps_loaded(1-4) b(1)
      example_adjust_head_law b(2)]
  show ?thesis using ok by auto
qed

text \<open>
  C9: the counters of the XDP director balance. Whatever the maps contain and whatever packets
  arrive, in any order: every processed packet is counted as of unknown format, without matching bind,
  or matched; every matched packet is counted as encapsulated or under one internal error. The
  silent drops in the code are never taken.
\<close>

theorem xdp_counters_balance:
  assumes "adjust_head_law f" and "glb_global_packet_counters maps 0 = Some st" and "stats_consistent st"
  shows "\<exists>st'. glb_global_packet_counters (xdp_run f maps packets) 0 = Some st' \<and> stats_consistent st' \<and>
    Processed st' = Processed st + of_nat (length packets)"
  using assms(2,3)
proof (induction packets arbitrary: maps st)
  case Nil
  then show ?case by simp
next
  case (Cons p ps)
  from xdp_process_consistent [OF assms(1) Cons.prems, of p] obtain st1 where
    "glb_global_packet_counters (snd (snd (xdp_glb_director_process f maps p))) 0 = Some st1"
    "stats_consistent st1" "Processed st1 = Processed st + 1"
    by blast
  with Cons.IH [OF this(1,2)] show ?case by (auto simp: algebra_simps)
qed

theorem xdp_counters_balance_witness:
  "\<exists>st'. glb_global_packet_counters (xdp_run example_adjust_head example_maps [example_tcp4, [], example_tcp6]) 0 =
     Some st' \<and> stats_consistent st' \<and> Processed st' = Processed xdp_zero_stats + of_nat 3"
  using xdp_counters_balance [OF example_adjust_head_law example_maps_loaded(4,5),
      of "[example_tcp4, [], example_tcp6]"]
  by simp

text \<open>
  C16: a packet the director does not take is handed to the kernel as it arrived, a packet is
  transmitted exactly when the counter of encapsulated packets advances, and the program writes to no
  map but its counters.
\<close>

theorem xdp_pass_leaves_packet:
  assumes "adjust_head_law f" and "glb_global_packet_counters maps 0 = Some st"
    and "xdp_glb_director_process f maps data = (action, data', maps')"
  shows "(action = XDP_PASS \<longrightarrow> data' = data) \<and>
    (\<exists>st'. glb_global_packet_counters maps' 0 = Some st' \<and>
       (action = XDP_TX \<longleftrightarrow> Encapsulated st' \<noteq> Encapsulated st)) \<and>
    maps'\<lparr>glb_global_packet_counters := glb_global_packet_counters maps\<rparr> = maps"
  by (rule xdp_process_counters [OF assms]) auto

theorem xdp_pass_leaves_packet_witness:
  "\<exists>maps'. xdp_glb_director_process example_adjust_head example_maps [1, 2, 3] = (XDP_PASS, [1, 2, 3], maps') \<and>
    maps'\<lparr>glb_global_packet_counters := glb_global_packet_counters example_maps\<rparr> = example_maps"
proof -
  have "glb_extract_packet_fields safely_get_header_raw (xdp_context [1, 2, 3]) = None"
    using glb_extract_raw_length [of "xdp_context [1, 2, 3]"] by fastforce
  then obtain maps' where
    r: "xdp_glb_director_process example_adjust_head example_maps [1, 2, 3] = (XDP_PASS, [1, 2, 3], maps')"
    by (simp add: xdp_glb_director_process_def example_maps_loaded(4) xdp_match_def)
  from xdp_pass_leaves_packet [OF example_adjust_head_law example_maps_loaded(4) r] r show ?thesis
    by blast
qed

text \<open>
  C26: the IPv4 header of a packet from the XDP director verifies at the receiver exactly when folding
  the sum of its words once leaves no carry.
\<close>

theorem xdp_checksum_valid_iff:
  "header_checksum_valid (pdnet_ipv4_hdr_bytes (outer_ipv4 src hops len
      (compute_ipv4_checksum (pdnet_ipv4_hdr_bytes (outer_ipv4 src hops len 0))))) \<longleftrightarrow>
    header_sum (pdnet_ipv4_hdr_bytes (outer_ipv4 src hops len 0)) mod 0x10000 +
    header_sum (pdnet_ipv4_hdr_bytes (outer_ipv4 src hops len 0)) div 0x10000 \<le> 0xffff"
  using computed_checksum_valid_iff [of "outer_ipv4 src hops len 0"] by simp

text \<open>
  C33: a second carry does occur. From 192.168.1.1 to 192.168.185.55, with two hops and an inner packet
  of 60 bytes, the header the XDP director sends does not verify: the comment above the function bounds
  the sum, but its folded value is not monotone in the sum.
\<close>

theorem xdp_checksum_second_carry:
  "\<not> header_checksum_valid (pdnet_ipv4_hdr_bytes (outer_ipv4 0x0101a8c0 [0x37b9a8c0, h2] 60
      (compute_ipv4_checksum (pdnet_ipv4_hdr_bytes (outer_ipv4 0x0101a8c0 [0x37b9a8c0, h2] 60 0)))))"
proof -
  have "header_sum (pdnet_ipv4_hdr_bytes (outer_ipv4 0x0101a8c0 [0x37b9a8c0, h2] 60 0)) = 0x1ffff"
    by (simp add: header_sum_expand pdnet_ipv4_hdr_bytes_def outer_ipv4_def get_field_def htons_def
        pack_nibbles_def pack_2_6_def byte_eval)
  then show ?thesis
    using computed_checksum_valid_iff [of "outer_ipv4 0x0101a8c0 [0x37b9a8c0, h2] 60 0"] by simp
qed

end
