(* ===== verification/Xdp_Loader.thy ===== *)
theory Xdp_Loader
  imports Xdp_Director
begin

text \<open>
  The user-space half of the XDP director, \<open>src/glb-director-xdp/main.go\<close>: it fills the BPF maps from
  the settings and from the forwarding table, installs the program in the root arrays, and reports the
  counters. The operations of the \<open>ebpf\<close> package are the parameters \<open>ebpf_ops\<close>; parsing of addresses
  and JSON by Go's library are function parameters. The theorems say what the maps contain after a
  successful load, when a load succeeds, and what the loaded program does to a packet for a bind.
\<close>

unbundle bit_operations_syntax

subsection \<open>Results and parameters\<close>

text \<open>
  \<open>LogFatal\<close>: the process logs and exits; \<open>GoPanic\<close>: an index out of range or a nil pointer;
  \<open>ExitProcess1\<close>: the C loader called \<open>exit(1)\<close>.
\<close>

datatype go_failure = LogFatal | GoPanic | ExitProcess1

record ebpf_ops =
  put_config :: "u32 \<Rightarrow> bytes \<Rightarrow> (u32 \<rightharpoonup> bytes) \<Rightarrow> (u32 \<rightharpoonup> bytes) option"
  put_bind :: "glb_bind \<Rightarrow> u32 \<Rightarrow> (glb_bind \<rightharpoonup> u32) \<Rightarrow> (glb_bind \<rightharpoonup> u32) option"
  put_table :: "u32 \<Rightarrow> bpf_table \<Rightarrow> (u32 \<rightharpoonup> bpf_table) \<Rightarrow> (u32 \<rightharpoonup> bpf_table) option"
  put_secret :: "u32 \<Rightarrow> bytes \<Rightarrow> (u32 \<rightharpoonup> bytes) \<Rightarrow> (u32 \<rightharpoonup> bytes) option"
  put_row :: "u32 \<Rightarrow> u32 \<times> u32 \<Rightarrow> bpf_table \<Rightarrow> bpf_table option"
  new_map :: "nat \<Rightarrow> bpf_table option"

record go_config =
  OutboundGatewayMAC :: string
  OutboundSourceIP :: string
  ForwardICMPPingResponses :: bool
  HashFields :: "glb_director_hash_fields option"
  AltHashFields :: "glb_director_hash_fields option"
  StatsdPort :: u16

definition LoadDirectorConfig ::
    "(string \<Rightarrow> bytes option) \<Rightarrow> (bytes \<Rightarrow> go_config option) \<Rightarrow> string \<Rightarrow> go_config option" where
  "LoadDirectorConfig ReadFile Unmarshal filename =
     (case ReadFile filename of None \<Rightarrow> None | Some bytes \<Rightarrow> Unmarshal bytes)"

subsection \<open>Settings\<close>

definition boolToC :: "bool \<Rightarrow> u8" where
  "boolToC a = (if a then 1 else 0)"

text \<open>The C struct with its reserved member, six bytes.\<close>

definition go_hash_fields :: "glb_director_hash_fields \<Rightarrow> bytes" where
  "go_hash_fields hf =
     [boolToC (hf_src_addr hf), boolToC (hf_dst_addr hf), boolToC (hf_src_port hf), boolToC (hf_dst_port hf), 0, 0]"

text \<open>The error result of \<open>configMap.Put\<close> is not looked at.\<close>

definition put_config_ignored :: "ebpf_ops \<Rightarrow> u32 \<Rightarrow> bytes \<Rightarrow> (u32 \<rightharpoonup> bytes) \<Rightarrow> (u32 \<rightharpoonup> bytes)" where
  "put_config_ignored P k v m = (case put_config P k v m of None \<Rightarrow> m | Some m' \<Rightarrow> m')"

definition SyncConfigMap ::
    "ebpf_ops \<Rightarrow> (string \<Rightarrow> bytes option) \<Rightarrow> (string \<Rightarrow> bytes option) \<Rightarrow> go_config \<Rightarrow> bpf_maps \<Rightarrow>
     go_failure + bpf_maps" where
  "SyncConfigMap P ParseMAC ParseIP4 cfg maps =
     (case ParseMAC (OutboundGatewayMAC cfg) of
        None \<Rightarrow> Inl LogFatal
      | Some gatewayMAC \<Rightarrow>
      if length gatewayMAC \<noteq> 6 then Inl LogFatal
      else
        let data = gatewayMAC;
            m = put_config_ignored P 0 data (config_bits maps)
        in case ParseIP4 (OutboundSourceIP cfg) of
          None \<Rightarrow> Inl LogFatal
        | Some ip \<Rightarrow>
          let data = take 4 ip @ drop 4 data;
              m = put_config_ignored P 1 data m;
              data = boolToC (ForwardICMPPingResponses cfg) # tl data;
              m = put_config_ignored P 2 data m;
              hashFields = (case HashFields cfg of
                              None \<Rightarrow> zero_hash_fields\<lparr>hf_src_addr := True\<rparr> | Some hf \<Rightarrow> hf);
              m = put_config_ignored P 3 (go_hash_fields hashFields) m;
              altHashFields = (case AltHashFields cfg of None \<Rightarrow> zero_hash_fields | Some hf \<Rightarrow> hf);
              m = put_config_ignored P 4 (go_hash_fields altHashFields) m
          in Inr (maps\<lparr>config_bits := m\<rparr>))"

subsection \<open>The forwarding table\<close>

definition get_bind_ipv4 :: "glb_fwd_config_content_table_bind \<Rightarrow> u32" where
  "get_bind_ipv4 bd = (if bd_family bd = FAMILY_IPV4 then ucast (bd_addr bd) else 0)"

definition get_bind_ipv6 :: "glb_fwd_config_content_table_bind \<Rightarrow> ipv6_addr" where
  "get_bind_ipv6 bd = (if bd_family bd = FAMILY_IPV6 then bd_addr bd else 0)"

definition get_bind_icmp_proto :: "glb_fwd_config_content_table_bind \<Rightarrow> u16" where
  "get_bind_icmp_proto bd =
     (if bd_family bd = FAMILY_IPV4 then ucast PDNET_IP_PROTO_ICMPV4 else ucast PDNET_IP_PROTO_ICMPV6)"

definition get_backend_ipv4 :: "glb_fwd_config_content_table_backend \<Rightarrow> u32" where
  "get_backend_ipv4 be = ucast (be_addr be)"

definition port_bind_key :: "glb_fwd_config_content_table_bind \<Rightarrow> u16 \<Rightarrow> glb_bind" where
  "port_bind_key bd p =
     \<lparr>bind_ipv4 = get_bind_ipv4 bd, bind_ipv6 = get_bind_ipv6 bd, bind_proto = ucast (bd_proto bd),
      bind_port = htons p\<rparr>"

definition icmp_bind_key :: "glb_fwd_config_content_table_bind \<Rightarrow> glb_bind" where
  "icmp_bind_key bd =
     \<lparr>bind_ipv4 = get_bind_ipv4 bd, bind_ipv6 = get_bind_ipv6 bd, bind_proto = get_bind_icmp_proto bd,
      bind_port = 0\<rparr>"

definition BPF_MAX_BINDS :: u32 where
  "BPF_MAX_BINDS = 4096"

text \<open>
  The port loop counts in \<open>uint16\<close>, so \<open>p <= port_end\<close> is always true when \<open>port_end\<close> is 65535. It
  ends because the number of binds is limited.
\<close>

function (sequential) bind_port_loop ::
    "ebpf_ops \<Rightarrow> glb_fwd_config_content_table_bind \<Rightarrow> u32 \<Rightarrow> u16 \<Rightarrow> u16 \<Rightarrow> u32 \<Rightarrow> (glb_bind \<rightharpoonup> u32) \<Rightarrow>
     go_failure + u32 \<times> (glb_bind \<rightharpoonup> u32)" where
  "bind_port_loop P bd i port_end p total_binds binds =
     (if p \<le> port_end then
        if total_binds = BPF_MAX_BINDS then Inl LogFatal
        else case put_bind P (port_bind_key bd p) i binds of
               None \<Rightarrow> Inl LogFatal
             | Some binds \<Rightarrow> bind_port_loop P bd i port_end (p + 1) (total_binds + 1) binds
      else Inr (total_binds, binds))"
  by pat_completeness auto

lemma unat_minus_Suc:
  fixes a b :: u32
  assumes "a \<noteq> b"
  shows "unat (b - (a + 1)) < unat (b - a)"
proof -
  have "b - a \<noteq> 0" using assms by simp
  moreover have "b - (a + 1) = (b - a) - 1" by simp
  ultimately show ?thesis by (metis measure_unat)
qed

termination bind_port_loop
  by (relation "measure (\<lambda>(P, bd, i, port_end, p, total_binds, binds). unat (BPF_MAX_BINDS - total_binds))")
     (simp_all add: unat_minus_Suc)

declare bind_port_loop.simps [simp del]

definition load_bind ::
    "ebpf_ops \<Rightarrow> bytes \<Rightarrow> nat \<Rightarrow> nat \<Rightarrow> u32 \<times> (glb_bind \<rightharpoonup> u32) \<Rightarrow> go_failure + u32 \<times> (glb_bind \<rightharpoonup> u32)" where
  "load_bind P srcTable i b s =
     (if b \<ge> GLB_FMT_MAX_NUM_BINDS then Inl GoPanic
      else
        let bindEntry = table_bind srcTable b
        in bind_res (bind_port_loop P bindEntry (of_nat i) (bd_port_end bindEntry) (bd_port_start bindEntry)
                       (fst s) (snd s))
             (\<lambda>(total_binds, binds).
                if total_binds = BPF_MAX_BINDS then Inl LogFatal
                else case put_bind P (icmp_bind_key bindEntry) (of_nat i) binds of
                       None \<Rightarrow> Inl LogFatal
                     | Some binds \<Rightarrow> Inr (total_binds + 1, binds)))"

definition load_row :: "ebpf_ops \<Rightarrow> bytes \<Rightarrow> nat \<Rightarrow> bpf_table \<Rightarrow> go_failure + bpf_table" where
  "load_row P srcTable e table =
     (let tableEntry = table_entry_at srcTable e
      in if unat (te_primary tableEntry) \<ge> GLB_FMT_MAX_NUM_BACKENDS \<or>
            unat (te_secondary tableEntry) \<ge> GLB_FMT_MAX_NUM_BACKENDS then Inl GoPanic
         else case put_row P (of_nat e)
                     (get_backend_ipv4 (table_backend srcTable (unat (te_primary tableEntry))),
                      get_backend_ipv4 (table_backend srcTable (unat (te_secondary tableEntry)))) table of
                None \<Rightarrow> Inl LogFatal
              | Some table \<Rightarrow> Inr table)"

definition load_table ::
    "ebpf_ops \<Rightarrow> bytes \<Rightarrow> nat \<Rightarrow> u32 \<times> bpf_maps \<Rightarrow> go_failure + u32 \<times> bpf_maps" where
  "load_table P raw i s =
     (let srcTable = content_table raw i; maps = snd s
      in case new_map P i of
           None \<Rightarrow> Inl LogFatal
         | Some table \<Rightarrow>
         bind_res (fold_res (load_row P srcTable) [0..<GLB_FMT_TABLE_ENTRIES] table) (\<lambda>table.
         case put_table P (of_nat i) table (glb_tables maps) of
           None \<Rightarrow> Inl LogFatal
         | Some tables \<Rightarrow>
         case put_secret P (of_nat i) (table_secure_key srcTable) (glb_table_secrets maps) of
           None \<Rightarrow> Inl LogFatal
         | Some secrets \<Rightarrow>
         bind_res (fold_res (load_bind P srcTable i) [0..<unat (table_num_binds srcTable)]
                     (fst s, glb_binds maps)) (\<lambda>(total_binds, binds).
         Inr (total_binds, maps\<lparr>glb_tables := tables, glb_table_secrets := secrets, glb_binds := binds\<rparr>))))"

definition load_tables :: "ebpf_ops \<Rightarrow> bytes \<Rightarrow> bpf_maps \<Rightarrow> go_failure + u32 \<times> bpf_maps" where
  "load_tables P raw maps =
     fold_res (load_table P raw) [0..<unat (content_num_tables raw)] (0, maps)"

text \<open>The C loader is compiled with \<open>NO_DPDK\<close>: no classifier is built.\<close>

definition ReloadForwardingTable ::
    "ebpf_ops \<Rightarrow> bytes option \<Rightarrow> nat option \<Rightarrow> bool \<Rightarrow> ctx_heap \<Rightarrow> bpf_maps \<Rightarrow>
     go_failure + ctx_heap option \<times> bpf_maps" where
  "ReloadForwardingTable P file ctx_at copy_ok h maps =
     (case create_glb_fwd_config (\<lambda>_. 0) file ctx_at copy_ok h of
        None \<Rightarrow> Inl ExitProcess1
      | Some (h, fwdConfig) \<Rightarrow>
      case Option.bind fwdConfig h of
        None \<Rightarrow> Inl GoPanic
      | Some c \<Rightarrow>
      bind_res (load_tables P (raw_config c) maps) (\<lambda>(total_binds, maps).
        Inr (glb_fwd_config_ctx_decref h fwdConfig, maps)))"

subsection \<open>What a successful load leaves in the maps\<close>

text \<open>What the code relies on of \<open>Put\<close>: when it reports success, the map holds the value at the key.\<close>

definition put_laws :: "ebpf_ops \<Rightarrow> bool" where
  "put_laws P \<longleftrightarrow>
     (\<forall>k v m m'. put_config P k v m = Some m' \<longrightarrow> m' = m(k \<mapsto> v)) \<and>
     (\<forall>k v m m'. put_bind P k v m = Some m' \<longrightarrow> m' = m(k \<mapsto> v)) \<and>
     (\<forall>k v m m'. put_table P k v m = Some m' \<longrightarrow> m' = m(k \<mapsto> v)) \<and>
     (\<forall>k v m m'. put_secret P k v m = Some m' \<longrightarrow> m' = m(k \<mapsto> v)) \<and>
     (\<forall>k v m m'. put_row P k v m = Some m' \<longrightarrow> m' = m(k \<mapsto> v))"

lemma put_lawsD:
  assumes "put_laws P"
  shows "put_config P k v m = Some m' \<Longrightarrow> m' = m(k \<mapsto> v)"
    "put_bind P kb i b = Some b' \<Longrightarrow> b' = b(kb \<mapsto> i)"
    "put_table P k t ts = Some ts' \<Longrightarrow> ts' = ts(k \<mapsto> t)"
    "put_secret P k v m = Some m' \<Longrightarrow> m' = m(k \<mapsto> v)"
    "put_row P k r rows = Some rows' \<Longrightarrow> rows' = rows(k \<mapsto> r)"
  using assms unfolding put_laws_def by blast+

lemma fold_res_append:
  "fold_res f (xs @ ys) a = bind_res (fold_res f xs a) (fold_res f ys)"
proof (induction xs arbitrary: a)
  case (Cons x xs)
  then show ?case by (cases "f x a") simp_all
qed simp

lemma fold_res_snoc:
  "fold_res f (xs @ [x]) a = bind_res (fold_res f xs a) (f x)"
proof -
  have "bind_res r Inr = r" for r :: "'a + 'b" by (cases r) simp_all
  moreover have "fold_res f [] = Inr" by (rule ext) simp
  ultimately show ?thesis by (cases "fold_res f xs a") (simp_all add: fold_res_append)
qed

lemma of_nat_u32_eq:
  "a < 2 ^ 32 \<Longrightarrow> b < 2 ^ 32 \<Longrightarrow> (of_nat a :: u32) = of_nat b \<longleftrightarrow> a = b"
  by (simp add: word_of_nat_eq_iff take_bit_eq_mod)

lemma load_rows_loaded:
  assumes "put_laws P" "n \<le> GLB_FMT_TABLE_ENTRIES"
    and "fold_res (load_row P t) [0..<n] rows = Inr rows'" "r < n"
  shows "rows' (of_nat r) = Some (row_hops t r ! 0, row_hops t r ! 1)"
  using assms(2-)
proof (induction n arbitrary: rows')
  case (Suc n)
  from Suc.prems obtain rows1 where r1: "fold_res (load_row P t) [0..<n] rows = Inr rows1"
    "load_row P t n rows1 = Inr rows'"
    by (auto simp: fold_res_snoc bind_res_Inr)
  have upd: "rows' = rows1(of_nat n \<mapsto> (row_hops t n ! 0, row_hops t n ! 1))"
    using r1(2) put_lawsD(5) [OF assms(1)]
    by (auto simp: load_row_def Let_def row_hops_def get_backend_ipv4_def split: if_splits option.splits)
  show ?case
  proof (cases "r = n")
    case False
    then have "(of_nat r :: u32) \<noteq> of_nat n"
      using Suc.prems(1,3) of_nat_u32_eq [of r n] by simp
    then show ?thesis
      using upd Suc.IH [OF _ r1(1)] Suc.prems(1,3) False by simp
  qed (simp add: upd)
qed simp

text \<open>The keys under which a bind is entered.\<close>

definition covers :: "glb_fwd_config_content_table_bind \<Rightarrow> glb_bind \<Rightarrow> bool" where
  "covers bd k \<longleftrightarrow>
     (let p = ntohs (bind_port k)
      in k = port_bind_key bd p \<and> bd_port_start bd \<le> p \<and> p \<le> bd_port_end bd) \<or>
     k = icmp_bind_key bd"

definition table_covers :: "bytes \<Rightarrow> glb_bind \<Rightarrow> bool" where
  "table_covers t k \<longleftrightarrow> (\<exists>b < unat (table_num_binds t). covers (table_bind t b) k)"

text \<open>The table that owns a key: the last one with a bind for it.\<close>

fun bind_owner :: "bytes \<Rightarrow> nat \<Rightarrow> glb_bind \<Rightarrow> nat option" where
  "bind_owner raw 0 k = None"
| "bind_owner raw (Suc i) k = (if table_covers (content_table raw i) k then Some i else bind_owner raw i k)"

lemma port_range_step:
  fixes p e q :: u16
  assumes "p \<le> e" "e \<noteq> 0xffff"
  shows "p \<le> q \<and> q \<le> e \<longleftrightarrow> q = p \<or> (p + 1 \<le> q \<and> q \<le> e)"
proof -
  have "unat e \<noteq> 0xffff"
    using assms(2) by (simp add: word_unat_eq_iff)
  moreover have "unat e < 0x10000" using unsigned_less [of e, where ?'a = nat] by simp
  ultimately have "unat (p + 1) = unat p + 1"
    using assms(1) by (subst unat_add_lem [THEN iffD1]) (simp_all add: word_le_nat_alt)
  then show ?thesis
    using assms(1) by (auto simp: word_le_nat_alt word_unat_eq_iff)
qed

text \<open>A bind that ends at port 65535 never loads: the loop runs until the binds are exhausted.\<close>

lemma bind_port_loop_max: "bind_port_loop P bd i 0xffff p n binds = Inl LogFatal"
proof (induction P bd i "0xffff :: u16" p n binds rule: bind_port_loop.induct)
  case (1 P bd i p n binds)
  have "p \<le> 0xffff"
    using unsigned_less [of p, where ?'a = nat] by (simp add: word_le_nat_alt)
  with 1 show ?case
    by (auto simp: bind_port_loop.simps [of P bd i "0xffff" p] split: option.splits)
qed

lemma bind_port_loop_Inr:
  assumes "put_laws P" "bind_port_loop P bd i e p n binds = Inr (n', binds')"
  shows "binds' k = (if \<exists>q. p \<le> q \<and> q \<le> e \<and> k = port_bind_key bd q then Some i else binds k)"
  using assms
proof (induction P bd i e p n binds rule: bind_port_loop.induct)
  case (1 P bd i e p n binds)
  note laws = "1.prems"(1) and res = "1.prems"(2)
  show ?case
  proof (cases "p \<le> e")
    case False
    then have "\<not> (p \<le> q \<and> q \<le> e)" for q by auto
    then show ?thesis using res False by (auto simp: bind_port_loop.simps [of P bd i e p])
  next
    case True
    have e: "e \<noteq> 0xffff" using res bind_port_loop_max [of P bd i p n binds] by auto
    from True res obtain b1 where b1: "n \<noteq> BPF_MAX_BINDS"
      "put_bind P (port_bind_key bd p) i binds = Some b1"
      "bind_port_loop P bd i e (p + 1) (n + 1) b1 = Inr (n', binds')"
      by (auto simp: bind_port_loop.simps [of P bd i e p] split: if_splits option.splits)
    have "binds' k = (if \<exists>q. p + 1 \<le> q \<and> q \<le> e \<and> k = port_bind_key bd q then Some i else b1 k)"
      by (rule "1.IH" [OF True b1(1,2) laws b1(3)])
    moreover have "b1 = binds(port_bind_key bd p \<mapsto> i)"
      by (rule put_lawsD(2) [OF laws b1(2)])
    moreover have "(\<exists>q. p \<le> q \<and> q \<le> e \<and> k = port_bind_key bd q) \<longleftrightarrow>
        k = port_bind_key bd p \<or> (\<exists>q. p + 1 \<le> q \<and> q \<le> e \<and> k = port_bind_key bd q)"
    proof -
      have "p \<le> q \<and> q \<le> e \<and> k = port_bind_key bd q \<longleftrightarrow>
          q = p \<and> k = port_bind_key bd q \<or> p + 1 \<le> q \<and> q \<le> e \<and> k = port_bind_key bd q" for q
        using port_range_step [OF True e, of q] by argo
      then show ?thesis by (simp add: ex_disj_distrib)
    qed
    ultimately show ?thesis by auto
  qed
qed

lemma covers_iff:
  "covers bd k \<longleftrightarrow>
     (\<exists>q. bd_port_start bd \<le> q \<and> q \<le> bd_port_end bd \<and> k = port_bind_key bd q) \<or> k = icmp_bind_key bd"
  by (auto simp: covers_def Let_def port_bind_key_def)

lemma load_bind_Inr:
  assumes "put_laws P" "load_bind P t i b s = Inr s'"
  shows "snd s' k = (if covers (table_bind t b) k then Some (of_nat i) else snd s k)"
proof -
  let ?bd = "table_bind t b"
  obtain n1 b1 b2 where b1: "bind_port_loop P ?bd (of_nat i) (bd_port_end ?bd) (bd_port_start ?bd)
      (fst s) (snd s) = Inr (n1, b1)"
    "put_bind P (icmp_bind_key ?bd) (of_nat i) b1 = Some b2" "s' = (n1 + 1, b2)"
    using assms(2) by (auto simp: load_bind_def Let_def bind_res_Inr split: if_splits option.splits)
  then show ?thesis
    using bind_port_loop_Inr [OF assms(1) b1(1), of k] put_lawsD(2) [OF assms(1) b1(2)]
    by (auto simp: covers_iff)
qed

lemma load_binds_Inr:
  assumes "put_laws P" "fold_res (load_bind P t i) [0..<n] s = Inr s'"
  shows "snd s' k = (if \<exists>b < n. covers (table_bind t b) k then Some (of_nat i) else snd s k)"
  using assms(2)
proof (induction n arbitrary: s')
  case (Suc n)
  then obtain s1 where s1: "fold_res (load_bind P t i) [0..<n] s = Inr s1" "load_bind P t i n s1 = Inr s'"
    by (auto simp: fold_res_snoc bind_res_Inr)
  then show ?case
    using Suc.IH [OF s1(1)] load_bind_Inr [OF assms(1) s1(2), of k] by (auto simp: less_Suc_eq)
qed simp

lemma load_table_steps:
  assumes "load_table P raw i s = Inr s'"
  obtains rows0 rows tables secrets n binds where
    "fold_res (load_row P (content_table raw i)) [0..<GLB_FMT_TABLE_ENTRIES] rows0 = Inr rows"
    "put_table P (of_nat i) rows (glb_tables (snd s)) = Some tables"
    "put_secret P (of_nat i) (table_secure_key (content_table raw i)) (glb_table_secrets (snd s)) = Some secrets"
    "fold_res (load_bind P (content_table raw i) i) [0..<unat (table_num_binds (content_table raw i))]
       (fst s, glb_binds (snd s)) = Inr (n, binds)"
    "s' = (n, (snd s)\<lparr>glb_tables := tables, glb_table_secrets := secrets, glb_binds := binds\<rparr>)"
proof -
  from assms obtain rows0 where "new_map P i = Some rows0"
    by (auto simp: load_table_def Let_def split: option.splits)
  moreover from assms this obtain rows where
    "fold_res (load_row P (content_table raw i)) [0..<GLB_FMT_TABLE_ENTRIES] rows0 = Inr rows"
    by (auto simp: load_table_def Let_def bind_res_Inr)
  ultimately show ?thesis
    using assms that [of rows0 rows]
    by (auto simp: load_table_def Let_def bind_res_Inr split: option.splits)
qed

lemma load_table_Inr:
  assumes "put_laws P" "load_table P raw i s = Inr s'"
  obtains rows where
    "glb_tables (snd s') = (glb_tables (snd s))(of_nat i \<mapsto> rows)"
    "\<And>r. r < GLB_FMT_TABLE_ENTRIES \<Longrightarrow> rows (of_nat r) =
       Some (row_hops (content_table raw i) r ! 0, row_hops (content_table raw i) r ! 1)"
    "glb_table_secrets (snd s') =
       (glb_table_secrets (snd s))(of_nat i \<mapsto> table_secure_key (content_table raw i))"
    "\<And>k. glb_binds (snd s') k =
       (if table_covers (content_table raw i) k then Some (of_nat i) else glb_binds (snd s) k)"
    "config_bits (snd s') = config_bits (snd s)"
    "glb_global_packet_counters (snd s') = glb_global_packet_counters (snd s)"
proof -
  let ?t = "content_table raw i"
  obtain rows0 rows tables secrets n binds where
    r: "fold_res (load_row P ?t) [0..<GLB_FMT_TABLE_ENTRIES] rows0 = Inr rows"
    and t: "put_table P (of_nat i) rows (glb_tables (snd s)) = Some tables"
    and k: "put_secret P (of_nat i) (table_secure_key ?t) (glb_table_secrets (snd s)) = Some secrets"
    and b: "fold_res (load_bind P ?t i) [0..<unat (table_num_binds ?t)] (fst s, glb_binds (snd s)) = Inr (n, binds)"
    and s': "s' = (n, (snd s)\<lparr>glb_tables := tables, glb_table_secrets := secrets, glb_binds := binds\<rparr>)"
    by (rule load_table_steps [OF assms(2)])
  show ?thesis
  proof (rule that [of rows])
    show "rows (of_nat q) = Some (row_hops ?t q ! 0, row_hops ?t q ! 1)" if "q < GLB_FMT_TABLE_ENTRIES" for q
      by (rule load_rows_loaded [OF assms(1) order.refl r that])
    show "glb_binds (snd s') q = (if table_covers ?t q then Some (of_nat i) else glb_binds (snd s) q)" for q
      using load_binds_Inr [OF assms(1) b, of q] unfolding table_covers_def s' by auto
  qed (use put_lawsD(3) [OF assms(1) t] put_lawsD(4) [OF assms(1) k] in \<open>simp_all add: s'\<close>)
qed

lemma load_tables_upto:
  assumes "put_laws P" "n < 2 ^ 32" "fold_res (load_table P raw) [0..<n] s = Inr s'"
  shows "(\<forall>i < n. table_loaded raw i (snd s')) \<and>
    (\<forall>k. glb_binds (snd s') k =
       (case bind_owner raw n k of Some i \<Rightarrow> Some (of_nat i) | None \<Rightarrow> glb_binds (snd s) k)) \<and>
    config_bits (snd s') = config_bits (snd s) \<and>
    glb_global_packet_counters (snd s') = glb_global_packet_counters (snd s)"
  using assms(2,3)
proof (induction n arbitrary: s')
  case (Suc n)
  then obtain s1 where s1: "fold_res (load_table P raw) [0..<n] s = Inr s1" "load_table P raw n s1 = Inr s'"
    by (auto simp: fold_res_snoc bind_res_Inr)
  note IH = Suc.IH [OF _ s1(1)]
  from assms(1) s1(2) show ?case
  proof (rule load_table_Inr)
    fix rows
    assume new: "glb_tables (snd s') = (glb_tables (snd s1))(of_nat n \<mapsto> rows)"
      "\<And>r. r < GLB_FMT_TABLE_ENTRIES \<Longrightarrow> rows (of_nat r) =
         Some (row_hops (content_table raw n) r ! 0, row_hops (content_table raw n) r ! 1)"
      "glb_table_secrets (snd s') =
         (glb_table_secrets (snd s1))(of_nat n \<mapsto> table_secure_key (content_table raw n))"
      "\<And>k. glb_binds (snd s') k =
         (if table_covers (content_table raw n) k then Some (of_nat n) else glb_binds (snd s1) k)"
      "config_bits (snd s') = config_bits (snd s1)"
      "glb_global_packet_counters (snd s') = glb_global_packet_counters (snd s1)"
    have "table_loaded raw n (snd s')"
      using new(1-3) by (simp add: table_loaded_def)
    moreover have "table_loaded raw i (snd s')" if "i < n" for i
    proof -
      have "(of_nat i :: u32) \<noteq> of_nat n"
        using that Suc.prems(1) of_nat_u32_eq [of i n] by simp
      moreover have "table_loaded raw i (snd s1)" using IH Suc.prems(1) that by simp
      ultimately show ?thesis using new(1,3) by (simp add: table_loaded_def)
    qed
    ultimately show ?thesis
      using IH Suc.prems(1) new(4-6) by (auto simp: less_Suc_eq)
  qed
qed simp

lemma load_tables_Inr:
  assumes "put_laws P" "load_tables P raw maps = Inr (n, maps')"
  shows "i < unat (content_num_tables raw) \<Longrightarrow> table_loaded raw i maps'"
    and "glb_binds maps' k = (case bind_owner raw (unat (content_num_tables raw)) k of
           Some i \<Rightarrow> Some (of_nat i) | None \<Rightarrow> glb_binds maps k)"
    and "config_bits maps' = config_bits maps"
    and "glb_global_packet_counters maps' = glb_global_packet_counters maps"
proof -
  have "unat (content_num_tables raw) < 2 ^ 32"
    using unsigned_less [of "content_num_tables raw", where ?'a = nat] by simp
  from load_tables_upto [OF assms(1) this assms(2) [unfolded load_tables_def], unfolded snd_conv]
  show "i < unat (content_num_tables raw) \<Longrightarrow> table_loaded raw i maps'"
    and "glb_binds maps' k = (case bind_owner raw (unat (content_num_tables raw)) k of
           Some i \<Rightarrow> Some (of_nat i) | None \<Rightarrow> glb_binds maps k)"
    and "config_bits maps' = config_bits maps"
    and "glb_global_packet_counters maps' = glb_global_packet_counters maps"
    by simp_all
qed

text \<open>
  The settings. \<open>config_puts\<close>: entering one of the five values of \<open>config_bits\<close> does not fail.
  \<open>go_settings\<close> are the settings of the DPDK director that correspond to those of the XDP director.
\<close>

definition config_puts :: "ebpf_ops \<Rightarrow> bool" where
  "config_puts P \<longleftrightarrow> (\<forall>k v m. k < 5 \<longrightarrow> put_config P k v m \<noteq> None)"

definition go_settings ::
    "glb_director_config \<Rightarrow> (string \<Rightarrow> bytes option) \<Rightarrow> (string \<Rightarrow> bytes option) \<Rightarrow> go_config \<Rightarrow>
     glb_director_config" where
  "go_settings cfg ParseMAC ParseIP4 gc =
     cfg\<lparr>gateway_ether_addr := le_word (the (ParseMAC (OutboundGatewayMAC gc))),
         local_ip_addr := le_word (take 4 (the (ParseIP4 (OutboundSourceIP gc)))),
         hash_fields := (case HashFields gc of None \<Rightarrow> zero_hash_fields\<lparr>hf_src_addr := True\<rparr> | Some hf \<Rightarrow> hf),
         use_alt_hash_fields := AltHashFields gc \<noteq> None,
         alt_hash_fields := (case AltHashFields gc of None \<Rightarrow> zero_hash_fields | Some hf \<Rightarrow> hf)\<rparr>"

lemma xdp_hash_fields_go [simp]: "xdp_hash_fields (go_hash_fields hf) = hf"
  by (cases hf) (simp add: xdp_hash_fields_def go_hash_fields_def boolToC_def get_field_def)

lemma put_config_ignored_eq:
  "put_laws P \<Longrightarrow> config_puts P \<Longrightarrow> k < 5 \<Longrightarrow> put_config_ignored P k v m = m(k \<mapsto> v)"
  using put_lawsD(1) [of P k v m]
  by (auto simp: put_config_ignored_def config_puts_def split: option.splits)

lemma SyncConfigMap_loaded:
  assumes "put_laws P" "config_puts P" "SyncConfigMap P ParseMAC ParseIP4 gc maps = Inr maps'"
    and "\<And>ip. ParseIP4 (OutboundSourceIP gc) = Some ip \<Longrightarrow> length ip = 4"
  shows "config_loaded (go_settings cfg ParseMAC ParseIP4 gc) maps'"
    and "maps'\<lparr>config_bits := config_bits maps\<rparr> = maps"
proof -
  from assms(3) obtain mac ip where m: "ParseMAC (OutboundGatewayMAC gc) = Some mac" "length mac = 6"
    "ParseIP4 (OutboundSourceIP gc) = Some ip"
    by (auto simp: SyncConfigMap_def split: option.splits if_splits)
  have ip: "length ip = 4" by (rule assms(4) [OF m(3)])
  note put = put_config_ignored_eq [OF assms(1,2)]
  have maps': "maps' = maps\<lparr>config_bits := (config_bits maps)(0 \<mapsto> mac, 1 \<mapsto> ip @ drop 4 mac,
      2 \<mapsto> boolToC (ForwardICMPPingResponses gc) # tl (ip @ drop 4 mac),
      3 \<mapsto> go_hash_fields (case HashFields gc of None \<Rightarrow> zero_hash_fields\<lparr>hf_src_addr := True\<rparr> | Some hf \<Rightarrow> hf),
      4 \<mapsto> go_hash_fields (case AltHashFields gc of None \<Rightarrow> zero_hash_fields | Some hf \<Rightarrow> hf))\<rparr>"
    using assms(3) m ip by (simp add: SyncConfigMap_def Let_def put)
  show "config_loaded (go_settings cfg ParseMAC ParseIP4 gc) maps'"
    using m ip
    by (auto simp: config_loaded_def maps' go_settings_def get_field_def split: option.splits)
  show "maps'\<lparr>config_bits := config_bits maps\<rparr> = maps"
    by (simp add: maps')
qed

subsection \<open>When a load succeeds\<close>

text \<open>
  What \<open>Put\<close> promises for maps of the sizes that are declared: 4096 binds, 4096 tables and secrets,
  65536 rows in a table.
\<close>

definition puts_succeed :: "ebpf_ops \<Rightarrow> bool" where
  "puts_succeed P \<longleftrightarrow>
     (\<forall>k v m. finite (dom m) \<longrightarrow> card (dom m) < 4096 \<longrightarrow> put_bind P k v m \<noteq> None) \<and>
     (\<forall>k v m. unat k < 4096 \<longrightarrow> put_table P k v m \<noteq> None) \<and>
     (\<forall>k v m. unat k < 4096 \<longrightarrow> put_secret P k v m \<noteq> None) \<and>
     (\<forall>k v m. unat k < GLB_FMT_TABLE_ENTRIES \<longrightarrow> put_row P k v m \<noteq> None) \<and>
     (\<forall>i. new_map P i \<noteq> None)"

definition port_count :: "u16 \<Rightarrow> u16 \<Rightarrow> nat" where
  "port_count p e = (if p \<le> e then unat e - unat p + 1 else 0)"

definition bind_count :: "glb_fwd_config_content_table_bind \<Rightarrow> nat" where
  "bind_count bd = port_count (bd_port_start bd) (bd_port_end bd) + 1"

definition table_bind_count :: "bytes \<Rightarrow> nat \<Rightarrow> nat" where
  "table_bind_count t n = (\<Sum>b < n. bind_count (table_bind t b))"

definition total_bind_count :: "bytes \<Rightarrow> nat \<Rightarrow> nat" where
  "total_bind_count raw n =
     (\<Sum>i < n. table_bind_count (content_table raw i) (unat (table_num_binds (content_table raw i))))"

text \<open>The number of binds entered so far bounds the keys of the map.\<close>

definition binds_within :: "nat \<Rightarrow> u32 \<times> (glb_bind \<rightharpoonup> u32) \<Rightarrow> bool" where
  "binds_within n s \<longleftrightarrow> unat (fst s) = n \<and> finite (dom (snd s)) \<and> card (dom (snd s)) \<le> n"

lemma binds_within_put:
  assumes "put_laws P" "puts_succeed P" "binds_within n (c, binds)" "n < 4096"
  obtains binds' where "put_bind P k i binds = Some binds'" "binds_within (n + 1) (c + 1, binds')"
    "c \<noteq> BPF_MAX_BINDS"
proof -
  have f: "unat c = n" "finite (dom binds)" "card (dom binds) \<le> n"
    using assms(3) by (simp_all add: binds_within_def)
  then obtain binds' where p: "put_bind P k i binds = Some binds'"
    using assms(2,4) unfolding puts_succeed_def by (metis le_less_trans not_None_eq)
  have "binds' = binds(k \<mapsto> i)" by (rule put_lawsD(2) [OF assms(1) p])
  moreover have "card (insert k (dom binds)) \<le> n + 1"
    using f(2,3) by (metis Suc_eq_plus1 card_insert_le_m1 card_insert_if le_SucI Suc_le_mono)
  moreover have "unat (c + 1) = n + 1"
    using f(1) assms(4) by (subst unat_add_lem [THEN iffD1]) simp_all
  moreover have "c \<noteq> BPF_MAX_BINDS" using f(1) assms(4) by (auto simp: BPF_MAX_BINDS_def)
  ultimately show ?thesis
    using f p that [of binds'] by (simp add: binds_within_def)
qed

lemma port_count_step:
  assumes "p \<le> e" "e \<noteq> 0xffff"
  shows "port_count p e = port_count (p + 1) e + 1"
proof -
  have "unat e \<noteq> 0xffff" using assms(2) by (simp add: word_unat_eq_iff)
  moreover have "unat e < 0x10000" using unsigned_less [of e, where ?'a = nat] by simp
  ultimately have "unat (p + 1) = unat p + 1"
    using assms(1) by (subst unat_add_lem [THEN iffD1]) (simp_all add: word_le_nat_alt)
  then show ?thesis using assms(1) by (auto simp: port_count_def word_le_nat_alt)
qed

lemma bind_port_loop_total:
  assumes "put_laws P" "puts_succeed P" "e \<noteq> 0xffff" "binds_within n (c, binds)" "n + port_count p e \<le> 4096"
  shows "\<exists>s. bind_port_loop P bd i e p c binds = Inr s \<and> binds_within (n + port_count p e) s"
  using assms
proof (induction P bd i e p c binds arbitrary: n rule: bind_port_loop.induct)
  case (1 P bd i e p c binds)
  note laws = "1.prems"(1,2) and e = "1.prems"(3) and bw = "1.prems"(4) and le = "1.prems"(5)
  show ?case
  proof (cases "p \<le> e")
    case False
    then show ?thesis using bw by (simp add: bind_port_loop.simps [of P bd i e p] port_count_def)
  next
    case True
    note st = port_count_step [OF True e]
    have "n < 4096" using le st by simp
    then obtain b1 where b1: "put_bind P (port_bind_key bd p) i binds = Some b1"
      "binds_within (n + 1) (c + 1, b1)" "c \<noteq> BPF_MAX_BINDS"
      using binds_within_put [OF laws bw] by blast
    have "\<exists>s. bind_port_loop P bd i e (p + 1) (c + 1) b1 = Inr s \<and> binds_within (n + 1 + port_count (p + 1) e) s"
      using le st by (intro "1.IH" [OF True b1(3,1) laws e b1(2)]) simp
    then show ?thesis
      using True b1 st by (simp add: bind_port_loop.simps [of P bd i e p])
  qed
qed

lemma load_bind_total:
  assumes "put_laws P" "puts_succeed P" "b < GLB_FMT_MAX_NUM_BINDS" "bd_port_end (table_bind t b) \<noteq> 0xffff"
    and "binds_within n s" "n + bind_count (table_bind t b) \<le> 4096"
  shows "\<exists>s'. load_bind P t i b s = Inr s' \<and> binds_within (n + bind_count (table_bind t b)) s'"
proof -
  let ?bd = "table_bind t b"
  obtain c binds where s: "s = (c, binds)" by fastforce
  from bind_port_loop_total [OF assms(1,2,4), of n c binds "bd_port_start ?bd" ?bd "of_nat i"] assms(5,6)
  obtain c1 b1 where l: "bind_port_loop P ?bd (of_nat i) (bd_port_end ?bd) (bd_port_start ?bd) c binds = Inr (c1, b1)"
    "binds_within (n + port_count (bd_port_start ?bd) (bd_port_end ?bd)) (c1, b1)"
    by (auto simp: s bind_count_def)
  have "n + port_count (bd_port_start ?bd) (bd_port_end ?bd) < 4096"
    using assms(6) by (simp add: bind_count_def)
  from binds_within_put [OF assms(1,2) l(2) this, of "icmp_bind_key ?bd" "of_nat i"]
  obtain b2 where "put_bind P (icmp_bind_key ?bd) (of_nat i) b1 = Some b2" "c1 \<noteq> BPF_MAX_BINDS"
    "binds_within (n + port_count (bd_port_start ?bd) (bd_port_end ?bd) + 1) (c1 + 1, b2)"
    by blast
  then show ?thesis
    using assms(3) l(1) by (simp add: load_bind_def Let_def s bind_count_def)
qed

lemma load_binds_total:
  assumes "put_laws P" "puts_succeed P" "m \<le> GLB_FMT_MAX_NUM_BINDS"
    and "\<And>b. b < m \<Longrightarrow> bd_port_end (table_bind t b) \<noteq> 0xffff"
    and "binds_within n s" "n + table_bind_count t m \<le> 4096"
  shows "\<exists>s'. fold_res (load_bind P t i) [0..<m] s = Inr s' \<and> binds_within (n + table_bind_count t m) s'"
  using assms(3-)
proof (induction m)
  case (Suc m)
  then obtain s1 where s1: "fold_res (load_bind P t i) [0..<m] s = Inr s1"
    "binds_within (n + table_bind_count t m) s1"
    by (auto simp: table_bind_count_def)
  have "\<exists>s'. load_bind P t i m s1 = Inr s' \<and>
      binds_within (n + table_bind_count t m + bind_count (table_bind t m)) s'"
    using Suc.prems by (intro load_bind_total [OF assms(1,2) _ _ s1(2)]) (simp_all add: table_bind_count_def)
  then show ?case
    using s1(1) by (auto simp: fold_res_snoc table_bind_count_def add.assoc)
qed (simp add: table_bind_count_def)

definition rows_in_range :: "bytes \<Rightarrow> bool" where
  "rows_in_range t \<longleftrightarrow>
     (\<forall>e < GLB_FMT_TABLE_ENTRIES. unat (te_primary (table_entry_at t e)) < GLB_FMT_MAX_NUM_BACKENDS \<and>
        unat (te_secondary (table_entry_at t e)) < GLB_FMT_MAX_NUM_BACKENDS)"

lemma load_rows_total:
  assumes "puts_succeed P" "rows_in_range t" "n \<le> GLB_FMT_TABLE_ENTRIES"
  shows "\<exists>rows'. fold_res (load_row P t) [0..<n] rows = Inr rows'"
  using assms(3)
proof (induction n)
  case (Suc n)
  then obtain rows1 where r1: "fold_res (load_row P t) [0..<n] rows = Inr rows1" by auto
  have "unat (of_nat n :: u32) < GLB_FMT_TABLE_ENTRIES"
    using Suc.prems by (simp add: unat_of_nat)
  then have "put_row P (of_nat n) v rows1 \<noteq> None" for v
    using assms(1) unfolding puts_succeed_def by blast
  then have "\<exists>rows'. load_row P t n rows1 = Inr rows'"
    using assms(2) Suc.prems
    by (auto simp: load_row_def Let_def rows_in_range_def not_le split: option.splits)
  then show ?case using r1 by (auto simp: fold_res_snoc)
qed simp

text \<open>A table that fits: rows that name backends, binds within the array, no bind that ends at 65535.\<close>

definition loadable_table :: "bytes \<Rightarrow> bool" where
  "loadable_table t \<longleftrightarrow> rows_in_range t \<and> unat (table_num_binds t) \<le> GLB_FMT_MAX_NUM_BINDS \<and>
     (\<forall>b < unat (table_num_binds t). bd_port_end (table_bind t b) \<noteq> 0xffff)"

lemma load_table_total:
  assumes "put_laws P" "puts_succeed P" "loadable_table (content_table raw i)" "i < 4096"
    and "binds_within n (fst s, glb_binds (snd s))"
    and "n + table_bind_count (content_table raw i) (unat (table_num_binds (content_table raw i))) \<le> 4096"
  shows "\<exists>s'. load_table P raw i s = Inr s' \<and>
    binds_within (n + table_bind_count (content_table raw i) (unat (table_num_binds (content_table raw i))))
      (fst s', glb_binds (snd s'))"
proof -
  let ?t = "content_table raw i"
  have i: "unat (of_nat i :: u32) < 4096" using assms(4) by (simp add: unat_of_nat)
  obtain rows0 where r0: "new_map P i = Some rows0"
    using assms(2) unfolding puts_succeed_def by blast
  obtain rows where r: "fold_res (load_row P ?t) [0..<GLB_FMT_TABLE_ENTRIES] rows0 = Inr rows"
    using load_rows_total [OF assms(2) _ order.refl, of ?t rows0] assms(3) unfolding loadable_table_def by blast
  obtain tables where t: "put_table P (of_nat i) rows (glb_tables (snd s)) = Some tables"
    using assms(2) i unfolding puts_succeed_def by blast
  obtain secrets where k:
    "put_secret P (of_nat i) (table_secure_key ?t) (glb_table_secrets (snd s)) = Some secrets"
    using assms(2) i unfolding puts_succeed_def by blast
  obtain c binds where b:
    "fold_res (load_bind P ?t i) [0..<unat (table_num_binds ?t)] (fst s, glb_binds (snd s)) = Inr (c, binds)"
    "binds_within (n + table_bind_count ?t (unat (table_num_binds ?t))) (c, binds)"
    using load_binds_total [OF assms(1,2) _ _ assms(5,6), of i] assms(3) by (auto simp: loadable_table_def)
  show ?thesis
    unfolding load_table_def Let_def r0 option.case r bind_res.simps t k b(1) prod.case using b(2) by simp
qed

lemma load_tables_total:
  assumes "put_laws P" "puts_succeed P" "n \<le> 4096"
    and "\<And>i. i < n \<Longrightarrow> loadable_table (content_table raw i)"
    and "total_bind_count raw n \<le> 4096" "glb_binds maps = Map.empty"
  shows "\<exists>s. fold_res (load_table P raw) [0..<n] (0, maps) = Inr s \<and>
    binds_within (total_bind_count raw n) (fst s, glb_binds (snd s))"
  using assms(3-5)
proof (induction n)
  case 0
  then show ?case by (simp add: total_bind_count_def binds_within_def assms(6))
next
  case (Suc n)
  then obtain s1 where s1: "fold_res (load_table P raw) [0..<n] (0, maps) = Inr s1"
    "binds_within (total_bind_count raw n) (fst s1, glb_binds (snd s1))"
    by (auto simp: total_bind_count_def)
  have "\<exists>s'. load_table P raw n s1 = Inr s' \<and> binds_within (total_bind_count raw n +
      table_bind_count (content_table raw n) (unat (table_num_binds (content_table raw n))))
      (fst s', glb_binds (snd s'))"
    using Suc.prems by (intro load_table_total [OF assms(1,2) _ _ s1(2)]) (simp_all add: total_bind_count_def)
  then show ?case
    using s1(1) by (auto simp: fold_res_snoc total_bind_count_def)
qed

end
