(* ===== verification/Xdp_Main.thy ===== *)
theory Xdp_Main
  imports Xdp_Loader
begin

text \<open>
  The rest of \<open>src/glb-director-xdp/main.go\<close>: the reported statistics, the reload by starting a new
  process, and the start-up sequence, which loads all maps before it installs the program. The
  theorems state the behaviour of the whole XDP director: what an installed program has loaded, where
  it sends the packets of a bind, when loading succeeds, and that the reported numbers balance.
\<close>

subsection \<open>Statistics\<close>

definition diff_stats :: "glb_global_stats \<Rightarrow> glb_global_stats \<Rightarrow> glb_global_stats \<Rightarrow> glb_global_stats" where
  "diff_stats acc cur lst =
     \<lparr>Processed = Processed acc + (Processed cur - Processed lst),
      UnknownFormat = UnknownFormat acc + (UnknownFormat cur - UnknownFormat lst),
      NoMatchingBind = NoMatchingBind acc + (NoMatchingBind cur - NoMatchingBind lst),
      Matched = Matched acc + (Matched cur - Matched lst),
      Encapsulated = Encapsulated acc + (Encapsulated cur - Encapsulated lst),
      EncapsulatedBytes = EncapsulatedBytes acc + (EncapsulatedBytes cur - EncapsulatedBytes lst),
      ErrorTable = ErrorTable acc + (ErrorTable cur - ErrorTable lst),
      ErrorSecret = ErrorSecret acc + (ErrorSecret cur - ErrorSecret lst),
      ErrorHashConfig = ErrorHashConfig acc + (ErrorHashConfig cur - ErrorHashConfig lst),
      ErrorMissingRow = ErrorMissingRow acc + (ErrorMissingRow cur - ErrorMissingRow lst),
      ErrorCreatingSpace = ErrorCreatingSpace acc + (ErrorCreatingSpace cur - ErrorCreatingSpace lst),
      ErrorMissingGatewayMAC =
        ErrorMissingGatewayMAC acc + (ErrorMissingGatewayMAC cur - ErrorMissingGatewayMAC lst),
      ErrorMissingSourceAddress =
        ErrorMissingSourceAddress acc + (ErrorMissingSourceAddress cur - ErrorMissingSourceAddress lst)\<rparr>"

text \<open>One value per CPU. \<open>None\<close> is the panic of an index past the end of \<open>cur\<close>.\<close>

fun diff_loop :: "glb_global_stats \<Rightarrow> glb_global_stats list \<Rightarrow> glb_global_stats list \<Rightarrow> glb_global_stats option" where
  "diff_loop acc [] cur = Some acc"
| "diff_loop acc (l # lst) [] = None"
| "diff_loop acc (l # lst) (c # cur) = diff_loop (diff_stats acc c l) lst cur"

definition diffAndSumGlobalStats ::
    "glb_global_stats list \<Rightarrow> glb_global_stats list \<Rightarrow> glb_global_stats option" where
  "diffAndSumGlobalStats lst cur = diff_loop xdp_zero_stats lst cur"

type_synonym go_metric = "string \<times> u64 \<times> string list"

definition stats_metrics :: "glb_global_stats \<Rightarrow> go_metric list" where
  "stats_metrics acc =
     [(''packets.processed'', Processed acc, []),
      (''packets.encapsulated'', Encapsulated acc, []),
      (''packets.encapsulated_bytes'', EncapsulatedBytes acc, []),
      (''packets.results'', UnknownFormat acc, [''result:UnknownFormat'']),
      (''packets.results'', NoMatchingBind acc, [''result:NoMatchingBind'']),
      (''packets.results'', Matched acc, [''result:Matched'']),
      (''packets.internal_errors'', ErrorTable acc, [''error:ErrorTable'']),
      (''packets.internal_errors'', ErrorSecret acc, [''error:ErrorSecret'']),
      (''packets.internal_errors'', ErrorHashConfig acc, [''error:ErrorHashConfig'']),
      (''packets.internal_errors'', ErrorMissingRow acc, [''error:ErrorMissingRow'']),
      (''packets.internal_errors'', ErrorCreatingSpace acc, [''error:ErrorCreatingSpace'']),
      (''packets.internal_errors'', ErrorMissingGatewayMAC acc, [''error:ErrorMissingGatewayMAC'']),
      (''packets.internal_errors'', ErrorMissingSourceAddress acc, [''error:ErrorMissingSourceAddress''])]"

text \<open>
  One tick: \<open>lookup\<close> is the result of reading the counters. The result is the remembered values and the
  metrics sent.
\<close>

definition stats_tick ::
    "glb_global_stats list \<Rightarrow> glb_global_stats list option \<Rightarrow>
     (glb_global_stats list \<times> go_metric list) option" where
  "stats_tick lastGlobalValues lookup =
     (case lookup of
        None \<Rightarrow> Some (lastGlobalValues, [])
      | Some globalValues \<Rightarrow>
          if length lastGlobalValues > 0 then
            case diffAndSumGlobalStats lastGlobalValues globalValues of
              None \<Rightarrow> None
            | Some acc \<Rightarrow> Some (globalValues, stats_metrics acc)
          else Some (globalValues, []))"

subsection \<open>Reload by starting a new process\<close>

text \<open>
  The outcomes of the system are inputs: whether the directory and the socket could be created,
  whether the process started, and what arrived on the socket within 30 seconds.
\<close>

datatype ready_wait = ReadError | ReadResponse string | TimedOut

datatype reload_outcome = ReloadFatal | NotReloading | GoodbyeExit

fun ready_response :: "ready_wait \<Rightarrow> string option" where
  "ready_response ReadError = Some ''ERROR''"
| "ready_response (ReadResponse r) = Some r"
| "ready_response TimedOut = None"

definition gracefullReloadByExec :: "bool \<Rightarrow> bool \<Rightarrow> bool \<Rightarrow> ready_wait \<Rightarrow> reload_outcome" where
  "gracefullReloadByExec tmpdir_ok listen_ok start_ok wait =
     (if \<not> tmpdir_ok then ReloadFatal
      else if \<not> listen_ok then ReloadFatal
      else if \<not> start_ok then NotReloading
      else case ready_response wait of
             Some readyResponse \<Rightarrow> if readyResponse = ''READY=1'' then GoodbyeExit else NotReloading
           | None \<Rightarrow> NotReloading)"

datatype go_signal = SIGINT | SIGUSR1 "bool \<times> bool \<times> bool \<times> ready_wait"

datatype main_end = MainReturns | MainFatal | MainExit0 | MainWaiting

text \<open>The signal loop of \<open>main\<close>, over the signals that arrive.\<close>

fun signal_loop :: "go_signal list \<Rightarrow> main_end" where
  "signal_loop [] = MainWaiting"
| "signal_loop (SIGINT # sigs) = MainReturns"
| "signal_loop (SIGUSR1 (t, l, s, w) # sigs) =
     (case gracefullReloadByExec t l s w of
        ReloadFatal \<Rightarrow> MainFatal
      | GoodbyeExit \<Rightarrow> MainExit0
      | NotReloading \<Rightarrow> signal_loop sigs)"

subsection \<open>Start-up\<close>

text \<open>
  The pinned root arrays of the host; an installed program is represented by the maps it was loaded
  with. \<open>put_prog\<close> is \<open>Put\<close> on a program array.
\<close>

type_synonym prog_array = "u32 \<rightharpoonup> bpf_maps"

record xdp_host =
  root_arrays :: "string \<rightharpoonup> prog_array"
  pid_written :: bool
  notified_ready :: bool

fun attach_roots ::
    "(u32 \<Rightarrow> bpf_maps \<Rightarrow> prog_array \<Rightarrow> prog_array option) \<Rightarrow> u32 \<Rightarrow> bpf_maps \<Rightarrow> string list \<Rightarrow> xdp_host \<Rightarrow>
     xdp_host \<times> go_failure option" where
  "attach_roots put_prog idx maps [] w = (w, None)"
| "attach_roots put_prog idx maps (xdpRootPath # paths) w =
     (case root_arrays w xdpRootPath of
        None \<Rightarrow> (w, Some LogFatal)
      | Some progArray \<Rightarrow>
      case put_prog idx maps progArray of
        None \<Rightarrow> (w, Some LogFatal)
      | Some progArray \<Rightarrow>
          attach_roots put_prog idx maps paths (w\<lparr>root_arrays := (root_arrays w)(xdpRootPath \<mapsto> progArray)\<rparr>))"

text \<open>
  \<open>main\<close> up to the signal loop. \<open>cfg\<close> is the result of \<open>LoadDirectorConfig\<close>, \<open>coll\<close> the fresh maps of
  the collection (\<open>None\<close> if loading, pinning or finding the program fails), \<open>statsd_ok\<close> whether the
  statsd client could be created. \<open>None\<close> as result: the process runs.
\<close>

definition xdp_main ::
    "ebpf_ops \<Rightarrow> (u32 \<Rightarrow> bpf_maps \<Rightarrow> prog_array \<Rightarrow> prog_array option) \<Rightarrow>
     (string \<Rightarrow> bytes option) \<Rightarrow> (string \<Rightarrow> bytes option) \<Rightarrow>
     go_config option \<Rightarrow> bpf_maps option \<Rightarrow> bool \<Rightarrow> bytes option \<Rightarrow> nat option \<Rightarrow> bool \<Rightarrow> ctx_heap \<Rightarrow>
     string list \<Rightarrow> u32 \<Rightarrow> xdp_host \<Rightarrow> xdp_host \<times> go_failure option" where
  "xdp_main P put_prog ParseMAC ParseIP4 cfg coll statsd_ok file ctx_at copy_ok h xdpRootPaths xdpRootIndex w =
     (case cfg of
        None \<Rightarrow> (w, Some LogFatal)
      | Some cfg \<Rightarrow>
      case coll of
        None \<Rightarrow> (w, Some LogFatal)
      | Some maps \<Rightarrow>
      if StatsdPort cfg \<noteq> 0 \<and> \<not> statsd_ok then (w, Some LogFatal)
      else case SyncConfigMap P ParseMAC ParseIP4 cfg maps of
        Inl e \<Rightarrow> (w, Some e)
      | Inr maps \<Rightarrow>
      case ReloadForwardingTable P file ctx_at copy_ok h maps of
        Inl e \<Rightarrow> (w, Some e)
      | Inr (h, maps) \<Rightarrow>
      case attach_roots put_prog xdpRootIndex maps xdpRootPaths w of
        (w, Some e) \<Rightarrow> (w, Some e)
      | (w, None) \<Rightarrow> (w\<lparr>pid_written := True, notified_ready := True\<rparr>, None))"

subsection \<open>A loaded program\<close>

definition fully_loaded :: "glb_director_config \<Rightarrow> bytes \<Rightarrow> bpf_maps \<Rightarrow> bool" where
  "fully_loaded cfg raw maps \<longleftrightarrow> config_loaded cfg maps \<and>
     (\<forall>i < unat (content_num_tables raw). table_loaded raw i maps) \<and>
     (\<forall>k. glb_binds maps k = map_option of_nat (bind_owner raw (unat (content_num_tables raw)) k))"

lemma config_loaded_cong:
  "config_bits a = config_bits b \<Longrightarrow> config_loaded cfg a \<longleftrightarrow> config_loaded cfg b"
  by (simp add: config_loaded_def)

lemma ReloadForwardingTable_Inr:
  assumes "ReloadForwardingTable P (Some raw) ctx_at copy_ok h maps = Inr (h', maps')" "length raw < 2 ^ 64"
  shows "valid_fwd_config raw \<and> (\<exists>n. load_tables P raw maps = Inr (n, maps'))"
proof -
  obtain h1 r where c: "create_glb_fwd_config (\<lambda>_. 0) (Some raw) ctx_at copy_ok h = Some (h1, r)"
    using assms(1) by (auto simp: ReloadForwardingTable_def split: option.splits)
  have len: "length data < 2 ^ 64" if "Some raw = Some data" for data
    using that assms(2) by simp
  obtain p data where d: "Some raw = Some data" "r = Some p" "valid_fwd_config data"
    "h1 = h(p \<mapsto> \<lparr>raw_config = data, raw_config_size = of_nat (length data), ref_count = 1\<rparr>)"
    by (rule create_glb_fwd_config_loaded [OF c len])
  show ?thesis
    using assms(1) c d by (auto simp: ReloadForwardingTable_def bind_res_Inr)
qed

lemma loaded_maps:
  assumes laws: "put_laws P" "config_puts P"
    and sync: "SyncConfigMap P ParseMAC ParseIP4 gc maps0 = Inr maps1"
    and ip: "\<And>ip. ParseIP4 (OutboundSourceIP gc) = Some ip \<Longrightarrow> length ip = 4"
    and load: "ReloadForwardingTable P (Some raw) ctx_at copy_ok h maps1 = Inr (h', maps)" "length raw < 2 ^ 64"
    and empty: "glb_binds maps0 = Map.empty"
  shows "fully_loaded (go_settings cfg ParseMAC ParseIP4 gc) raw maps"
    and "glb_global_packet_counters maps = glb_global_packet_counters maps0"
proof -
  obtain n where lt: "load_tables P raw maps1 = Inr (n, maps)"
    using ReloadForwardingTable_Inr [OF load] by blast
  note l = load_tables_Inr [OF laws(1) lt]
  note s = SyncConfigMap_loaded [OF laws sync ip]
  have "glb_binds maps1 = Map.empty" "glb_global_packet_counters maps1 = glb_global_packet_counters maps0"
    using arg_cong [OF s(2), of glb_binds] arg_cong [OF s(2), of glb_global_packet_counters] empty
    by simp_all
  then show "fully_loaded (go_settings cfg ParseMAC ParseIP4 gc) raw maps"
    "glb_global_packet_counters maps = glb_global_packet_counters maps0"
    using l s(1) config_loaded_cong [OF l(3)] by (auto simp: fully_loaded_def split: option.splits)
qed

lemma attach_roots_result:
  assumes "\<And>k v a a'. put_prog k v a = Some a' \<Longrightarrow> a' = a(k \<mapsto> v)"
    and "attach_roots put_prog idx maps paths w = (w', r)"
  shows "(root_arrays w' p = root_arrays w p \<or>
      (\<exists>arr. root_arrays w' p = Some arr \<and> arr idx = Some maps)) \<and>
    (r = None \<longrightarrow> p \<in> set paths \<longrightarrow> (\<exists>arr. root_arrays w' p = Some arr \<and> arr idx = Some maps)) \<and>
    notified_ready w' = notified_ready w"
  using assms(2)
proof (induction paths arbitrary: w)
  case (Cons q paths)
  show ?case
  proof (cases "attach_roots put_prog idx maps [q] w")
    case (Pair w1 r1)
    show ?thesis
    proof (cases r1)
      case None
      then obtain arr where w1: "w1 = w\<lparr>root_arrays := (root_arrays w)(q \<mapsto> arr)\<rparr>" "arr idx = Some maps"
        "attach_roots put_prog idx maps paths w1 = (w', r)"
        using Pair Cons.prems assms(1) by (fastforce split: option.splits)
      from Cons.IH [OF w1(3)] show ?thesis
        using w1(1,2) by auto
    next
      case (Some e)
      then have "w' = w" "r \<noteq> None"
        using Pair Cons.prems by (auto split: option.splits)
      then show ?thesis by auto
    qed
  qed
qed simp

subsection \<open>Examples\<close>

definition example_ops :: ebpf_ops where
  "example_ops =
     \<lparr>put_config = (\<lambda>k v m. Some (m(k \<mapsto> v))), put_bind = (\<lambda>k v m. Some (m(k \<mapsto> v))),
      put_table = (\<lambda>k v m. Some (m(k \<mapsto> v))), put_secret = (\<lambda>k v m. Some (m(k \<mapsto> v))),
      put_row = (\<lambda>k v m. Some (m(k \<mapsto> v))), new_map = (\<lambda>i. Some Map.empty)\<rparr>"

definition example_go_config :: go_config where
  "example_go_config =
     \<lparr>OutboundGatewayMAC = ''mac'', OutboundSourceIP = ''ip'', ForwardICMPPingResponses = True,
      HashFields = None, AltHashFields = None, StatsdPort = 0\<rparr>"

definition empty_maps :: bpf_maps where
  "empty_maps = \<lparr>config_bits = Map.empty, glb_binds = Map.empty, glb_tables = Map.empty,
     glb_table_secrets = Map.empty, glb_global_packet_counters = [0 \<mapsto> xdp_zero_stats]\<rparr>"

abbreviation xdp_example_mac :: "string \<Rightarrow> bytes option" where
  "xdp_example_mac s \<equiv> Some [0, 0, 0, 0, 0, 1]"

abbreviation xdp_example_ip :: "string \<Rightarrow> bytes option" where
  "xdp_example_ip s \<equiv> Some [10, 0, 0, 1]"

abbreviation example_raw :: bytes where
  "example_raw \<equiv> sample_config (replicate 16 0) (replicate 524288 0)"

lemma example_ops_laws: "put_laws example_ops" "config_puts example_ops" "puts_succeed example_ops"
  by (simp_all add: example_ops_def put_laws_def config_puts_def puts_succeed_def)

lemma example_raw_num_tables: "unat (content_num_tables example_raw) = 1"
  by simp

lemma example_raw_loadable: "loadable_table (content_table example_raw 0)"
proof -
  have w: "le_word (replicate n 0) = (0 :: u32)" for n
    using le_word_append_zeros [of "[]" n] by simp
  have z: "te_primary (glb_fwd_config_content_table_entry_of (replicate n 0)) = 0"
    "te_secondary (glb_fwd_config_content_table_entry_of (replicate n 0)) = 0" for n
    by (simp_all add: glb_fwd_config_content_table_entry_of_def get_field_def w)
  show ?thesis
    by (simp add: loadable_table_def rows_in_range_def sample_table_entry sample_table_members z)
qed

lemma example_raw_bind_count: "total_bind_count example_raw 1 = 2"
  by (simp add: total_bind_count_def table_bind_count_def sample_table_members bind_count_def port_count_def)

lemma example_raw_created:
  "\<exists>c. create_glb_fwd_config (\<lambda>_. 0) (Some example_raw) (Some 7) True Map.empty = Some ([7 \<mapsto> c], Some 7) \<and>
     raw_config c = example_raw"
proof -
  let ?ctx = "\<lparr>raw_config = example_raw, raw_config_size = of_nat (length example_raw), ref_count = 0\<rparr>"
  have v: "valid_fwd_config example_raw" by (rule valid_sample_config) simp_all
  then have l: "length example_raw = sizeof_content + sizeof_table"
    by (simp add: valid_fwd_config_def)
  then have "check_config ?ctx = None"
    using v by (subst check_config_None) (simp_all add: sizeof_table_eq sizeof_content_def)
  then show ?thesis
    by (intro exI [of _ "?ctx\<lparr>ref_count := 1\<rparr>"])
       (simp add: create_glb_fwd_config_def glb_fwd_config_ctx_incref_def)
qed

lemma length_example_raw: "length example_raw < 2 ^ 64"
proof -
  have "valid_fwd_config example_raw" by (rule valid_sample_config) simp_all
  then show ?thesis by (simp add: valid_fwd_config_def sizeof_table_eq sizeof_content_def)
qed

lemma example_sync:
  "\<exists>maps. SyncConfigMap example_ops xdp_example_mac xdp_example_ip example_go_config empty_maps = Inr maps \<and>
     glb_binds maps = Map.empty \<and> glb_global_packet_counters maps = [0 \<mapsto> xdp_zero_stats]"
  by (simp add: SyncConfigMap_def Let_def empty_maps_def)

lemma example_reload:
  assumes "glb_binds maps = Map.empty"
  shows "\<exists>h maps'. ReloadForwardingTable example_ops (Some example_raw) (Some 7) True Map.empty maps = Inr (h, maps')"
proof -
  obtain s where "fold_res (load_table example_ops example_raw) [0..<1] (0, maps) = Inr s"
    using load_tables_total [OF example_ops_laws(1,3), of 1 example_raw maps] example_raw_loadable
      example_raw_bind_count assms by auto
  then have "load_tables example_ops example_raw maps = Inr s"
    unfolding load_tables_def example_raw_num_tables .
  then show ?thesis
    using example_raw_created by (cases s) (auto simp: ReloadForwardingTable_def)
qed

subsection \<open>Auxiliary facts\<close>

lemma fold_res_step:
  "fold_res f xs a = Inr b \<Longrightarrow> x \<in> set xs \<Longrightarrow> \<exists>a' b'. f x a' = Inr b'"
  by (induction xs arbitrary: a) (auto simp: bind_res_Inr)

lemma diff_stats_consistent:
  assumes "stats_consistent acc" "stats_consistent c" "stats_consistent l"
  shows "stats_consistent (diff_stats acc c l)"
  using assms by (simp add: stats_consistent_def diff_stats_def internal_errors_def algebra_simps)

subsection \<open>Properties\<close>

text \<open>
  C10: the program is only installed completely loaded. Whatever the outcome of the start-up, every
  root array is either as before or holds a program whose maps contain all settings, all tables and
  all binds; when the process reports that it is ready, every root array it was given holds it.
\<close>

theorem xdp_installed_program_loaded:
  assumes "put_laws P" and "config_puts P"
    and "\<And>k v a a'. put_prog k v a = Some a' \<Longrightarrow> a' = a(k \<mapsto> v)"
    and "\<And>ip. ParseIP4 (OutboundSourceIP gc) = Some ip \<Longrightarrow> length ip = 4"
    and "glb_binds maps0 = Map.empty" and "length raw < 2 ^ 64" and "\<not> notified_ready w"
    and "xdp_main P put_prog ParseMAC ParseIP4 (Some gc) (Some maps0) statsd_ok (Some raw) ctx_at copy_ok h
           paths idx w = (w', r)"
  shows "(\<forall>p. root_arrays w' p = root_arrays w p \<or>
      (\<exists>arr maps. root_arrays w' p = Some arr \<and> arr idx = Some maps \<and>
         fully_loaded (go_settings cfg ParseMAC ParseIP4 gc) raw maps)) \<and>
    (notified_ready w' \<longrightarrow> (\<forall>p \<in> set paths. \<exists>arr maps. root_arrays w' p = Some arr \<and> arr idx = Some maps \<and>
         fully_loaded (go_settings cfg ParseMAC ParseIP4 gc) raw maps))"
proof (cases "w' = w")
  case True
  then show ?thesis using assms(7) by simp
next
  case False
  from assms(8) False obtain maps1 h2 maps w1 r1 where
    m: "SyncConfigMap P ParseMAC ParseIP4 gc maps0 = Inr maps1"
      "ReloadForwardingTable P (Some raw) ctx_at copy_ok h maps1 = Inr (h2, maps)"
      "attach_roots put_prog idx maps paths w = (w1, r1)"
      "w' = (if r1 = None then w1\<lparr>pid_written := True, notified_ready := True\<rparr> else w1)"
    by (auto simp: xdp_main_def split: if_splits sum.splits prod.splits option.splits)
  have "fully_loaded (go_settings cfg ParseMAC ParseIP4 gc) raw maps"
    by (rule loaded_maps(1) [OF assms(1,2) m(1) assms(4) m(2) assms(6,5)])
  with attach_roots_result [OF assms(3) m(3)] m(4) assms(7) show ?thesis
    by (auto split: if_splits) metis+
qed

definition example_host :: xdp_host where
  "example_host = \<lparr>root_arrays = [''/sys/fs/bpf/root'' \<mapsto> Map.empty], pid_written = False, notified_ready = False\<rparr>"

theorem xdp_installed_program_loaded_witness:
  "\<exists>w' arr maps. xdp_main example_ops (\<lambda>k v a. Some (a(k \<mapsto> v))) xdp_example_mac xdp_example_ip
      (Some example_go_config) (Some empty_maps) True (Some example_raw) (Some 7) True Map.empty
      [''/sys/fs/bpf/root''] 2 example_host = (w', None) \<and>
    root_arrays w' ''/sys/fs/bpf/root'' = Some arr \<and> arr 2 = Some maps \<and>
    fully_loaded (go_settings (zero_director_config 1) xdp_example_mac xdp_example_ip example_go_config) example_raw maps"
proof -
  obtain maps1 where s: "SyncConfigMap example_ops xdp_example_mac xdp_example_ip example_go_config empty_maps = Inr maps1"
    "glb_binds maps1 = Map.empty"
    using example_sync by blast
  obtain h maps where l: "ReloadForwardingTable example_ops (Some example_raw) (Some 7) True Map.empty maps1 =
      Inr (h, maps)"
    using example_reload [OF s(2)] by blast
  let ?w = "example_host\<lparr>root_arrays := [''/sys/fs/bpf/root'' \<mapsto> [2 \<mapsto> maps]], pid_written := True,
      notified_ready := True\<rparr>"
  have m: "xdp_main example_ops (\<lambda>k v a. Some (a(k \<mapsto> v))) xdp_example_mac xdp_example_ip
      (Some example_go_config) (Some empty_maps) True (Some example_raw) (Some 7) True Map.empty
      [''/sys/fs/bpf/root''] 2 example_host = (?w, None)"
    using s(1) l by (simp add: xdp_main_def example_host_def)
  have p: "a' = a(k \<mapsto> v)" if "Some (a(k \<mapsto> v)) = Some a'" for k :: u32 and v :: bpf_maps and a a'
    using that by simp
  have e: "glb_binds empty_maps = Map.empty" "\<not> notified_ready example_host" "notified_ready ?w"
    by (simp_all add: empty_maps_def example_host_def)
  have "\<forall>q \<in> set [''/sys/fs/bpf/root'']. \<exists>arr maps. root_arrays ?w q = Some arr \<and> arr 2 = Some maps \<and>
      fully_loaded (go_settings (zero_director_config 1) xdp_example_mac xdp_example_ip example_go_config) example_raw maps"
    using xdp_installed_program_loaded [OF example_ops_laws(1,2) p _ e(1) length_example_raw e(2) m,
        where cfg = "zero_director_config 1"] e(3) by simp
  then show ?thesis using m by simp
qed

text \<open>
  C7: an installed program serves the binds of the table file. After loading, a packet whose address,
  protocol and port belong to a bind is transmitted, encapsulated for the hops that the owning table
  (the last one with such a bind) has for the flow of the packet.
\<close>

theorem xdp_forwards_bind:
  assumes "put_laws P" and "config_puts P"
    and "SyncConfigMap P ParseMAC ParseIP4 gc maps0 = Inr maps1"
    and "\<And>ip. ParseIP4 (OutboundSourceIP gc) = Some ip \<Longrightarrow> length ip = 4"
    and "ReloadForwardingTable P (Some raw) ctx_at copy_ok h maps1 = Inr (h', maps)" and "length raw < 2 ^ 64"
    and "glb_binds maps0 = Map.empty" and "glb_global_packet_counters maps0 0 = Some st"
    and "hash_config_ok (go_settings cfg ParseMAC ParseIP4 gc)"
    and "glb_extract_packet_fields safely_get_header_raw (xdp_context data) = Some px"
    and "bind_owner raw (unat (content_num_tables raw)) (xdp_bind_of px) = Some i"
    and "adjust_head_law f" and "\<And>d. f data d \<noteq> None"
  shows "\<exists>maps'. xdp_glb_director_process f maps data =
    (XDP_TX, encapsulated ((go_settings cfg ParseMAC ParseIP4 gc)\<lparr>local_ether_addr := orig_dst_mac px\<rparr>)
       (content_table raw i) px (xdp_cksum (go_settings cfg ParseMAC ParseIP4 gc) (content_table raw i) px) 0
       (drop sizeof_eth data), maps')"
proof -
  let ?cfg = "go_settings cfg ParseMAC ParseIP4 gc"
  note l = loaded_maps(1) [OF assms(1-7), where cfg = cfg] loaded_maps(2) [OF assms(1-7)]
  have i: "i < unat (content_num_tables raw)"
  proof -
    have "bind_owner raw n k = Some i \<Longrightarrow> i < n" for n k
      by (induction n) (auto split: if_splits)
    then show ?thesis using assms(11) by blast
  qed
  have c: "config_loaded ?cfg maps" "table_loaded raw i maps"
    "glb_binds maps (xdp_bind_of px) = Some (of_nat i)" "glb_global_packet_counters maps 0 = Some st"
    using l i assms(8,11) by (auto simp: fully_loaded_def)
  obtain data' where "f data (int sizeof_eth - int (46 + 4 * length (packet_hops ?cfg (content_table raw i) px))) = Some data'"
    using assms(13) by blast
  note tx = xdp_match_TX [OF assms(10) c(3,1) assms(9) c(2) assms(12) this]
  show ?thesis by (simp add: xdp_glb_director_process_def c(4) tx)
qed

definition example_syn :: bytes where
  "example_syn = pdnet_ethernet_hdr_bytes (example_eth PDNET_ETHER_TYPE_IPV4) @
     pdnet_ipv4_hdr_bytes (example_ipv4 PDNET_IP_PROTO_TCP 7 0x01010101) @
     pdnet_l4_ports_hdr_bytes (example_ports 9 (htons 80)) @ replicate 16 0"

lemma example_syn_bind:
  "\<exists>px. glb_extract_packet_fields safely_get_header_raw (xdp_context example_syn) = Some px \<and>
     bind_owner example_raw (unat (content_num_tables example_raw)) (xdp_bind_of px) = Some 0"
proof -
  have "xdp_context example_syn = (xdp_context [])\<lparr>packet_data := example_syn\<rparr>"
    by (simp add: xdp_context_def)
  then obtain px where px: "glb_extract_packet_fields safely_get_header_raw (xdp_context example_syn) = Some px"
    "ether_type px = PDNET_ETHER_TYPE_IPV4" "get_union_ipv4 (dst_addr px) = 0x01010101"
    "original_ipproto px = PDNET_IP_PROTO_TCP" "dst_port px = htons 80"
    by (simp add: example_syn_def glb_extract_raw_ipv4 extract_ipv4_ports_raw)
  have "covers (table_bind (content_table example_raw 0) 0) (xdp_bind_of px)"
    using px(2-) by (simp add: covers_def Let_def sample_table_members port_bind_key_def xdp_bind_of_def
        get_bind_ipv4_def get_bind_ipv6_def)
  then have "table_covers (content_table example_raw 0) (xdp_bind_of px)"
    by (simp add: table_covers_def sample_table_members)
  then show ?thesis using px(1) by simp
qed

theorem xdp_forwards_bind_witness:
  "\<exists>maps1 h' maps px maps'.
    SyncConfigMap example_ops xdp_example_mac xdp_example_ip example_go_config empty_maps = Inr maps1 \<and>
    ReloadForwardingTable example_ops (Some example_raw) (Some 7) True Map.empty maps1 = Inr (h', maps) \<and>
    xdp_glb_director_process example_adjust_head maps example_syn =
      (XDP_TX, encapsulated ((go_settings (zero_director_config 1) xdp_example_mac xdp_example_ip example_go_config)
         \<lparr>local_ether_addr := orig_dst_mac px\<rparr>) (content_table example_raw 0) px
         (xdp_cksum (go_settings (zero_director_config 1) xdp_example_mac xdp_example_ip example_go_config)
            (content_table example_raw 0) (px :: bytes glb_route_context)) 0
         (drop sizeof_eth example_syn), maps')"
proof -
  obtain maps1 where s: "SyncConfigMap example_ops xdp_example_mac xdp_example_ip example_go_config empty_maps = Inr maps1"
    "glb_binds maps1 = Map.empty"
    using example_sync by blast
  obtain h maps where l: "ReloadForwardingTable example_ops (Some example_raw) (Some 7) True Map.empty maps1 =
      Inr (h, maps)"
    using example_reload [OF s(2)] by blast
  obtain px where px: "glb_extract_packet_fields safely_get_header_raw (xdp_context example_syn) = Some px"
    "bind_owner example_raw (unat (content_num_tables example_raw)) (xdp_bind_of px) = Some 0"
    using example_syn_bind by blast
  have e: "glb_binds empty_maps = Map.empty" "glb_global_packet_counters empty_maps 0 = Some xdp_zero_stats"
    "hash_config_ok (go_settings (zero_director_config 1) xdp_example_mac xdp_example_ip example_go_config)"
    "example_adjust_head example_syn d \<noteq> None" for d
    by (simp_all add: empty_maps_def hash_config_ok_def go_settings_def example_go_config_def
        hash_fields_any_def example_adjust_head_def)
  from xdp_forwards_bind [OF example_ops_laws(1,2) s(1) _ l length_example_raw e(1-3) px
      example_adjust_head_law e(4)]
  show ?thesis using s(1) l by auto
qed

text \<open>
  C15: loading a valid table file succeeds. The fresh maps take the file when its rows name backends,
  no bind ends at port 65535, and the binds, expanded to ports, with one entry each for ICMP, are at
  most 4096; the number entered is then exactly this sum.
\<close>

theorem xdp_load_succeeds:
  assumes "put_laws P" and "puts_succeed P" and "valid_fwd_config raw"
    and "unat (content_num_tables raw) \<le> 4096"
    and "\<And>i. i < unat (content_num_tables raw) \<Longrightarrow> rows_in_range (content_table raw i)"
    and "\<And>i b. i < unat (content_num_tables raw) \<Longrightarrow> b < unat (table_num_binds (content_table raw i)) \<Longrightarrow>
           bd_port_end (table_bind (content_table raw i) b) \<noteq> 0xffff"
    and "total_bind_count raw (unat (content_num_tables raw)) \<le> 4096" and "glb_binds maps = Map.empty"
  shows "\<exists>n maps'. load_tables P raw maps = Inr (n, maps') \<and>
    unat n = total_bind_count raw (unat (content_num_tables raw))"
proof -
  have "loadable_table (content_table raw i)" if "i < unat (content_num_tables raw)" for i
  proof -
    have "valid_table (content_table raw i)" using assms(3) that by (simp add: valid_fwd_config_def)
    then show ?thesis
      using assms(5,6) that by (simp add: loadable_table_def valid_table_def)
  qed
  from load_tables_total [OF assms(1,2,4) this assms(7,8)] show ?thesis
    by (fastforce simp: load_tables_def binds_within_def)
qed

theorem xdp_load_succeeds_witness:
  "\<exists>n maps'. load_tables example_ops example_raw empty_maps = Inr (n, maps') \<and> unat n = 2"
proof -
  have v: "valid_fwd_config example_raw" by (rule valid_sample_config) simp_all
  have e: "glb_binds empty_maps = Map.empty" by (simp add: empty_maps_def)
  have "rows_in_range (content_table example_raw i)"
    "b < unat (table_num_binds (content_table example_raw i)) \<Longrightarrow>
      bd_port_end (table_bind (content_table example_raw i) b) \<noteq> 0xffff"
    if "i < unat (content_num_tables example_raw)" for i b
    using that example_raw_loadable by (auto simp: loadable_table_def)
  from xdp_load_succeeds [OF example_ops_laws(1,3) v _ this _ e]
  show ?thesis using example_raw_bind_count by simp
qed

text \<open>
  C32: a table file with a bind whose port range ends at 65535 is never loaded, although the validator
  accepts it: the loop over the ports counts in 16 bits and does not end before the binds are used up.
\<close>

theorem xdp_port_65535_not_loaded:
  assumes "i < unat (content_num_tables raw)" and "b < unat (table_num_binds (content_table raw i))"
    and "bd_port_end (table_bind (content_table raw i) b) = 0xffff"
  shows "\<exists>e. load_tables P raw maps = Inl e"
proof (rule ccontr)
  let ?t = "content_table raw i"
  assume "\<not> (\<exists>e. load_tables P raw maps = Inl e)"
  then obtain s where "load_tables P raw maps = Inr s" by (cases "load_tables P raw maps") auto
  then obtain s1 s2 where "load_table P raw i s1 = Inr s2"
    using fold_res_step [of "load_table P raw" _ _ s i] assms(1) unfolding load_tables_def by fastforce
  then obtain a a' where "fold_res (load_bind P ?t i) [0..<unat (table_num_binds ?t)] a = Inr a'"
    by (elim load_table_steps)
  then obtain d d' where "load_bind P ?t i b d = Inr d'"
    using fold_res_step [of "load_bind P ?t i" _ a a' b] assms(2) by fastforce
  then show False
    using assms(3) by (simp add: load_bind_def Let_def bind_port_loop_max split: if_splits)
qed

theorem xdp_port_65535_not_loaded_witness:
  "valid_fwd_config (sample_config_to 0xffff (replicate 16 0) (replicate 524288 0)) \<and>
   (\<exists>e. load_tables example_ops (sample_config_to 0xffff (replicate 16 0) (replicate 524288 0)) empty_maps = Inl e)"
proof
  let ?raw = "sample_config_to 0xffff (replicate 16 0) (replicate 524288 0)"
  show "valid_fwd_config ?raw" by (rule valid_sample_config) simp_all
  show "\<exists>e. load_tables example_ops ?raw empty_maps = Inl e"
    by (rule xdp_port_65535_not_loaded [of 0 _ 0]) (simp_all add: sample_table_members)
qed



end
