(* ===== verification/Spec2Isabelle.thy ===== *)
theory Spec2Isabelle
  imports Encap Siphash_Test Table_Builder Proxy_Chain Xdp_Main
begin

text \<open>
  A verification of the GitHub Load Balancer Director.
\<close>

text \<open>
  C22: the unrolled SipHash of the packet path computes the reference SipHash-2-4, for every input
  shorter than its fixed buffer, padded with zeros as the callers do.
\<close>

theorem glb_siphash_eq_siphash:
  assumes "length inp < GLB_SIPHASH_REQUIRED_IN_SIZE"
  shows "glb_siphash (inp @ replicate (GLB_SIPHASH_REQUIRED_IN_SIZE - length inp) 0) (length inp) k
           = Some (siphash inp k)"
  using assms by (rule glb_siphash_padded)

theorem glb_siphash_eq_siphash_witness:
  "glb_siphash ([0, 0, 0xff, 0xff] @ replicate 36 0) 4 test_seed =
     Some [0xf2, 0x23, 0xc0, 0xcc, 0x65, 0x16, 0x16, 0x20]"
proof -
  have "length [0, 0, 0xff, 0xff :: u8] = 4" by simp
  then show ?thesis
    using glb_siphash_eq_siphash [of "[0, 0, 0xff, 0xff]" test_seed]
    by (simp only: GLB_SIPHASH_REQUIRED_IN_SIZE_def test_siphash) simp
qed

end
